theory Spec2Isabelle
  imports Complex_Main
begin

section \<open>The message substrate as seen by a federate\<close>

text \<open>
  Every example program is one sequential \<open>main\<close> that talks to the HELICS message
  layer (and, for the GridPACK examples, to a power-flow application object). Both are
  external: the model takes them as oracles that answer a call from the history of the
  calls answered so far. A call either returns a value or raises an exception; the
  calls that returned are logged, in program order, as a list of events.

  The C++ type \<open>double\<close> is modelled by \<open>real\<close> and \<open>std::complex<double>\<close> by
  \<open>complex\<close>: arithmetic is exact, rounding is not modelled. The statements about
  computed values say which operations of the source produced them, in the order of the
  source, from the values the substrate delivered; the statements about the clock are
  comparisons that the program makes. No statement rests on an identity of real
  arithmetic that rounding breaks, such as regrouping a sum or undoing an addition by a
  subtraction. The numerals in concrete runs are the exact values of the expressions.
\<close>

datatype exn = HelicsException string | OtherException string

datatype val = Dbl real | Cplx complex

datatype event =
    Create string
  | RegisterPublication string
  | RegisterSubscription string
  | EnterExecutingMode
  | RequestTime real real
  | GetValue string val
  | Execute string complex complex complex
  | Publish string val
  | Finalize

text \<open>
  \<open>RequestTime t g\<close>: the federate asked for time \<open>t\<close> and was granted \<open>g\<close>.
  \<open>GetValue k v\<close>: the subscription \<open>k\<close> delivered \<open>v\<close>.
  \<open>Execute a v s v'\<close>: the application object \<open>a\<close> was run on voltage \<open>v\<close> and power
  \<open>s\<close> and left \<open>v'\<close> in the voltage argument.
\<close>

record substrate =
  grant :: "event list \<Rightarrow> real \<Rightarrow> exn + real"
  double_in :: "event list \<Rightarrow> string \<Rightarrow> exn + real"
  complex_in :: "event list \<Rightarrow> string \<Rightarrow> exn + complex"
  control :: "event list \<Rightarrow> event \<Rightarrow> exn option"

type_synonym solver = "event list \<Rightarrow> string \<Rightarrow> complex \<Rightarrow> complex \<Rightarrow> exn + complex"

type_synonym 'a act = "event list \<Rightarrow> (exn + 'a) \<times> event list"

definition ret :: "'a \<Rightarrow> 'a act" where
  "ret x tr = (Inr x, tr)"

definition bnd :: "'a act \<Rightarrow> ('a \<Rightarrow> 'b act) \<Rightarrow> 'b act" where
  "bnd m f tr = (case m tr of (Inl e, tr') \<Rightarrow> (Inl e, tr') | (Inr x, tr') \<Rightarrow> f x tr')"

definition call :: "substrate \<Rightarrow> event \<Rightarrow> unit act" where
  "call sub ev tr = (case control sub tr ev of Some e \<Rightarrow> (Inl e, tr) | None \<Rightarrow> (Inr (), tr @ [ev]))"

definition requestTime :: "substrate \<Rightarrow> real \<Rightarrow> real act" where
  "requestTime sub t tr =
     (case grant sub tr t of Inl e \<Rightarrow> (Inl e, tr) | Inr g \<Rightarrow> (Inr g, tr @ [RequestTime t g]))"

definition getDouble :: "substrate \<Rightarrow> string \<Rightarrow> real act" where
  "getDouble sub k tr =
     (case double_in sub tr k of Inl e \<Rightarrow> (Inl e, tr) | Inr x \<Rightarrow> (Inr x, tr @ [GetValue k (Dbl x)]))"

definition getComplex :: "substrate \<Rightarrow> string \<Rightarrow> complex act" where
  "getComplex sub k tr =
     (case complex_in sub tr k of Inl e \<Rightarrow> (Inl e, tr) | Inr z \<Rightarrow> (Inr z, tr @ [GetValue k (Cplx z)]))"

definition publish :: "substrate \<Rightarrow> string \<Rightarrow> val \<Rightarrow> unit act" where
  "publish sub k v = call sub (Publish k v)"

definition execute :: "solver \<Rightarrow> string \<Rightarrow> complex \<Rightarrow> complex \<Rightarrow> complex act" where
  "execute app a v s tr =
     (case app tr a v s of Inl e \<Rightarrow> (Inl e, tr) | Inr v' \<Rightarrow> (Inr v', tr @ [Execute a v s v']))"

text \<open>
  A \<open>while\<close> loop whose exit depends on what the substrate grants may run forever. The
  loop is given fuel: \<open>None\<close> means the fuel ran out with the loop condition still
  true; \<open>Some (Inl e, tr)\<close> that a call in the body raised \<open>e\<close>; \<open>Some (Inr s, tr)\<close> that
  the loop condition became false in state \<open>s\<close>.
\<close>

fun while_fuel ::
  "nat \<Rightarrow> ('s \<Rightarrow> bool) \<Rightarrow> ('s \<Rightarrow> 's act) \<Rightarrow> 's \<Rightarrow> event list \<Rightarrow> ((exn + 's) \<times> event list) option"
where
  "while_fuel 0 c b s tr = (if c s then None else Some (Inr s, tr))"
| "while_fuel (Suc n) c b s tr =
     (if c s then
        (case b s tr of
           (Inl e, tr') \<Rightarrow> Some (Inl e, tr')
         | (Inr s', tr') \<Rightarrow> while_fuel n c b s' tr')
      else Some (Inr s, tr))"

text \<open>How a \<open>main\<close> ends: it returns a status, or an exception leaves it uncaught.\<close>

datatype outcome = Returned int | Uncaught exn

section \<open>lc-tank: Capacitor.cpp and Inductor.cpp\<close>

record clock =
  period :: real
  total_interval :: real
  grantedtime :: real

record lc = clock +
  time_sim :: "real list"

record capacitor = lc +
  c_value :: real
  inductor_current :: real
  delta_v :: real
  voltage :: "real list"

record inductor = lc +
  l_value :: real
  capacitor_voltage :: real
  delta_i :: real
  current :: "real list"

text \<open>The local variables of \<open>Capacitor.cpp\<close> as they stand when the loop is entered.\<close>

definition capacitor_init :: capacitor where
  "capacitor_init =
     \<lparr>period = 100 / 10 ^ 6, total_interval = 10, grantedtime = 0, time_sim = [0],
      c_value = 0.159, inductor_current = 0, delta_v = 0, voltage = [0]\<rparr>"

text \<open>The body of the loop of \<open>Capacitor.cpp\<close>, lines 58 to 70.\<close>

definition capacitor_body :: "substrate \<Rightarrow> capacitor \<Rightarrow> capacitor act" where
  "capacitor_body sub s =
     bnd (requestTime sub (grantedtime s + period s)) (\<lambda>g.
     let s = s\<lparr>grantedtime := g\<rparr> in
     bnd (getDouble sub ''Inductor/Il'') (\<lambda>x.
     let s = s\<lparr>inductor_current := x\<rparr>;
         s = s\<lparr>delta_v := (- 1 / c_value s) * inductor_current s * period s\<rparr>;
         s = s\<lparr>time_sim := time_sim s @ [grantedtime s]\<rparr>;
         s = s\<lparr>voltage := voltage s @ [last (voltage s) + delta_v s]\<rparr> in
     bnd (publish sub ''Vc'' (Dbl (last (voltage s)))) (\<lambda>_. ret s)))"

definition capacitor_loop ::
  "nat \<Rightarrow> substrate \<Rightarrow> capacitor \<Rightarrow> event list \<Rightarrow> ((exn + capacitor) \<times> event list) option" where
  "capacitor_loop n sub = while_fuel n (\<lambda>s. grantedtime s < total_interval s) (capacitor_body sub)"

definition inductor_init :: inductor where
  "inductor_init =
     \<lparr>period = 100 / 10 ^ 6, total_interval = 10, grantedtime = 0, time_sim = [0],
      l_value = 0.159, capacitor_voltage = 0, delta_i = 0, current = [1]\<rparr>"

text \<open>The body of the loop of \<open>Inductor.cpp\<close>, lines 57 to 69.\<close>

definition inductor_body :: "substrate \<Rightarrow> inductor \<Rightarrow> inductor act" where
  "inductor_body sub s =
     bnd (requestTime sub (grantedtime s + period s)) (\<lambda>g.
     let s = s\<lparr>grantedtime := g\<rparr> in
     bnd (getDouble sub ''Capacitor/Vc'') (\<lambda>x.
     let s = s\<lparr>capacitor_voltage := x\<rparr>;
         s = s\<lparr>delta_i := (1 / l_value s) * capacitor_voltage s * period s\<rparr>;
         s = s\<lparr>time_sim := time_sim s @ [grantedtime s]\<rparr>;
         s = s\<lparr>current := current s @ [last (current s) + delta_i s]\<rparr> in
     bnd (publish sub ''Il'' (Dbl (last (current s)))) (\<lambda>_. ret s)))"

definition inductor_loop ::
  "nat \<Rightarrow> substrate \<Rightarrow> inductor \<Rightarrow> event list \<Rightarrow> ((exn + inductor) \<times> event list) option" where
  "inductor_loop n sub = while_fuel n (\<lambda>s. grantedtime s < total_interval s) (inductor_body sub)"

text \<open>
  \<open>main\<close> of \<open>Capacitor.cpp\<close>: the federate is created, its publication and
  subscription are registered, it enters executing mode, publishes the initial voltage,
  runs the loop, finalizes and returns 0. Nothing is caught: an exception of any call
  leaves \<open>main\<close>. (The CSV file written before \<open>finalize\<close> is not part of the model.)
\<close>

definition capacitor_main :: "nat \<Rightarrow> substrate \<Rightarrow> (outcome \<times> event list) option" where
  "capacitor_main n sub =
     (case bnd (call sub (Create ''Capacitor'')) (\<lambda>_.
           bnd (call sub (RegisterPublication ''Vc'')) (\<lambda>_.
           bnd (call sub (RegisterSubscription ''Inductor/Il'')) (\<lambda>_.
           bnd (call sub EnterExecutingMode) (\<lambda>_.
           publish sub ''Vc'' (Dbl (last (voltage capacitor_init))))))) [] of
        (Inl e, tr) \<Rightarrow> Some (Uncaught e, tr)
      | (Inr _, tr) \<Rightarrow>
          (case capacitor_loop n sub capacitor_init tr of
             None \<Rightarrow> None
           | Some (Inl e, tr') \<Rightarrow> Some (Uncaught e, tr')
           | Some (Inr s, tr') \<Rightarrow>
               (case call sub Finalize tr' of
                  (Inl e, tr'') \<Rightarrow> Some (Uncaught e, tr'')
                | (Inr _, tr'') \<Rightarrow> Some (Returned 0, tr''))))"

definition inductor_main :: "nat \<Rightarrow> substrate \<Rightarrow> (outcome \<times> event list) option" where
  "inductor_main n sub =
     (case bnd (call sub (Create ''Inductor'')) (\<lambda>_.
           bnd (call sub (RegisterPublication ''Il'')) (\<lambda>_.
           bnd (call sub (RegisterSubscription ''Capacitor/Vc'')) (\<lambda>_.
           bnd (call sub EnterExecutingMode) (\<lambda>_.
           publish sub ''Il'' (Dbl (last (current inductor_init))))))) [] of
        (Inl e, tr) \<Rightarrow> Some (Uncaught e, tr)
      | (Inr _, tr) \<Rightarrow>
          (case inductor_loop n sub inductor_init tr of
             None \<Rightarrow> None
           | Some (Inl e, tr') \<Rightarrow> Some (Uncaught e, tr')
           | Some (Inr s, tr') \<Rightarrow>
               (case call sub Finalize tr' of
                  (Inl e, tr'') \<Rightarrow> Some (Uncaught e, tr'')
                | (Inr _, tr'') \<Rightarrow> Some (Returned 0, tr''))))"

section \<open>pf-cosim: gpk-left-fed.cpp\<close>

text \<open>
  The power-flow application \<open>gridpack::powerflow::PFApp\<close> is not part of the sources at
  hand; \<open>app.execute(argc, argv, voltage, Sa)\<close> is taken as a parameter of type
  \<open>solver\<close> that returns what the call leaves in its voltage argument. The complex
  variable \<open>voltage\<close> of this program is the field \<open>voltage_pf\<close>. The lines written
  to the file \<open>gpk.csv\<close> and the set-up and shut-down of the GridPACK environment
  and math library are not part of the model.
\<close>

record gpk = clock +
  Sa :: complex

record pf = gpk +
  voltage_pf :: complex

definition pf_init :: pf where
  "pf_init = \<lparr>period = 1, total_interval = 10, grantedtime = 0, Sa = Complex 0 0,
              voltage_pf = Complex 1 0\<rparr>"

text \<open>The body of the loop, lines 67 to 82.\<close>

definition pf_body :: "substrate \<Rightarrow> solver \<Rightarrow> pf \<Rightarrow> pf act" where
  "pf_body sub app s =
     bnd (requestTime sub (grantedtime s + period s)) (\<lambda>g.
     let s = s\<lparr>grantedtime := g\<rparr> in
     bnd (getComplex sub ''gpk_gld_right_fed/sa'') (\<lambda>z.
     let s = s\<lparr>Sa := z / 1000000\<rparr> in
     bnd (execute app ''app'' (voltage_pf s) (Sa s)) (\<lambda>v.
     let s = s\<lparr>voltage_pf := v\<rparr> in
     bnd (publish sub ''Vc'' (Cplx (voltage_pf s * 69000))) (\<lambda>_. ret s))))"

definition pf_loop ::
  "nat \<Rightarrow> substrate \<Rightarrow> solver \<Rightarrow> pf \<Rightarrow> event list \<Rightarrow> ((exn + pf) \<times> event list) option" where
  "pf_loop n sub app = while_fuel n (\<lambda>s. grantedtime s < total_interval s) (pf_body sub app)"

definition pf_main :: "nat \<Rightarrow> substrate \<Rightarrow> solver \<Rightarrow> (outcome \<times> event list) option" where
  "pf_main n sub app =
     (case bnd (call sub (Create ''gpk-left-fed'')) (\<lambda>_.
           bnd (call sub (RegisterPublication ''Vc'')) (\<lambda>_.
           bnd (call sub (RegisterSubscription ''gpk_gld_right_fed/sa'')) (\<lambda>_.
           bnd (call sub EnterExecutingMode) (\<lambda>_.
           publish sub ''Vc'' (Cplx (voltage_pf pf_init * 69000)))))) [] of
        (Inl e, tr) \<Rightarrow> Some (Uncaught e, tr)
      | (Inr _, tr) \<Rightarrow>
          (case pf_loop n sub app pf_init tr of
             None \<Rightarrow> None
           | Some (Inl e, tr') \<Rightarrow> Some (Uncaught e, tr')
           | Some (Inr s, tr') \<Rightarrow>
               (case call sub Finalize tr' of
                  (Inl e, tr'') \<Rightarrow> Some (Uncaught e, tr'')
                | (Inr _, tr'') \<Rightarrow> Some (Returned 0, tr''))))"

section \<open>2bus-13bus: gpk-left-fed.cpp\<close>

record bus13 = gpk +
  Sb :: complex
  Sc :: complex
  Va :: complex
  Vb :: complex
  Vc :: complex
  r120 :: complex

definition bus13_init :: bus13 where
  "bus13_init =
     \<lparr>period = 1, total_interval = 10, grantedtime = 0, Sa = Complex 0 0,
      Sb = Complex 0 0, Sc = Complex 0 0,
      Va = Complex 1 0, Vb = Complex (- 0.5) (- 0.866025), Vc = Complex (- 0.5) 0.866025,
      r120 = Complex (- 0.5) (- 0.866025)\<rparr>"

text \<open>The body of the loop, lines 85 to 110.\<close>

definition bus13_body :: "substrate \<Rightarrow> solver \<Rightarrow> bus13 \<Rightarrow> bus13 act" where
  "bus13_body sub app s =
     bnd (requestTime sub (grantedtime s + period s)) (\<lambda>g.
     let s = s\<lparr>grantedtime := g\<rparr> in
     bnd (getComplex sub ''gld_hlc_conn/Sa'') (\<lambda>za.
     let s = s\<lparr>Sa := za / 100000000\<rparr> in
     bnd (getComplex sub ''gld_hlc_conn/Sb'') (\<lambda>zb.
     let s = s\<lparr>Sb := zb / 100000000\<rparr> in
     bnd (getComplex sub ''gld_hlc_conn/Sc'') (\<lambda>zc.
     let s = s\<lparr>Sc := zc / 100000000\<rparr> in
     bnd (execute app ''app_A'' (Va s) (Sa s)) (\<lambda>va.
     let s = s\<lparr>Va := va\<rparr> in
     bnd (execute app ''app_B'' (Vb s) (Sb s)) (\<lambda>vb.
     let s = s\<lparr>Vb := vb\<rparr> in
     bnd (execute app ''app_C'' (Vc s) (Sc s)) (\<lambda>vc.
     let s = s\<lparr>Vc := vc\<rparr>;
         s = s\<lparr>Vb := Vb s * r120 s\<rparr>;
         s = s\<lparr>Vc := Vc s * r120 s * r120 s\<rparr> in
     bnd (publish sub ''Va'' (Cplx (Va s * 2400))) (\<lambda>_.
     bnd (publish sub ''Vb'' (Cplx (Vb s * 2400))) (\<lambda>_.
     bnd (publish sub ''Vc'' (Cplx (Vc s * 2400))) (\<lambda>_. ret s))))))))))"

definition bus13_loop ::
  "nat \<Rightarrow> substrate \<Rightarrow> solver \<Rightarrow> bus13 \<Rightarrow> event list \<Rightarrow> ((exn + bus13) \<times> event list) option" where
  "bus13_loop n sub app = while_fuel n (\<lambda>s. grantedtime s < total_interval s) (bus13_body sub app)"

definition bus13_main :: "nat \<Rightarrow> substrate \<Rightarrow> solver \<Rightarrow> (outcome \<times> event list) option" where
  "bus13_main n sub app =
     (case bnd (call sub (Create ''gridpack'')) (\<lambda>_.
           bnd (call sub (RegisterPublication ''Va'')) (\<lambda>_.
           bnd (call sub (RegisterPublication ''Vb'')) (\<lambda>_.
           bnd (call sub (RegisterPublication ''Vc'')) (\<lambda>_.
           bnd (call sub (RegisterSubscription ''gld_hlc_conn/Sa'')) (\<lambda>_.
           bnd (call sub (RegisterSubscription ''gld_hlc_conn/Sb'')) (\<lambda>_.
           bnd (call sub (RegisterSubscription ''gld_hlc_conn/Sc'')) (\<lambda>_.
           bnd (call sub EnterExecutingMode) (\<lambda>_.
           bnd (publish sub ''Va'' (Cplx (Va bus13_init * 2401.78))) (\<lambda>_.
           bnd (publish sub ''Vb'' (Cplx (Vb bus13_init * 2401.78))) (\<lambda>_.
           publish sub ''Vc'' (Cplx (Vc bus13_init * 2401.78)))))))))))) [] of
        (Inl e, tr) \<Rightarrow> Some (Uncaught e, tr)
      | (Inr _, tr) \<Rightarrow>
          (case bus13_loop n sub app bus13_init tr of
             None \<Rightarrow> None
           | Some (Inl e, tr') \<Rightarrow> Some (Uncaught e, tr')
           | Some (Inr s, tr') \<Rightarrow>
               (case call sub Finalize tr' of
                  (Inl e, tr'') \<Rightarrow> Some (Uncaught e, tr'')
                | (Inr _, tr'') \<Rightarrow> Some (Returned 0, tr''))))"

section \<open>simple-cosim: gridpack_federate.cpp\<close>

text \<open>One pass through the body of the \<open>for\<close> loop, lines 37 to 54. What
  \<open>requestTime\<close> returns is dropped.\<close>

definition gridpack_step :: "substrate \<Rightarrow> int \<Rightarrow> unit act" where
  "gridpack_step sub t =
     bnd (requestTime sub (real_of_int t + 1.0)) (\<lambda>_.
     bnd (getComplex sub ''load_meter/current'') (\<lambda>load_current.
     let voltage_A = Complex (Re load_current * 1.1) (Im load_current * 1.1);
         voltage_B = Complex (Re load_current * 1.2) (Im load_current * 1.2);
         voltage_C = Complex (Re load_current * 1.3) (Im load_current * 1.3) in
     bnd (publish sub ''gridpack/voltage_A'' (Cplx voltage_A)) (\<lambda>_.
     bnd (publish sub ''gridpack/voltage_B'' (Cplx voltage_B)) (\<lambda>_.
     publish sub ''gridpack/voltage_C'' (Cplx voltage_C)))))"

text \<open>\<open>for (int t = 0; t < 10; ++t)\<close>, entered with the counter at \<open>t\<close>.\<close>

function gridpack_for :: "substrate \<Rightarrow> int \<Rightarrow> unit act" where
  "gridpack_for sub t tr =
     (if t < 10 then
        (case gridpack_step sub t tr of
           (Inl e, tr') \<Rightarrow> (Inl e, tr')
         | (Inr _, tr') \<Rightarrow> gridpack_for sub (t + 1) tr')
      else (Inr (), tr))"
  by pat_completeness auto
termination
  by (relation "measure (\<lambda>(sub, t, tr). nat (10 - t))") auto

declare gridpack_for.simps [simp del]

text \<open>The \<open>try\<close> block of \<open>main\<close>, lines 11 to 59.\<close>

definition gridpack_try :: "substrate \<Rightarrow> unit act" where
  "gridpack_try sub =
     bnd (call sub (Create ''gridpack'')) (\<lambda>_.
     bnd (call sub (RegisterPublication ''gridpack/voltage_A'')) (\<lambda>_.
     bnd (call sub (RegisterPublication ''gridpack/voltage_B'')) (\<lambda>_.
     bnd (call sub (RegisterPublication ''gridpack/voltage_C'')) (\<lambda>_.
     bnd (call sub (RegisterSubscription ''load_meter/current'')) (\<lambda>_.
     bnd (call sub EnterExecutingMode) (\<lambda>_.
     bnd (gridpack_for sub 0) (\<lambda>_.
     call sub Finalize)))))))"

text \<open>\<open>main\<close>: a \<open>HelicsException\<close> of the block is caught and answered with \<open>-1\<close>;
  any other exception is not caught.\<close>

definition gridpack_main :: "substrate \<Rightarrow> outcome \<times> event list" where
  "gridpack_main sub =
     (case gridpack_try sub [] of
        (Inl (HelicsException m), tr) \<Rightarrow> (Returned (- 1), tr)
      | (Inl (OtherException m), tr) \<Rightarrow> (Uncaught (OtherException m), tr)
      | (Inr _, tr) \<Rightarrow> (Returned 0, tr))"

section \<open>Reading a trace\<close>

text \<open>The real values delivered by subscriptions, the time requests with their grants,
  and the granted times, in the order of the trace.\<close>

fun reads :: "event list \<Rightarrow> real list" where
  "reads [] = []"
| "reads (GetValue k (Dbl x) # es) = x # reads es"
| "reads (ev # es) = reads es"

fun requests :: "event list \<Rightarrow> (real \<times> real) list" where
  "requests [] = []"
| "requests (RequestTime t g # es) = (t, g) # requests es"
| "requests (ev # es) = requests es"

definition grants :: "event list \<Rightarrow> real list" where
  "grants es = map snd (requests es)"


section \<open>The contracts of the specification\<close>

text \<open>
  The contract of the integration Advancer in the words of the specification:
  \<open>advance(prev_state, peer_input, dt, element_value)\<close>, for a capacitor and for an
  inductor.
\<close>

definition advance_capacitor :: "real \<Rightarrow> real \<Rightarrow> real \<Rightarrow> real \<Rightarrow> real" where
  "advance_capacitor prev_state peer_input dt C = prev_state + (- 1 / C) * peer_input * dt"

definition advance_inductor :: "real \<Rightarrow> real \<Rightarrow> real \<Rightarrow> real \<Rightarrow> real" where
  "advance_inductor prev_state peer_input dt L = prev_state + (1 / L) * peer_input * dt"

text \<open>The trajectory obtained by summing increments directly from a start value: each
  point is the point before it plus the next increment.\<close>

fun trajectory :: "real \<Rightarrow> real list \<Rightarrow> real list" where
  "trajectory v0 [] = []"
| "trajectory v0 (d # ds) = (v0 + d) # trajectory (v0 + d) ds"

text \<open>
  The order of calls that the specification asks of every step: between one time request
  and the next, subscriptions are read only after the grant and before any publication,
  the solver runs after a read, and nothing is published before a read. Before the first
  time request a federate may publish (its initial outputs) but not read.
\<close>

datatype phase = Outside | Granted | Reading | Publishing

fun next_phase :: "phase \<Rightarrow> event \<Rightarrow> phase option" where
  "next_phase p (RequestTime t g) = Some Granted"
| "next_phase p (GetValue k v) = (if p = Granted \<or> p = Reading then Some Reading else None)"
| "next_phase p (Execute a v s v') = (if p = Reading then Some Reading else None)"
| "next_phase p (Publish k v) =
     (if p = Outside then Some Outside
      else if p = Reading \<or> p = Publishing then Some Publishing else None)"
| "next_phase p ev = Some p"

fun run_phase :: "phase \<Rightarrow> event list \<Rightarrow> phase option" where
  "run_phase p [] = Some p"
| "run_phase p (ev # es) = (case next_phase p ev of None \<Rightarrow> None | Some q \<Rightarrow> run_phase q es)"

definition causal :: "event list \<Rightarrow> bool" where
  "causal tr = (run_phase Outside tr \<noteq> None)"

text \<open>The calls of one pass of the simple-cosim loop, described directly: a request
  for time \<open>t + 1\<close>, one read, and three publications scaled by 1.1, 1.2 and 1.3 in
  both components.\<close>

definition iteration_events :: "nat \<Rightarrow> real \<times> complex \<Rightarrow> event list" where
  "iteration_events t r =
     [RequestTime (real t + 1) (fst r),
      GetValue ''load_meter/current'' (Cplx (snd r)),
      Publish ''gridpack/voltage_A'' (Cplx (Complex (1.1 * Re (snd r)) (1.1 * Im (snd r)))),
      Publish ''gridpack/voltage_B'' (Cplx (Complex (1.2 * Re (snd r)) (1.2 * Im (snd r)))),
      Publish ''gridpack/voltage_C'' (Cplx (Complex (1.3 * Re (snd r)) (1.3 * Im (snd r))))]"

section \<open>Stubs for concrete runs\<close>

text \<open>A stub substrate: it grants what is asked, delivers a fixed value on every
  subscription and never raises.\<close>

definition stub_sub :: "real \<Rightarrow> complex \<Rightarrow> substrate" where
  "stub_sub x z =
     \<lparr>grant = (\<lambda>h t. Inr t), double_in = (\<lambda>h k. Inr x), complex_in = (\<lambda>h k. Inr z),
      control = (\<lambda>h ev. None)\<rparr>"

text \<open>A substrate that grants a time \<open>d\<close> earlier than the one asked.\<close>

definition early_sub :: "real \<Rightarrow> real \<Rightarrow> substrate" where
  "early_sub d x =
     \<lparr>grant = (\<lambda>h t. Inr (t - d)), double_in = (\<lambda>h k. Inr x), complex_in = (\<lambda>h k. Inr 0),
      control = (\<lambda>h ev. None)\<rparr>"

text \<open>A substrate whose first grant is half a second short and whose later grants are
  what is asked.\<close>

definition late_sub :: substrate where
  "late_sub =
     \<lparr>grant = (\<lambda>h t. Inr (if requests h = [] then t - 1 / 2 else t)),
      double_in = (\<lambda>h k. Inr 0), complex_in = (\<lambda>h k. Inr 0), control = (\<lambda>h ev. None)\<rparr>"


text \<open>A substrate that grants the first time request and raises in every later one.\<close>

definition faulty_sub :: "exn \<Rightarrow> substrate" where
  "faulty_sub e =
     \<lparr>grant = (\<lambda>h t. if requests h = [] then Inr t else Inl e),
      double_in = (\<lambda>h k. Inr 1), complex_in = (\<lambda>h k. Inr 1), control = (\<lambda>h ev. None)\<rparr>"

text \<open>A substrate that delivers a different power on each phase.\<close>

definition phase_sub :: substrate where
  "phase_sub =
     \<lparr>grant = (\<lambda>h t. Inr t), double_in = (\<lambda>h k. Inr 0),
      complex_in = (\<lambda>h k. Inr (if k = ''gld_hlc_conn/Sa'' then 100000000
                                 else if k = ''gld_hlc_conn/Sb'' then 200000000
                                 else 300000000)),
      control = (\<lambda>h ev. None)\<rparr>"

text \<open>Stub solvers: one always converges to the same voltage, one to the power it is
  given, and one raises instead of converging.\<close>

definition const_solver :: "complex \<Rightarrow> solver" where
  "const_solver v' = (\<lambda>h a v s. Inr v')"

definition echo_solver :: solver where
  "echo_solver = (\<lambda>h a v s. Inr s)"


text \<open>A substrate that answers the time requests from a list, one grant for each
  request in order (and grants what is asked once the list is used up), and delivers a
  fixed value on every subscription.\<close>

definition scripted_sub :: "real list \<Rightarrow> real \<Rightarrow> complex \<Rightarrow> substrate" where
  "scripted_sub gs x z =
     \<lparr>grant = (\<lambda>h t. Inr (if length (requests h) < length gs then gs ! length (requests h)
                            else t)),
      double_in = (\<lambda>h k. Inr x), complex_in = (\<lambda>h k. Inr z), control = (\<lambda>h ev. None)\<rparr>"

text \<open>A substrate that grants the time \<open>g\<close> whatever time is asked and delivers \<open>z\<close> on
  every complex subscription.\<close>

definition stalled_sub :: "real \<Rightarrow> complex \<Rightarrow> substrate" where
  "stalled_sub g z =
     \<lparr>grant = (\<lambda>h t. Inr g), double_in = (\<lambda>h k. Inr 0), complex_in = (\<lambda>h k. Inr z),
      control = (\<lambda>h ev. None)\<rparr>"

section \<open>Facts about the loop bodies\<close>

lemmas act_defs = bnd_def ret_def call_def requestTime_def getDouble_def getComplex_def
  publish_def execute_def

lemma capacitor_body_Inr:
  assumes "capacitor_body sub s tr = (Inr s', tr')"
  shows "\<exists>g x. grant sub tr (grantedtime s + period s) = Inr g
      \<and> double_in sub (tr @ [RequestTime (grantedtime s + period s) g]) ''Inductor/Il'' = Inr x
      \<and> s' = s\<lparr>grantedtime := g, inductor_current := x,
               delta_v := (- 1 / c_value s) * x * period s,
               time_sim := time_sim s @ [g],
               voltage := voltage s @ [last (voltage s) + (- 1 / c_value s) * x * period s]\<rparr>
      \<and> tr' = tr @ [RequestTime (grantedtime s + period s) g, GetValue ''Inductor/Il'' (Dbl x),
                    Publish ''Vc'' (Dbl (last (voltage s) + (- 1 / c_value s) * x * period s))]"
  using assms
  by (auto simp: capacitor_body_def act_defs Let_def split: sum.splits option.splits)

lemma inductor_body_Inr:
  assumes "inductor_body sub s tr = (Inr s', tr')"
  shows "\<exists>g x. grant sub tr (grantedtime s + period s) = Inr g
      \<and> double_in sub (tr @ [RequestTime (grantedtime s + period s) g]) ''Capacitor/Vc'' = Inr x
      \<and> s' = s\<lparr>grantedtime := g, capacitor_voltage := x,
               delta_i := (1 / l_value s) * x * period s,
               time_sim := time_sim s @ [g],
               current := current s @ [last (current s) + (1 / l_value s) * x * period s]\<rparr>
      \<and> tr' = tr @ [RequestTime (grantedtime s + period s) g, GetValue ''Capacitor/Vc'' (Dbl x),
                    Publish ''Il'' (Dbl (last (current s) + (1 / l_value s) * x * period s))]"
  using assms
  by (auto simp: inductor_body_def act_defs Let_def split: sum.splits option.splits)

lemma pf_body_Inr:
  assumes "pf_body sub app s tr = (Inr s', tr')"
  shows "\<exists>g z v. s' = s\<lparr>grantedtime := g, Sa := z / 1000000, voltage_pf := v\<rparr>
      \<and> tr' = tr @ [RequestTime (grantedtime s + period s) g,
                    GetValue ''gpk_gld_right_fed/sa'' (Cplx z),
                    Execute ''app'' (voltage_pf s) (z / 1000000) v,
                    Publish ''Vc'' (Cplx (v * 69000))]"
  using assms
  by (auto simp: pf_body_def act_defs Let_def split: sum.splits option.splits)


lemma capacitor_body_ok:
  assumes "grant sub tr (grantedtime s + period s) = Inr g"
    and "double_in sub (tr @ [RequestTime (grantedtime s + period s) g]) ''Inductor/Il'' = Inr x"
    and "control sub (tr @ [RequestTime (grantedtime s + period s) g,
                            GetValue ''Inductor/Il'' (Dbl x)])
           (Publish ''Vc'' (Dbl (last (voltage s) + (- 1 / c_value s) * x * period s))) = None"
  shows "capacitor_body sub s tr =
     (Inr (s\<lparr>grantedtime := g, inductor_current := x,
               delta_v := (- 1 / c_value s) * x * period s,
               time_sim := time_sim s @ [g],
               voltage := voltage s @ [last (voltage s) + (- 1 / c_value s) * x * period s]\<rparr>),
      tr @ [RequestTime (grantedtime s + period s) g, GetValue ''Inductor/Il'' (Dbl x),
            Publish ''Vc'' (Dbl (last (voltage s) + (- 1 / c_value s) * x * period s))])"
  using assms by (simp add: capacitor_body_def act_defs Let_def)

lemma inductor_body_ok:
  assumes "grant sub tr (grantedtime s + period s) = Inr g"
    and "double_in sub (tr @ [RequestTime (grantedtime s + period s) g]) ''Capacitor/Vc'' = Inr x"
    and "control sub (tr @ [RequestTime (grantedtime s + period s) g,
                            GetValue ''Capacitor/Vc'' (Dbl x)])
           (Publish ''Il'' (Dbl (last (current s) + (1 / l_value s) * x * period s))) = None"
  shows "inductor_body sub s tr =
     (Inr (s\<lparr>grantedtime := g, capacitor_voltage := x,
               delta_i := (1 / l_value s) * x * period s,
               time_sim := time_sim s @ [g],
               current := current s @ [last (current s) + (1 / l_value s) * x * period s]\<rparr>),
      tr @ [RequestTime (grantedtime s + period s) g, GetValue ''Capacitor/Vc'' (Dbl x),
            Publish ''Il'' (Dbl (last (current s) + (1 / l_value s) * x * period s))])"
  using assms by (simp add: inductor_body_def act_defs Let_def)

lemma pf_body_calls:
  assumes "pf_body sub app s tr = (Inr s', tr')"
  shows "\<exists>g z v. grant sub tr (grantedtime s + period s) = Inr g
      \<and> complex_in sub (tr @ [RequestTime (grantedtime s + period s) g])
           ''gpk_gld_right_fed/sa'' = Inr z
      \<and> app (tr @ [RequestTime (grantedtime s + period s) g,
                    GetValue ''gpk_gld_right_fed/sa'' (Cplx z)])
           ''app'' (voltage_pf s) (z / 1000000) = Inr v
      \<and> s' = s\<lparr>grantedtime := g, Sa := z / 1000000, voltage_pf := v\<rparr>
      \<and> tr' = tr @ [RequestTime (grantedtime s + period s) g,
                    GetValue ''gpk_gld_right_fed/sa'' (Cplx z),
                    Execute ''app'' (voltage_pf s) (z / 1000000) v,
                    Publish ''Vc'' (Cplx (v * 69000))]"
  using assms
  by (auto simp: pf_body_def act_defs Let_def split: sum.splits option.splits)

lemma pf_body_ok:
  assumes "grant sub tr (grantedtime s + period s) = Inr g"
    and "complex_in sub (tr @ [RequestTime (grantedtime s + period s) g])
           ''gpk_gld_right_fed/sa'' = Inr z"
    and "app (tr @ [RequestTime (grantedtime s + period s) g,
                    GetValue ''gpk_gld_right_fed/sa'' (Cplx z)])
           ''app'' (voltage_pf s) (z / 1000000) = Inr v"
    and "control sub (tr @ [RequestTime (grantedtime s + period s) g,
                            GetValue ''gpk_gld_right_fed/sa'' (Cplx z),
                            Execute ''app'' (voltage_pf s) (z / 1000000) v])
           (Publish ''Vc'' (Cplx (v * 69000))) = None"
  shows "pf_body sub app s tr =
     (Inr (s\<lparr>grantedtime := g, Sa := z / 1000000, voltage_pf := v\<rparr>),
      tr @ [RequestTime (grantedtime s + period s) g,
            GetValue ''gpk_gld_right_fed/sa'' (Cplx z),
            Execute ''app'' (voltage_pf s) (z / 1000000) v,
            Publish ''Vc'' (Cplx (v * 69000))])"
  using assms by (simp add: pf_body_def act_defs Let_def)

lemma bus13_body_calls:
  assumes "bus13_body sub app s tr = (Inr s', tr')"
  shows "\<exists>g za zb zc va vb vc.
        grant sub tr (grantedtime s + period s) = Inr g
      \<and> complex_in sub (tr @ [RequestTime (grantedtime s + period s) g])
           ''gld_hlc_conn/Sa'' = Inr za
      \<and> complex_in sub (tr @ [RequestTime (grantedtime s + period s) g,
                               GetValue ''gld_hlc_conn/Sa'' (Cplx za)])
           ''gld_hlc_conn/Sb'' = Inr zb
      \<and> complex_in sub (tr @ [RequestTime (grantedtime s + period s) g,
                               GetValue ''gld_hlc_conn/Sa'' (Cplx za),
                               GetValue ''gld_hlc_conn/Sb'' (Cplx zb)])
           ''gld_hlc_conn/Sc'' = Inr zc
      \<and> app (tr @ [RequestTime (grantedtime s + period s) g,
                    GetValue ''gld_hlc_conn/Sa'' (Cplx za),
                    GetValue ''gld_hlc_conn/Sb'' (Cplx zb),
                    GetValue ''gld_hlc_conn/Sc'' (Cplx zc)])
           ''app_A'' (Va s) (za / 100000000) = Inr va
      \<and> app (tr @ [RequestTime (grantedtime s + period s) g,
                    GetValue ''gld_hlc_conn/Sa'' (Cplx za),
                    GetValue ''gld_hlc_conn/Sb'' (Cplx zb),
                    GetValue ''gld_hlc_conn/Sc'' (Cplx zc),
                    Execute ''app_A'' (Va s) (za / 100000000) va])
           ''app_B'' (Vb s) (zb / 100000000) = Inr vb
      \<and> app (tr @ [RequestTime (grantedtime s + period s) g,
                    GetValue ''gld_hlc_conn/Sa'' (Cplx za),
                    GetValue ''gld_hlc_conn/Sb'' (Cplx zb),
                    GetValue ''gld_hlc_conn/Sc'' (Cplx zc),
                    Execute ''app_A'' (Va s) (za / 100000000) va,
                    Execute ''app_B'' (Vb s) (zb / 100000000) vb])
           ''app_C'' (Vc s) (zc / 100000000) = Inr vc
      \<and> tr' = tr @ [RequestTime (grantedtime s + period s) g,
                    GetValue ''gld_hlc_conn/Sa'' (Cplx za),
                    GetValue ''gld_hlc_conn/Sb'' (Cplx zb),
                    GetValue ''gld_hlc_conn/Sc'' (Cplx zc),
                    Execute ''app_A'' (Va s) (za / 100000000) va,
                    Execute ''app_B'' (Vb s) (zb / 100000000) vb,
                    Execute ''app_C'' (Vc s) (zc / 100000000) vc,
                    Publish ''Va'' (Cplx (va * 2400)),
                    Publish ''Vb'' (Cplx (vb * r120 s * 2400)),
                    Publish ''Vc'' (Cplx (vc * r120 s * r120 s * 2400))]"
  using assms
  by (auto simp: bus13_body_def act_defs Let_def split: sum.splits option.splits)

lemma gridpack_step_calls:
  assumes "gridpack_step sub t tr = (Inr u, tr')" and "0 \<le> t"
  shows "\<exists>g z. grant sub tr (real (nat t) + 1) = Inr g
      \<and> complex_in sub (tr @ [RequestTime (real (nat t) + 1) g]) ''load_meter/current'' = Inr z
      \<and> tr' = tr @ iteration_events (nat t) (g, z)"
  using assms
  by (auto simp: gridpack_step_def act_defs Let_def iteration_events_def mult.commute
      split: sum.splits option.splits)

section \<open>Facts about loops and traces\<close>

text \<open>An invariant of the loop body holds when the loop ends; when a call raises, it
  held before the pass that raised.\<close>

lemma while_fuel_rule:
  assumes "while_fuel n c b s tr = Some (r, tr')"
    and "I s tr"
    and "\<And>s tr s' tr'. I s tr \<Longrightarrow> c s \<Longrightarrow> b s tr = (Inr s', tr') \<Longrightarrow> I s' tr'"
  shows "(\<forall>s'. r = Inr s' \<longrightarrow> I s' tr' \<and> \<not> c s')
       \<and> (\<forall>e. r = Inl e \<longrightarrow> (\<exists>s1 tr1. I s1 tr1 \<and> c s1 \<and> b s1 tr1 = (Inl e, tr')))"
  using assms(1,2)
proof (induction n arbitrary: s tr)
  case 0
  then show ?case by (auto split: if_splits)
next
  case (Suc n)
  show ?case
  proof (cases "c s")
    case False
    with Suc.prems show ?thesis by auto
  next
    case True
    show ?thesis
    proof (cases "b s tr")
      case (Pair r1 tr1)
      show ?thesis
      proof (cases r1)
        case (Inl e)
        with Pair True Suc.prems show ?thesis by auto
      next
        case (Inr s1)
        with Pair True Suc.prems have run: "while_fuel n c b s1 tr1 = Some (r, tr')" by simp
        from assms(3) [OF Suc.prems(2) True] Pair Inr have "I s1 tr1" by simp
        from Suc.IH [OF run this] show ?thesis .
      qed
    qed
  qed
qed

lemma while_fuel_Inr:
  assumes "while_fuel n c b s tr = Some (Inr s', tr')"
    and "I s tr"
    and "\<And>s tr s' tr'. I s tr \<Longrightarrow> c s \<Longrightarrow> b s tr = (Inr s', tr') \<Longrightarrow> I s' tr'"
  shows "I s' tr' \<and> \<not> c s'"
  using while_fuel_rule [of n c b s tr "Inr s'" tr' I] assms by blast

lemma while_fuel_Inl:
  assumes "while_fuel n c b s tr = Some (Inl e, tr')"
    and "I s tr"
    and "\<And>s tr s' tr'. I s tr \<Longrightarrow> c s \<Longrightarrow> b s tr = (Inr s', tr') \<Longrightarrow> I s' tr'"
  shows "\<exists>s1 tr1. I s1 tr1 \<and> c s1 \<and> b s1 tr1 = (Inl e, tr')"
  using while_fuel_rule [of n c b s tr "Inl e" tr' I] assms by blast

text \<open>More fuel does not change the result of a loop that has ended.\<close>

lemma while_fuel_mono:
  "while_fuel n c b s tr = Some r \<Longrightarrow> while_fuel (n + k) c b s tr = Some r"
proof (induction n arbitrary: s tr)
  case 0
  then show ?case by (cases k) (auto split: if_splits)
next
  case (Suc n)
  then show ?case
    by (auto split: if_splits prod.splits sum.splits)
qed

lemma reads_append: "reads (xs @ ys) = reads xs @ reads ys"
  by (induction xs rule: reads.induct) simp_all

lemma requests_append: "requests (xs @ ys) = requests xs @ requests ys"
  by (induction xs rule: requests.induct) simp_all

lemma grants_append: "grants (xs @ ys) = grants xs @ grants ys"
  by (simp add: grants_def requests_append)

lemma requests_concat: "requests (concat xss) = concat (map requests xss)"
  by (induction xss) (simp_all add: requests_append)

lemma requests_iteration_events: "requests (iteration_events t r) = [(real t + 1, fst r)]"
  by (simp add: iteration_events_def)

lemma trajectory_snoc:
  "trajectory v (ds @ [d]) = trajectory v ds @ [last (v # trajectory v ds) + d]"
  by (induction ds arbitrary: v) simp_all

lemma last_append_cons: "xs \<noteq> [] \<Longrightarrow> last (xs @ ys) = last (last xs # ys)"
  by (cases ys) simp_all

lemma map_butlast_last: "xs \<noteq> [] \<Longrightarrow> map f xs = map f (butlast xs) @ [f (last xs)]"
  by (induction xs) auto

lemma upt_0_Suc_shift: "[0..<Suc m] = 0 # map Suc [0..<m]"
  by (simp add: upt_conv_Cons map_Suc_upt del: upt_Suc)

lemma clock_loop:
  fixes b :: "'a clock_scheme \<Rightarrow> 'a clock_scheme act"
  assumes body: "\<And>s1 tr1 s2 tr2. b s1 tr1 = (Inr s2, tr2) \<Longrightarrow>
      \<exists>es. tr2 = tr1 @ es \<and> requests es = [(grantedtime s1 + period s1, grantedtime s2)]
        \<and> period s2 = period s1 \<and> total_interval s2 = total_interval s1"
    and run: "while_fuel n (\<lambda>s. grantedtime s < total_interval s) b s tr = Some (Inr s', tr')"
  shows "\<exists>es. tr' = tr @ es
     \<and> map fst (requests es) = map (\<lambda>c. c + period s) (butlast (grantedtime s # grants es))
     \<and> grantedtime s' = last (grantedtime s # grants es)
     \<and> (\<forall>c \<in> set (butlast (grantedtime s # grants es)). c < total_interval s)
     \<and> total_interval s \<le> grantedtime s'"
proof -
  let ?I = "\<lambda>s1 tr1. \<exists>es. tr1 = tr @ es \<and> period s1 = period s
     \<and> total_interval s1 = total_interval s
     \<and> map fst (requests es) = map (\<lambda>c. c + period s) (butlast (grantedtime s # grants es))
     \<and> grantedtime s1 = last (grantedtime s # grants es)
     \<and> (\<forall>c \<in> set (butlast (grantedtime s # grants es)). c < total_interval s)"
  have init: "?I s tr" by (simp add: grants_def)
  have "?I s' tr' \<and> \<not> grantedtime s' < total_interval s'"
  proof (rule while_fuel_Inr [where I = ?I, OF run init])
    fix s1 tr1 s2 tr2
    assume inv: "?I s1 tr1" and c: "grantedtime s1 < total_interval s1"
      and b: "b s1 tr1 = (Inr s2, tr2)"
    from inv obtain es where es: "tr1 = tr @ es" "period s1 = period s"
      "total_interval s1 = total_interval s"
      "map fst (requests es) = map (\<lambda>c. c + period s) (butlast (grantedtime s # grants es))"
      "grantedtime s1 = last (grantedtime s # grants es)"
      "\<forall>c \<in> set (butlast (grantedtime s # grants es)). c < total_interval s"
      by blast
    from body [OF b] obtain es' where
      st: "tr2 = tr1 @ es'" "requests es' = [(grantedtime s1 + period s1, grantedtime s2)]"
        "period s2 = period s1" "total_interval s2 = total_interval s1"
      by blast
    have rq: "requests (es @ es') = requests es @ [(grantedtime s1 + period s, grantedtime s2)]"
      using st(2) es(2) by (simp add: requests_append)
    have gr: "grants (es @ es') = grants es @ [grantedtime s2]"
      using rq by (simp add: grants_def)
    have bl: "butlast (grantedtime s # grants (es @ es')) = grantedtime s # grants es"
      using gr butlast_snoc [of "grantedtime s # grants es" "grantedtime s2"] by simp
    have sp: "grantedtime s # grants es
        = butlast (grantedtime s # grants es) @ [grantedtime s1]"
      using es(5) append_butlast_last_id [of "grantedtime s # grants es"] by simp
    have "tr2 = tr @ (es @ es')" using st(1) es(1) by simp
    moreover have "period s2 = period s" "total_interval s2 = total_interval s"
      using st(3,4) es(2,3) by simp_all
    moreover have "map fst (requests (es @ es'))
        = map (\<lambda>c. c + period s) (butlast (grantedtime s # grants (es @ es')))"
      using es(4,5) map_butlast_last [of "grantedtime s # grants es" "\<lambda>c. c + period s"]
      by (simp only: rq bl) simp
    moreover have "grantedtime s2 = last (grantedtime s # grants (es @ es'))"
      using gr by simp
    moreover have "\<forall>c \<in> set (butlast (grantedtime s # grants (es @ es'))). c < total_interval s"
    proof
      fix c' assume "c' \<in> set (butlast (grantedtime s # grants (es @ es')))"
      then have "c' \<in> set (butlast (grantedtime s # grants es) @ [grantedtime s1])"
        using bl sp by simp
      then have "c' \<in> set (butlast (grantedtime s # grants es)) \<or> c' = grantedtime s1"
        by auto
      with es(6) c es(3) show "c' < total_interval s" by auto
    qed
    ultimately show "?I s2 tr2" by blast
  qed
  then show ?thesis by force
qed

lemma sorted_chain:
  fixes c0 :: real
  shows "\<forall>(c, g) \<in> set (zip (butlast (c0 # gs)) gs). c \<le> g \<Longrightarrow> sorted (c0 # gs)"
proof (induction gs arbitrary: c0)
  case Nil
  show ?case by simp
next
  case (Cons g gs)
  have z: "zip (butlast (c0 # g # gs)) (g # gs) = (c0, g) # zip (butlast (g # gs)) gs"
    by simp
  from Cons.prems have le: "c0 \<le> g"
    and rest: "\<forall>(c, g) \<in> set (zip (butlast (g # gs)) gs). c \<le> g"
    unfolding z by simp_all
  from Cons.IH [OF rest] le show ?case
    by (simp only: sorted2)
qed

lemma run_phase_append:
  "run_phase p (xs @ ys) = (case run_phase p xs of None \<Rightarrow> None | Some q \<Rightarrow> run_phase q ys)"
  by (induction xs arbitrary: p) (auto split: option.splits)


section \<open>Concrete runs\<close>

lemma capacitor_stub_step:
  "capacitor_body (stub_sub 1 0) capacitor_init [] =
     (Inr (capacitor_init\<lparr>grantedtime := 1 / 10000, inductor_current := 1,
             delta_v := - (1 / 1590), time_sim := [0, 1 / 10000], voltage := [0, - (1 / 1590)]\<rparr>),
      [RequestTime (1 / 10000) (1 / 10000), GetValue ''Inductor/Il'' (Dbl 1),
       Publish ''Vc'' (Dbl (- (1 / 1590)))])"
  by (simp add: capacitor_body_def act_defs stub_sub_def capacitor_init_def Let_def)

lemma inductor_stub_step:
  "inductor_body (stub_sub 0 0) inductor_init [] =
     (Inr (inductor_init\<lparr>grantedtime := 1 / 10000, capacitor_voltage := 0,
             delta_i := 0, time_sim := [0, 1 / 10000], current := [1, 1]\<rparr>),
      [RequestTime (1 / 10000) (1 / 10000), GetValue ''Capacitor/Vc'' (Dbl 0),
       Publish ''Il'' (Dbl 1)])"
  by (simp add: inductor_body_def act_defs stub_sub_def inductor_init_def Let_def)

lemma capacitor_short_step:
  "capacitor_body (early_sub (1 / 20000) 1) capacitor_init [] =
     (Inr (capacitor_init\<lparr>grantedtime := 1 / 20000, inductor_current := 1,
             delta_v := - (1 / 1590), time_sim := [0, 1 / 20000], voltage := [0, - (1 / 1590)]\<rparr>),
      [RequestTime (1 / 10000) (1 / 20000), GetValue ''Inductor/Il'' (Dbl 1),
       Publish ''Vc'' (Dbl (- (1 / 1590)))])"
  by (simp add: capacitor_body_def act_defs early_sub_def capacitor_init_def Let_def)

lemma inductor_short_step:
  "inductor_body (early_sub (1 / 20000) 1) inductor_init [] =
     (Inr (inductor_init\<lparr>grantedtime := 1 / 20000, capacitor_voltage := 1,
             delta_i := 1 / 1590, time_sim := [0, 1 / 20000], current := [1, 1591 / 1590]\<rparr>),
      [RequestTime (1 / 10000) (1 / 20000), GetValue ''Capacitor/Vc'' (Dbl 1),
       Publish ''Il'' (Dbl (1591 / 1590))])"
  by (simp add: inductor_body_def act_defs early_sub_def inductor_init_def Let_def)

lemma capacitor_stall_step:
  "capacitor_body (early_sub (1 / 10000) 1) capacitor_init [] =
     (Inr (capacitor_init\<lparr>inductor_current := 1, delta_v := - (1 / 1590),
             time_sim := [0, 0], voltage := [0, - (1 / 1590)]\<rparr>),
      [RequestTime (1 / 10000) 0, GetValue ''Inductor/Il'' (Dbl 1),
       Publish ''Vc'' (Dbl (- (1 / 1590)))])"
  by (simp add: capacitor_body_def act_defs early_sub_def capacitor_init_def Let_def)

lemma capacitor_script_run:
  "\<exists>s' tr'.
     capacitor_loop 2 (scripted_sub [0, 1 / 10000] 1 0)
       (capacitor_init\<lparr>total_interval := 1 / 10000\<rparr>) [] = Some (Inr s', tr')
   \<and> requests tr' = [(1 / 10000, 0), (1 / 10000, 1 / 10000)]
   \<and> reads tr' = [1, 1]"
  by (simp add: capacitor_loop_def capacitor_body_def act_defs scripted_sub_def capacitor_init_def
      Let_def eval_nat_numeral)

lemma inductor_script_run:
  "\<exists>s' tr'.
     inductor_loop 2 (scripted_sub [0, 1 / 10000] 1 0)
       (inductor_init\<lparr>total_interval := 1 / 10000\<rparr>) [] = Some (Inr s', tr')
   \<and> requests tr' = [(1 / 10000, 0), (1 / 10000, 1 / 10000)]
   \<and> reads tr' = [1, 1]"
  by (simp add: inductor_loop_def inductor_body_def act_defs scripted_sub_def inductor_init_def
      Let_def eval_nat_numeral)

lemma pf_late_step:
  "pf_body late_sub (const_solver 1) pf_init [] =
     (Inr (pf_init\<lparr>grantedtime := 1 / 2, Sa := 0, voltage_pf := 1\<rparr>),
      [RequestTime 1 (1 / 2), GetValue ''gpk_gld_right_fed/sa'' (Cplx 0),
       Execute ''app'' (Complex 1 0) 0 1, Publish ''Vc'' (Cplx 69000)])"
  by (simp add: pf_body_def act_defs late_sub_def const_solver_def pf_init_def Let_def)

lemma pf_late_loop:
  "\<exists>p' tp'.
     pf_loop 11 late_sub (const_solver 1) pf_init [] = Some (Inr p', tp')
   \<and> requests tp' =
       [(1, 1 / 2), (3 / 2, 3 / 2), (5 / 2, 5 / 2), (7 / 2, 7 / 2), (9 / 2, 9 / 2),
        (11 / 2, 11 / 2), (13 / 2, 13 / 2), (15 / 2, 15 / 2), (17 / 2, 17 / 2),
        (19 / 2, 19 / 2), (21 / 2, 21 / 2)]"
  by (simp add: pf_loop_def pf_body_def act_defs late_sub_def const_solver_def pf_init_def
      Let_def eval_nat_numeral)

lemma pf_late_run:
  "map_option (map_prod (map_sum id grantedtime) requests)
     (pf_loop 11 late_sub (const_solver 1) pf_init []) =
   Some (Inr (21 / 2),
     [(1, 1 / 2), (3 / 2, 3 / 2), (5 / 2, 5 / 2), (7 / 2, 7 / 2), (9 / 2, 9 / 2),
      (11 / 2, 11 / 2), (13 / 2, 13 / 2), (15 / 2, 15 / 2), (17 / 2, 17 / 2),
      (19 / 2, 19 / 2), (21 / 2, 21 / 2)])"
  by (simp add: pf_loop_def pf_body_def act_defs late_sub_def const_solver_def pf_init_def
      Let_def eval_nat_numeral)

lemma bus13_phase_step:
  "bus13_body phase_sub echo_solver bus13_init [] =
     (Inr (bus13_init\<lparr>grantedtime := 1, Sa := Complex 1 0, Sb := Complex 2 0, Sc := Complex 3 0,
             Va := Complex 1 0, Vb := Complex (- 1) (- 1.73205),
             Vc := Complex (- (2399996643 / 1600000000)) 2.598075\<rparr>),
      [RequestTime 1 1,
       GetValue ''gld_hlc_conn/Sa'' (Cplx (Complex 100000000 0)),
       GetValue ''gld_hlc_conn/Sb'' (Cplx (Complex 200000000 0)),
       GetValue ''gld_hlc_conn/Sc'' (Cplx (Complex 300000000 0)),
       Execute ''app_A'' (Complex 1 0) (Complex 1 0) (Complex 1 0),
       Execute ''app_B'' (Complex (- 0.5) (- 0.866025)) (Complex 2 0) (Complex 2 0),
       Execute ''app_C'' (Complex (- 0.5) 0.866025) (Complex 3 0) (Complex 3 0),
       Publish ''Va'' (Cplx (Complex 2400 0)),
       Publish ''Vb'' (Cplx (Complex (- 2400) (- 4156.92))),
       Publish ''Vc'' (Cplx (Complex (- (7199989929 / 2000000)) 6235.38))])"
  by (simp add: bus13_body_def act_defs phase_sub_def echo_solver_def bus13_init_def Let_def
      complex_eq_iff)

lemma lc_faulty_mains:
  "map_option fst (capacitor_main 2 (faulty_sub (HelicsException ''peer left'')))
     = Some (Uncaught (HelicsException ''peer left''))"
  "map_option fst (inductor_main 2 (faulty_sub (HelicsException ''peer left'')))
     = Some (Uncaught (HelicsException ''peer left''))"
  by (simp_all add: capacitor_main_def capacitor_loop_def capacitor_body_def capacitor_init_def
      inductor_main_def inductor_loop_def inductor_body_def inductor_init_def
      act_defs faulty_sub_def Let_def eval_nat_numeral)


lemma gpk_stub_mains:
  "map_option fst (pf_main 10 (stub_sub 0 (Complex 5000000 0)) (const_solver (Complex 1.02 0)))
     = Some (Returned 0)"
  "map_option fst (bus13_main 10 (stub_sub 0 (Complex 100000000 0)) (const_solver 1))
     = Some (Returned 0)"
  by (simp_all add: pf_main_def pf_loop_def pf_body_def pf_init_def
      bus13_main_def bus13_loop_def bus13_body_def bus13_init_def
      act_defs stub_sub_def const_solver_def Let_def eval_nat_numeral)



lemma gridpack_stalled_for:
  "fst (gridpack_for (stalled_sub (1 / 2) (Complex 1 2)) 0 []) = Inr ()"
  by (simp add: gridpack_for.simps gridpack_step_def act_defs stalled_sub_def Let_def)


section \<open>The trajectory of the integration federates\<close>

lemma euler_loop:
  assumes body: "\<And>s1 tr1 s2 tr2. b s1 tr1 = (Inr s2, tr2) \<Longrightarrow>
      \<exists>es x g. tr2 = tr1 @ es \<and> reads es = [x] \<and> grants es = [g]
        \<and> vec s2 = vec s1 @ [last (vec s1) + inc s1 x] \<and> ts s2 = ts s1 @ [g] \<and> inc s2 = inc s1"
    and run: "while_fuel n c b s tr = Some (Inr s', tr')"
    and ne: "vec s \<noteq> []"
  shows "\<exists>es. tr' = tr @ es
     \<and> vec s' = vec s @ trajectory (last (vec s)) (map (inc s) (reads es))
     \<and> ts s' = ts s @ grants es"
proof -
  let ?I = "\<lambda>s1 tr1. \<exists>es. tr1 = tr @ es \<and> inc s1 = inc s
     \<and> vec s1 = vec s @ trajectory (last (vec s)) (map (inc s) (reads es))
     \<and> ts s1 = ts s @ grants es"
  have init: "?I s tr" by (simp add: grants_def)
  have "?I s' tr' \<and> \<not> c s'"
  proof (rule while_fuel_Inr [where I = ?I, OF run init])
    fix s1 tr1 s2 tr2
    assume inv: "?I s1 tr1" and b: "b s1 tr1 = (Inr s2, tr2)"
    from inv obtain es where es: "tr1 = tr @ es" "inc s1 = inc s"
      "vec s1 = vec s @ trajectory (last (vec s)) (map (inc s) (reads es))"
      "ts s1 = ts s @ grants es"
      by blast
    from body [OF b] obtain es' x g where
      st: "tr2 = tr1 @ es'" "reads es' = [x]" "grants es' = [g]"
        "vec s2 = vec s1 @ [last (vec s1) + inc s1 x]" "ts s2 = ts s1 @ [g]" "inc s2 = inc s1"
      by blast
    have l: "last (vec s1)
        = last (last (vec s) # trajectory (last (vec s)) (map (inc s) (reads es)))"
      using es(3) last_append_cons [OF ne] by simp
    have "tr2 = tr @ (es @ es')" using st(1) es(1) by simp
    moreover have "inc s2 = inc s" using st(6) es(2) by simp
    moreover have "vec s2 = vec s @ trajectory (last (vec s)) (map (inc s) (reads (es @ es')))"
      using st(2,4) es(2,3) l by (simp add: reads_append trajectory_snoc)
    moreover have "ts s2 = ts s @ grants (es @ es')"
      using st(3,5) es(4) by (simp add: grants_append)
    ultimately show "?I s2 tr2" by blast
  qed
  then show ?thesis by blast
qed

lemma capacitor_loop_trajectory:
  assumes run: "capacitor_loop n sub s tr = Some (Inr s', tr')" and ne: "voltage s \<noteq> []"
  shows "\<exists>es. tr' = tr @ es
     \<and> voltage s' = voltage s @ trajectory (last (voltage s))
          (map (\<lambda>x. (- 1 / c_value s) * x * period s) (reads es))
     \<and> time_sim s' = time_sim s @ grants es"
proof (rule euler_loop [where vec = voltage and ts = time_sim
      and inc = "\<lambda>s x. (- 1 / c_value s) * x * period s",
      OF _ run [unfolded capacitor_loop_def] ne])
  fix s1 tr1 s2 tr2
  assume "capacitor_body sub s1 tr1 = (Inr s2, tr2)"
  from capacitor_body_Inr [OF this]
  show "\<exists>es x g. tr2 = tr1 @ es \<and> reads es = [x] \<and> grants es = [g]
        \<and> voltage s2 = voltage s1 @ [last (voltage s1) + (- 1 / c_value s1) * x * period s1]
        \<and> time_sim s2 = time_sim s1 @ [g]
        \<and> (\<lambda>x. (- 1 / c_value s2) * x * period s2) = (\<lambda>x. (- 1 / c_value s1) * x * period s1)"
    by (fastforce simp: grants_def)
qed

lemma inductor_loop_trajectory:
  assumes run: "inductor_loop n sub s tr = Some (Inr s', tr')" and ne: "current s \<noteq> []"
  shows "\<exists>es. tr' = tr @ es
     \<and> current s' = current s @ trajectory (last (current s))
          (map (\<lambda>x. (1 / l_value s) * x * period s) (reads es))
     \<and> time_sim s' = time_sim s @ grants es"
proof (rule euler_loop [where vec = current and ts = time_sim
      and inc = "\<lambda>s x. (1 / l_value s) * x * period s",
      OF _ run [unfolded inductor_loop_def] ne])
  fix s1 tr1 s2 tr2
  assume "inductor_body sub s1 tr1 = (Inr s2, tr2)"
  from inductor_body_Inr [OF this]
  show "\<exists>es x g. tr2 = tr1 @ es \<and> reads es = [x] \<and> grants es = [g]
        \<and> current s2 = current s1 @ [last (current s1) + (1 / l_value s1) * x * period s1]
        \<and> time_sim s2 = time_sim s1 @ [g]
        \<and> (\<lambda>x. (1 / l_value s2) * x * period s2) = (\<lambda>x. (1 / l_value s1) * x * period s1)"
    by (fastforce simp: grants_def)
qed

text \<open>
  C1, as the code has it. In one pass through the loop body of the capacitor federate
  that raises nothing, the substrate grants some time \<open>g\<close> to the request and delivers
  the inductor current \<open>x\<close>; the clock becomes \<open>g\<close> and \<open>g\<close> is recorded in
  \<open>time_sim\<close>, and the voltage appended is the previous one plus
  \<open>(-1/C) * x * period\<close>: the increment is computed with the nominal period as \<open>dt\<close>,
  whatever \<open>g\<close> is, and the pass changes neither \<open>period\<close> nor \<open>C\<close>. So in every run of
  the loop that ends normally the voltages recorded are the running sum, from the
  start voltage, of the increments \<open>(-1/C) * x\<^sub>i * period\<close> over the currents \<open>x\<^sub>i\<close>
  read, and the granted times are only recorded. The same holds for the inductor
  federate with \<open>(1/L) * x\<^sub>i * period\<close>.
\<close>

theorem nominal_period_trajectory:
  "(capacitor_body sub s tr = (Inr s1, tr1) \<and> voltage s \<noteq> [] \<longrightarrow>
      (\<exists>g x. grant sub tr (grantedtime s + period s) = Inr g
         \<and> double_in sub (tr @ [RequestTime (grantedtime s + period s) g]) ''Inductor/Il''
             = Inr x
         \<and> grantedtime s1 = g \<and> time_sim s1 = time_sim s @ [g]
         \<and> voltage s1
             = voltage s @ [advance_capacitor (last (voltage s)) x (period s) (c_value s)]
         \<and> period s1 = period s \<and> c_value s1 = c_value s))
   \<and> (capacitor_loop n sub s tr = Some (Inr s', tr') \<and> voltage s \<noteq> [] \<longrightarrow>
        voltage s' = voltage s @ trajectory (last (voltage s))
          (map (\<lambda>x. (- 1 / c_value s) * x * period s) (reads (drop (length tr) tr')))
      \<and> time_sim s' = time_sim s @ grants (drop (length tr) tr'))
   \<and> (inductor_body sub i ti = (Inr i1, ti1) \<and> current i \<noteq> [] \<longrightarrow>
      (\<exists>g x. grant sub ti (grantedtime i + period i) = Inr g
         \<and> double_in sub (ti @ [RequestTime (grantedtime i + period i) g]) ''Capacitor/Vc''
             = Inr x
         \<and> grantedtime i1 = g \<and> time_sim i1 = time_sim i @ [g]
         \<and> current i1
             = current i @ [advance_inductor (last (current i)) x (period i) (l_value i)]
         \<and> period i1 = period i \<and> l_value i1 = l_value i))
   \<and> (inductor_loop n sub i ti = Some (Inr i', ti') \<and> current i \<noteq> [] \<longrightarrow>
        current i' = current i @ trajectory (last (current i))
          (map (\<lambda>x. (1 / l_value i) * x * period i) (reads (drop (length ti) ti')))
      \<and> time_sim i' = time_sim i @ grants (drop (length ti) ti'))"
proof -
  have 1: "capacitor_body sub s tr = (Inr s1, tr1) \<and> voltage s \<noteq> [] \<longrightarrow>
      (\<exists>g x. grant sub tr (grantedtime s + period s) = Inr g
         \<and> double_in sub (tr @ [RequestTime (grantedtime s + period s) g]) ''Inductor/Il''
             = Inr x
         \<and> grantedtime s1 = g \<and> time_sim s1 = time_sim s @ [g]
         \<and> voltage s1
             = voltage s @ [advance_capacitor (last (voltage s)) x (period s) (c_value s)]
         \<and> period s1 = period s \<and> c_value s1 = c_value s)"
  proof
    assume a: "capacitor_body sub s tr = (Inr s1, tr1) \<and> voltage s \<noteq> []"
    from capacitor_body_Inr [OF a [THEN conjunct1]] obtain g x where
      g: "grant sub tr (grantedtime s + period s) = Inr g"
      and x: "double_in sub (tr @ [RequestTime (grantedtime s + period s) g]) ''Inductor/Il''
             = Inr x"
      and s1: "s1 = s\<lparr>grantedtime := g, inductor_current := x,
               delta_v := (- 1 / c_value s) * x * period s,
               time_sim := time_sim s @ [g],
               voltage := voltage s @ [last (voltage s) + (- 1 / c_value s) * x * period s]\<rparr>"
      by blast
    from s1 have "grantedtime s1 = g \<and> time_sim s1 = time_sim s @ [g]
         \<and> voltage s1
             = voltage s @ [advance_capacitor (last (voltage s)) x (period s) (c_value s)]
         \<and> period s1 = period s \<and> c_value s1 = c_value s"
      by (simp add: advance_capacitor_def)
    with g x show "\<exists>g x. grant sub tr (grantedtime s + period s) = Inr g
         \<and> double_in sub (tr @ [RequestTime (grantedtime s + period s) g]) ''Inductor/Il''
             = Inr x
         \<and> grantedtime s1 = g \<and> time_sim s1 = time_sim s @ [g]
         \<and> voltage s1
             = voltage s @ [advance_capacitor (last (voltage s)) x (period s) (c_value s)]
         \<and> period s1 = period s \<and> c_value s1 = c_value s"
      by blast
  qed
  have 2: "capacitor_loop n sub s tr = Some (Inr s', tr') \<and> voltage s \<noteq> [] \<longrightarrow>
        voltage s' = voltage s @ trajectory (last (voltage s))
          (map (\<lambda>x. (- 1 / c_value s) * x * period s) (reads (drop (length tr) tr')))
      \<and> time_sim s' = time_sim s @ grants (drop (length tr) tr')"
  proof
    assume a: "capacitor_loop n sub s tr = Some (Inr s', tr') \<and> voltage s \<noteq> []"
    from capacitor_loop_trajectory [OF a [THEN conjunct1] a [THEN conjunct2]]
    obtain es where tr': "tr' = tr @ es"
      and r: "voltage s' = voltage s @ trajectory (last (voltage s))
          (map (\<lambda>x. (- 1 / c_value s) * x * period s) (reads es))"
       "time_sim s' = time_sim s @ grants es"
      by blast
    from tr' have es: "drop (length tr) tr' = es" by simp
    show "voltage s' = voltage s @ trajectory (last (voltage s))
          (map (\<lambda>x. (- 1 / c_value s) * x * period s) (reads (drop (length tr) tr')))
      \<and> time_sim s' = time_sim s @ grants (drop (length tr) tr')"
      unfolding es using r by (rule conjI)
  qed
  have 3: "inductor_body sub i ti = (Inr i1, ti1) \<and> current i \<noteq> [] \<longrightarrow>
      (\<exists>g x. grant sub ti (grantedtime i + period i) = Inr g
         \<and> double_in sub (ti @ [RequestTime (grantedtime i + period i) g]) ''Capacitor/Vc''
             = Inr x
         \<and> grantedtime i1 = g \<and> time_sim i1 = time_sim i @ [g]
         \<and> current i1
             = current i @ [advance_inductor (last (current i)) x (period i) (l_value i)]
         \<and> period i1 = period i \<and> l_value i1 = l_value i)"
  proof
    assume a: "inductor_body sub i ti = (Inr i1, ti1) \<and> current i \<noteq> []"
    from inductor_body_Inr [OF a [THEN conjunct1]] obtain g x where
      g: "grant sub ti (grantedtime i + period i) = Inr g"
      and x: "double_in sub (ti @ [RequestTime (grantedtime i + period i) g]) ''Capacitor/Vc''
             = Inr x"
      and i1: "i1 = i\<lparr>grantedtime := g, capacitor_voltage := x,
               delta_i := (1 / l_value i) * x * period i,
               time_sim := time_sim i @ [g],
               current := current i @ [last (current i) + (1 / l_value i) * x * period i]\<rparr>"
      by blast
    from i1 have "grantedtime i1 = g \<and> time_sim i1 = time_sim i @ [g]
         \<and> current i1
             = current i @ [advance_inductor (last (current i)) x (period i) (l_value i)]
         \<and> period i1 = period i \<and> l_value i1 = l_value i"
      by (simp add: advance_inductor_def)
    with g x show "\<exists>g x. grant sub ti (grantedtime i + period i) = Inr g
         \<and> double_in sub (ti @ [RequestTime (grantedtime i + period i) g]) ''Capacitor/Vc''
             = Inr x
         \<and> grantedtime i1 = g \<and> time_sim i1 = time_sim i @ [g]
         \<and> current i1
             = current i @ [advance_inductor (last (current i)) x (period i) (l_value i)]
         \<and> period i1 = period i \<and> l_value i1 = l_value i"
      by blast
  qed
  have 4: "inductor_loop n sub i ti = Some (Inr i', ti') \<and> current i \<noteq> [] \<longrightarrow>
        current i' = current i @ trajectory (last (current i))
          (map (\<lambda>x. (1 / l_value i) * x * period i) (reads (drop (length ti) ti')))
      \<and> time_sim i' = time_sim i @ grants (drop (length ti) ti')"
  proof
    assume a: "inductor_loop n sub i ti = Some (Inr i', ti') \<and> current i \<noteq> []"
    from inductor_loop_trajectory [OF a [THEN conjunct1] a [THEN conjunct2]]
    obtain es where tr': "ti' = ti @ es"
      and r: "current i' = current i @ trajectory (last (current i))
          (map (\<lambda>x. (1 / l_value i) * x * period i) (reads es))"
       "time_sim i' = time_sim i @ grants es"
      by blast
    from tr' have es: "drop (length ti) ti' = es" by simp
    show "current i' = current i @ trajectory (last (current i))
          (map (\<lambda>x. (1 / l_value i) * x * period i) (reads (drop (length ti) ti')))
      \<and> time_sim i' = time_sim i @ grants (drop (length ti) ti')"
      unfolding es using r by (rule conjI)
  qed
  show ?thesis
    by (rule conjI [OF 1 conjI [OF 2 conjI [OF 3 4]]])
qed

theorem nominal_period_trajectory_witness:
  "\<exists>s1 tr1 s' tr' i1 ti1 i' ti'.
     capacitor_body (early_sub (1 / 20000) 1) capacitor_init [] = (Inr s1, tr1)
   \<and> voltage capacitor_init \<noteq> []
   \<and> grantedtime s1 = 1 / 20000 \<and> time_sim s1 = [0, 1 / 20000]
   \<and> voltage s1 = [0, 0 + (- 1 / 0.159) * 1 * (100 / 10 ^ 6)]
   \<and> capacitor_loop 2 (scripted_sub [0, 1 / 10000] 1 0)
        (capacitor_init\<lparr>total_interval := 1 / 10000\<rparr>) [] = Some (Inr s', tr')
   \<and> voltage (capacitor_init\<lparr>total_interval := 1 / 10000\<rparr>) \<noteq> []
   \<and> requests tr' = [(1 / 10000, 0), (1 / 10000, 1 / 10000)]
   \<and> voltage s' = [0, 0 + (- 1 / 0.159) * 1 * (100 / 10 ^ 6),
        0 + (- 1 / 0.159) * 1 * (100 / 10 ^ 6) + (- 1 / 0.159) * 1 * (100 / 10 ^ 6)]
   \<and> time_sim s' = [0, 0, 1 / 10000]
   \<and> inductor_body (early_sub (1 / 20000) 1) inductor_init [] = (Inr i1, ti1)
   \<and> current inductor_init \<noteq> []
   \<and> grantedtime i1 = 1 / 20000 \<and> time_sim i1 = [0, 1 / 20000]
   \<and> current i1 = [1, 1 + (1 / 0.159) * 1 * (100 / 10 ^ 6)]
   \<and> inductor_loop 2 (scripted_sub [0, 1 / 10000] 1 0)
        (inductor_init\<lparr>total_interval := 1 / 10000\<rparr>) [] = Some (Inr i', ti')
   \<and> current (inductor_init\<lparr>total_interval := 1 / 10000\<rparr>) \<noteq> []
   \<and> requests ti' = [(1 / 10000, 0), (1 / 10000, 1 / 10000)]
   \<and> current i' = [1, 1 + (1 / 0.159) * 1 * (100 / 10 ^ 6),
        1 + (1 / 0.159) * 1 * (100 / 10 ^ 6) + (1 / 0.159) * 1 * (100 / 10 ^ 6)]
   \<and> time_sim i' = [0, 0, 1 / 10000]"
proof -
  let ?c = "capacitor_init\<lparr>total_interval := 1 / 10000\<rparr>"
  let ?i = "inductor_init\<lparr>total_interval := 1 / 10000\<rparr>"
  have cpre: "voltage capacitor_init \<noteq> []" by (simp add: capacitor_init_def)
  have ipre: "current inductor_init \<noteq> []" by (simp add: inductor_init_def)
  have cpre2: "voltage ?c \<noteq> []" by (simp add: capacitor_init_def)
  have ipre2: "current ?i \<noteq> []" by (simp add: inductor_init_def)
  obtain s1 tr1 where c1: "capacitor_body (early_sub (1 / 20000) 1) capacitor_init [] = (Inr s1, tr1)"
    by (rule that [OF capacitor_short_step])
  obtain i1 ti1 where i1: "inductor_body (early_sub (1 / 20000) 1) inductor_init [] = (Inr i1, ti1)"
    by (rule that [OF inductor_short_step])
  from capacitor_script_run obtain s' tr' where
    c2: "capacitor_loop 2 (scripted_sub [0, 1 / 10000] 1 0) ?c [] = Some (Inr s', tr')"
    and ctr: "requests tr' = [(1 / 10000, 0), (1 / 10000, 1 / 10000)]"
      "reads tr' = [1, 1]"
    by blast
  from inductor_script_run obtain i' ti' where
    i2: "inductor_loop 2 (scripted_sub [0, 1 / 10000] 1 0) ?i [] = Some (Inr i', ti')"
    and itr: "requests ti' = [(1 / 10000, 0), (1 / 10000, 1 / 10000)]"
      "reads ti' = [1, 1]"
    by blast
  note npt = nominal_period_trajectory
  from npt [THEN conjunct1, THEN mp, OF conjI [OF c1 cpre]]
  have r1: "grantedtime s1 = 1 / 20000 \<and> time_sim s1 = [0, 1 / 20000]
      \<and> voltage s1 = [0, 0 + (- 1 / 0.159) * 1 * (100 / 10 ^ 6)]"
    by (auto simp: early_sub_def capacitor_init_def advance_capacitor_def)
  from npt [THEN conjunct2, THEN conjunct1, THEN mp, OF conjI [OF c2 cpre2]]
  have r2: "voltage s' = [0, 0 + (- 1 / 0.159) * 1 * (100 / 10 ^ 6),
        0 + (- 1 / 0.159) * 1 * (100 / 10 ^ 6) + (- 1 / 0.159) * 1 * (100 / 10 ^ 6)]
      \<and> time_sim s' = [0, 0, 1 / 10000]"
    by (simp add: ctr grants_def capacitor_init_def)
  from npt [THEN conjunct2, THEN conjunct2, THEN conjunct1, THEN mp, OF conjI [OF i1 ipre]]
  have r3: "grantedtime i1 = 1 / 20000 \<and> time_sim i1 = [0, 1 / 20000]
      \<and> current i1 = [1, 1 + (1 / 0.159) * 1 * (100 / 10 ^ 6)]"
    by (auto simp: early_sub_def inductor_init_def advance_inductor_def)
  from npt [THEN conjunct2, THEN conjunct2, THEN conjunct2, THEN mp, OF conjI [OF i2 ipre2]]
  have r4: "current i' = [1, 1 + (1 / 0.159) * 1 * (100 / 10 ^ 6),
        1 + (1 / 0.159) * 1 * (100 / 10 ^ 6) + (1 / 0.159) * 1 * (100 / 10 ^ 6)]
      \<and> time_sim i' = [0, 0, 1 / 10000]"
    by (simp add: itr grants_def inductor_init_def)
  show ?thesis
    apply (rule exI [of _ s1], rule exI [of _ tr1], rule exI [of _ s'], rule exI [of _ tr'])
    apply (rule exI [of _ i1], rule exI [of _ ti1], rule exI [of _ i'], rule exI [of _ ti'])
    using c1 cpre r1 c2 cpre2 ctr(1) r2 i1 ipre r3 i2 ipre2 itr(1) r4
    apply (intro conjI)
                        apply (elim conjE, assumption)+
    done
qed

text \<open>
  C1 as stated fails: from the initial variables of \<open>Capacitor.cpp\<close>, when the
  substrate grants \<open>50e-6\<close> for the request of \<open>100e-6\<close> and delivers the inductor
  current 1, the pass adds \<open>(-1/C) * 1 * period\<close>, which is not
  \<open>(-1/C) * 1 * (t' - previous_time)\<close>.
\<close>

theorem nominal_period_trajectory_counterexample:
  "capacitor_body (early_sub (1 / 20000) 1) capacitor_init [] =
     (Inr (capacitor_init\<lparr>grantedtime := 1 / 20000, inductor_current := 1,
             delta_v := - (1 / 1590), time_sim := [0, 1 / 20000], voltage := [0, - (1 / 1590)]\<rparr>),
      [RequestTime (1 / 10000) (1 / 20000), GetValue ''Inductor/Il'' (Dbl 1),
       Publish ''Vc'' (Dbl (- (1 / 1590)))])
   \<and> - (1 / 1590) \<noteq> advance_capacitor (last (voltage capacitor_init)) 1
         (1 / 20000 - grantedtime capacitor_init) (c_value capacitor_init)
   \<and> - (1 / 1590) = advance_capacitor (last (voltage capacitor_init)) 1
         (period capacitor_init) (c_value capacitor_init)"
proof (intro conjI)
  show "- (1 / 1590) \<noteq> advance_capacitor (last (voltage capacitor_init)) 1
         (1 / 20000 - grantedtime capacitor_init) (c_value capacitor_init)"
    by (simp add: advance_capacitor_def capacitor_init_def)
  show "- (1 / 1590) = advance_capacitor (last (voltage capacitor_init)) 1
         (period capacitor_init) (c_value capacitor_init)"
    by (simp add: advance_capacitor_def capacitor_init_def)
qed (rule capacitor_short_step)

section \<open>The Euler step\<close>

text \<open>
  C2. In one pass through the loop body of the capacitor federate that raises nothing,
  the substrate has granted a time to the request and has delivered the inductor
  current \<open>x\<close> on the subscription, and the pass appends to \<open>voltage\<close>, and publishes,
  exactly \<open>prev_state + (-1/C) * x * dt\<close>, the value the contract \<open>advance\<close> of the
  specification gives. Conversely, whenever the substrate grants a time, delivers \<open>x\<close>
  and accepts the publication, the pass raises nothing and appends that value. The
  inductor federate appends and publishes \<open>prev_state + (1/L) * x * dt\<close> in the same
  way. Here \<open>prev_state\<close> is the last entry of the vector, the element value is the
  variable \<open>c_value\<close> (\<open>l_value\<close>) and \<open>dt\<close> is the variable \<open>period\<close>, the factor the
  source multiplies by. The vector is not empty and the element value is not zero, as in
  every run of the programs.
\<close>

theorem euler_step:
  "(capacitor_body sub s tr = (Inr s', tr') \<and> voltage s \<noteq> [] \<and> c_value s \<noteq> 0 \<longrightarrow>
      (\<exists>g x. grant sub tr (grantedtime s + period s) = Inr g
        \<and> double_in sub (tr @ [RequestTime (grantedtime s + period s) g]) ''Inductor/Il''
            = Inr x
        \<and> voltage s' = voltage s @ [advance_capacitor (last (voltage s)) x (period s) (c_value s)]
        \<and> tr' = tr @ [RequestTime (grantedtime s + period s) g,
                      GetValue ''Inductor/Il'' (Dbl x),
                      Publish ''Vc''
                        (Dbl (advance_capacitor (last (voltage s)) x (period s) (c_value s)))]))
   \<and> (grant sub tr (grantedtime s + period s) = Inr g
      \<and> double_in sub (tr @ [RequestTime (grantedtime s + period s) g]) ''Inductor/Il'' = Inr x
      \<and> control sub (tr @ [RequestTime (grantedtime s + period s) g,
                            GetValue ''Inductor/Il'' (Dbl x)])
           (Publish ''Vc'' (Dbl (advance_capacitor (last (voltage s)) x (period s) (c_value s))))
          = None
      \<and> voltage s \<noteq> [] \<and> c_value s \<noteq> 0 \<longrightarrow>
      (\<exists>s1. capacitor_body sub s tr =
           (Inr s1, tr @ [RequestTime (grantedtime s + period s) g,
                          GetValue ''Inductor/Il'' (Dbl x),
                          Publish ''Vc''
                            (Dbl (advance_capacitor (last (voltage s)) x (period s) (c_value s)))])
         \<and> voltage s1
             = voltage s @ [advance_capacitor (last (voltage s)) x (period s) (c_value s)]))
   \<and> (inductor_body sub i ti = (Inr i', ti') \<and> current i \<noteq> [] \<and> l_value i \<noteq> 0 \<longrightarrow>
      (\<exists>g x. grant sub ti (grantedtime i + period i) = Inr g
        \<and> double_in sub (ti @ [RequestTime (grantedtime i + period i) g]) ''Capacitor/Vc''
            = Inr x
        \<and> current i' = current i @ [advance_inductor (last (current i)) x (period i) (l_value i)]
        \<and> ti' = ti @ [RequestTime (grantedtime i + period i) g,
                      GetValue ''Capacitor/Vc'' (Dbl x),
                      Publish ''Il''
                        (Dbl (advance_inductor (last (current i)) x (period i) (l_value i)))]))
   \<and> (grant sub ti (grantedtime i + period i) = Inr g
      \<and> double_in sub (ti @ [RequestTime (grantedtime i + period i) g]) ''Capacitor/Vc'' = Inr x
      \<and> control sub (ti @ [RequestTime (grantedtime i + period i) g,
                            GetValue ''Capacitor/Vc'' (Dbl x)])
           (Publish ''Il'' (Dbl (advance_inductor (last (current i)) x (period i) (l_value i))))
          = None
      \<and> current i \<noteq> [] \<and> l_value i \<noteq> 0 \<longrightarrow>
      (\<exists>i1. inductor_body sub i ti =
           (Inr i1, ti @ [RequestTime (grantedtime i + period i) g,
                          GetValue ''Capacitor/Vc'' (Dbl x),
                          Publish ''Il''
                            (Dbl (advance_inductor (last (current i)) x (period i) (l_value i)))])
         \<and> current i1
             = current i @ [advance_inductor (last (current i)) x (period i) (l_value i)]))"
proof -
  have 1: "capacitor_body sub s tr = (Inr s', tr') \<and> voltage s \<noteq> [] \<and> c_value s \<noteq> 0 \<longrightarrow>
      (\<exists>g x. grant sub tr (grantedtime s + period s) = Inr g
        \<and> double_in sub (tr @ [RequestTime (grantedtime s + period s) g]) ''Inductor/Il''
            = Inr x
        \<and> voltage s' = voltage s @ [advance_capacitor (last (voltage s)) x (period s) (c_value s)]
        \<and> tr' = tr @ [RequestTime (grantedtime s + period s) g,
                      GetValue ''Inductor/Il'' (Dbl x),
                      Publish ''Vc''
                        (Dbl (advance_capacitor (last (voltage s)) x (period s) (c_value s)))])"
  proof
    assume a: "capacitor_body sub s tr = (Inr s', tr') \<and> voltage s \<noteq> [] \<and> c_value s \<noteq> 0"
    from capacitor_body_Inr [OF a [THEN conjunct1]] obtain g x where
      g: "grant sub tr (grantedtime s + period s) = Inr g"
      and x: "double_in sub (tr @ [RequestTime (grantedtime s + period s) g]) ''Inductor/Il''
             = Inr x"
      and s': "s' = s\<lparr>grantedtime := g, inductor_current := x,
               delta_v := (- 1 / c_value s) * x * period s,
               time_sim := time_sim s @ [g],
               voltage := voltage s @ [last (voltage s) + (- 1 / c_value s) * x * period s]\<rparr>"
      and tr': "tr' = tr @ [RequestTime (grantedtime s + period s) g,
                    GetValue ''Inductor/Il'' (Dbl x),
                    Publish ''Vc'' (Dbl (last (voltage s) + (- 1 / c_value s) * x * period s))]"
      by blast
    from s' have v: "voltage s'
        = voltage s @ [advance_capacitor (last (voltage s)) x (period s) (c_value s)]"
      by (simp add: advance_capacitor_def)
    from tr' have t: "tr' = tr @ [RequestTime (grantedtime s + period s) g,
                      GetValue ''Inductor/Il'' (Dbl x),
                      Publish ''Vc''
                        (Dbl (advance_capacitor (last (voltage s)) x (period s) (c_value s)))]"
      by (simp add: advance_capacitor_def)
    from g x v t show "\<exists>g x. grant sub tr (grantedtime s + period s) = Inr g
        \<and> double_in sub (tr @ [RequestTime (grantedtime s + period s) g]) ''Inductor/Il''
            = Inr x
        \<and> voltage s' = voltage s @ [advance_capacitor (last (voltage s)) x (period s) (c_value s)]
        \<and> tr' = tr @ [RequestTime (grantedtime s + period s) g,
                      GetValue ''Inductor/Il'' (Dbl x),
                      Publish ''Vc''
                        (Dbl (advance_capacitor (last (voltage s)) x (period s) (c_value s)))]"
      by blast
  qed
  have 2: "grant sub tr (grantedtime s + period s) = Inr g
      \<and> double_in sub (tr @ [RequestTime (grantedtime s + period s) g]) ''Inductor/Il'' = Inr x
      \<and> control sub (tr @ [RequestTime (grantedtime s + period s) g,
                            GetValue ''Inductor/Il'' (Dbl x)])
           (Publish ''Vc'' (Dbl (advance_capacitor (last (voltage s)) x (period s) (c_value s))))
          = None
      \<and> voltage s \<noteq> [] \<and> c_value s \<noteq> 0 \<longrightarrow>
      (\<exists>s1. capacitor_body sub s tr =
           (Inr s1, tr @ [RequestTime (grantedtime s + period s) g,
                          GetValue ''Inductor/Il'' (Dbl x),
                          Publish ''Vc''
                            (Dbl (advance_capacitor (last (voltage s)) x (period s) (c_value s)))])
         \<and> voltage s1
             = voltage s @ [advance_capacitor (last (voltage s)) x (period s) (c_value s)])"
  proof
    assume a: "grant sub tr (grantedtime s + period s) = Inr g
      \<and> double_in sub (tr @ [RequestTime (grantedtime s + period s) g]) ''Inductor/Il'' = Inr x
      \<and> control sub (tr @ [RequestTime (grantedtime s + period s) g,
                            GetValue ''Inductor/Il'' (Dbl x)])
           (Publish ''Vc'' (Dbl (advance_capacitor (last (voltage s)) x (period s) (c_value s))))
          = None
      \<and> voltage s \<noteq> [] \<and> c_value s \<noteq> 0"
    from a have c: "control sub (tr @ [RequestTime (grantedtime s + period s) g,
                            GetValue ''Inductor/Il'' (Dbl x)])
           (Publish ''Vc'' (Dbl (last (voltage s) + (- 1 / c_value s) * x * period s))) = None"
      by (simp add: advance_capacitor_def)
    from capacitor_body_ok [OF a [THEN conjunct1] a [THEN conjunct2, THEN conjunct1] c]
    show "\<exists>s1. capacitor_body sub s tr =
           (Inr s1, tr @ [RequestTime (grantedtime s + period s) g,
                          GetValue ''Inductor/Il'' (Dbl x),
                          Publish ''Vc''
                            (Dbl (advance_capacitor (last (voltage s)) x (period s) (c_value s)))])
         \<and> voltage s1
             = voltage s @ [advance_capacitor (last (voltage s)) x (period s) (c_value s)]"
      by (simp add: advance_capacitor_def)
  qed
  have 3: "inductor_body sub i ti = (Inr i', ti') \<and> current i \<noteq> [] \<and> l_value i \<noteq> 0 \<longrightarrow>
      (\<exists>g x. grant sub ti (grantedtime i + period i) = Inr g
        \<and> double_in sub (ti @ [RequestTime (grantedtime i + period i) g]) ''Capacitor/Vc''
            = Inr x
        \<and> current i' = current i @ [advance_inductor (last (current i)) x (period i) (l_value i)]
        \<and> ti' = ti @ [RequestTime (grantedtime i + period i) g,
                      GetValue ''Capacitor/Vc'' (Dbl x),
                      Publish ''Il''
                        (Dbl (advance_inductor (last (current i)) x (period i) (l_value i)))])"
  proof
    assume a: "inductor_body sub i ti = (Inr i', ti') \<and> current i \<noteq> [] \<and> l_value i \<noteq> 0"
    from inductor_body_Inr [OF a [THEN conjunct1]] obtain g x where
      g: "grant sub ti (grantedtime i + period i) = Inr g"
      and x: "double_in sub (ti @ [RequestTime (grantedtime i + period i) g]) ''Capacitor/Vc''
             = Inr x"
      and i': "i' = i\<lparr>grantedtime := g, capacitor_voltage := x,
               delta_i := (1 / l_value i) * x * period i,
               time_sim := time_sim i @ [g],
               current := current i @ [last (current i) + (1 / l_value i) * x * period i]\<rparr>"
      and ti': "ti' = ti @ [RequestTime (grantedtime i + period i) g,
                    GetValue ''Capacitor/Vc'' (Dbl x),
                    Publish ''Il'' (Dbl (last (current i) + (1 / l_value i) * x * period i))]"
      by blast
    from i' have v: "current i'
        = current i @ [advance_inductor (last (current i)) x (period i) (l_value i)]"
      by (simp add: advance_inductor_def)
    from ti' have t: "ti' = ti @ [RequestTime (grantedtime i + period i) g,
                      GetValue ''Capacitor/Vc'' (Dbl x),
                      Publish ''Il''
                        (Dbl (advance_inductor (last (current i)) x (period i) (l_value i)))]"
      by (simp add: advance_inductor_def)
    from g x v t show "\<exists>g x. grant sub ti (grantedtime i + period i) = Inr g
        \<and> double_in sub (ti @ [RequestTime (grantedtime i + period i) g]) ''Capacitor/Vc''
            = Inr x
        \<and> current i' = current i @ [advance_inductor (last (current i)) x (period i) (l_value i)]
        \<and> ti' = ti @ [RequestTime (grantedtime i + period i) g,
                      GetValue ''Capacitor/Vc'' (Dbl x),
                      Publish ''Il''
                        (Dbl (advance_inductor (last (current i)) x (period i) (l_value i)))]"
      by blast
  qed
  have 4: "grant sub ti (grantedtime i + period i) = Inr g
      \<and> double_in sub (ti @ [RequestTime (grantedtime i + period i) g]) ''Capacitor/Vc'' = Inr x
      \<and> control sub (ti @ [RequestTime (grantedtime i + period i) g,
                            GetValue ''Capacitor/Vc'' (Dbl x)])
           (Publish ''Il'' (Dbl (advance_inductor (last (current i)) x (period i) (l_value i))))
          = None
      \<and> current i \<noteq> [] \<and> l_value i \<noteq> 0 \<longrightarrow>
      (\<exists>i1. inductor_body sub i ti =
           (Inr i1, ti @ [RequestTime (grantedtime i + period i) g,
                          GetValue ''Capacitor/Vc'' (Dbl x),
                          Publish ''Il''
                            (Dbl (advance_inductor (last (current i)) x (period i) (l_value i)))])
         \<and> current i1
             = current i @ [advance_inductor (last (current i)) x (period i) (l_value i)])"
  proof
    assume a: "grant sub ti (grantedtime i + period i) = Inr g
      \<and> double_in sub (ti @ [RequestTime (grantedtime i + period i) g]) ''Capacitor/Vc'' = Inr x
      \<and> control sub (ti @ [RequestTime (grantedtime i + period i) g,
                            GetValue ''Capacitor/Vc'' (Dbl x)])
           (Publish ''Il'' (Dbl (advance_inductor (last (current i)) x (period i) (l_value i))))
          = None
      \<and> current i \<noteq> [] \<and> l_value i \<noteq> 0"
    from a have c: "control sub (ti @ [RequestTime (grantedtime i + period i) g,
                            GetValue ''Capacitor/Vc'' (Dbl x)])
           (Publish ''Il'' (Dbl (last (current i) + (1 / l_value i) * x * period i))) = None"
      by (simp add: advance_inductor_def)
    from inductor_body_ok [OF a [THEN conjunct1] a [THEN conjunct2, THEN conjunct1] c]
    show "\<exists>i1. inductor_body sub i ti =
           (Inr i1, ti @ [RequestTime (grantedtime i + period i) g,
                          GetValue ''Capacitor/Vc'' (Dbl x),
                          Publish ''Il''
                            (Dbl (advance_inductor (last (current i)) x (period i) (l_value i)))])
         \<and> current i1
             = current i @ [advance_inductor (last (current i)) x (period i) (l_value i)]"
      by (simp add: advance_inductor_def)
  qed
  show ?thesis
    by (rule conjI [OF 1 conjI [OF 2 conjI [OF 3 4]]])
qed

theorem euler_step_witness:
  "(\<exists>s' tr'. capacitor_body (stub_sub 1 0) capacitor_init [] = (Inr s', tr')
      \<and> voltage capacitor_init \<noteq> [] \<and> c_value capacitor_init \<noteq> 0
      \<and> double_in (stub_sub 1 0) [RequestTime (1 / 10000) (1 / 10000)] ''Inductor/Il'' = Inr 1
      \<and> voltage s' = voltage capacitor_init @
           [advance_capacitor (last (voltage capacitor_init)) 1 (period capacitor_init)
              (c_value capacitor_init)]
      \<and> last (voltage s') = 0 + (- 1 / 0.159) * 1 * (100 / 10 ^ 6)
      \<and> tr' = [RequestTime (1 / 10000) (1 / 10000), GetValue ''Inductor/Il'' (Dbl 1),
               Publish ''Vc'' (Dbl (0 + (- 1 / 0.159) * 1 * (100 / 10 ^ 6)))])
   \<and> (\<exists>i' ti'. inductor_body (stub_sub 1 0) inductor_init [] = (Inr i', ti')
      \<and> current inductor_init \<noteq> [] \<and> l_value inductor_init \<noteq> 0
      \<and> double_in (stub_sub 1 0) [RequestTime (1 / 10000) (1 / 10000)] ''Capacitor/Vc'' = Inr 1
      \<and> current i' = current inductor_init @
           [advance_inductor (last (current inductor_init)) 1 (period inductor_init)
              (l_value inductor_init)]
      \<and> last (current i') = 1 + (1 / 0.159) * 1 * (100 / 10 ^ 6)
      \<and> ti' = [RequestTime (1 / 10000) (1 / 10000), GetValue ''Capacitor/Vc'' (Dbl 1),
               Publish ''Il'' (Dbl (1 + (1 / 0.159) * 1 * (100 / 10 ^ 6)))])"
proof (rule conjI)
  have pre: "grant (stub_sub 1 0) [] (grantedtime capacitor_init + period capacitor_init)
        = Inr (1 / 10000)
      \<and> double_in (stub_sub 1 0)
          ([] @ [RequestTime (grantedtime capacitor_init + period capacitor_init) (1 / 10000)])
          ''Inductor/Il'' = Inr 1
      \<and> control (stub_sub 1 0)
          ([] @ [RequestTime (grantedtime capacitor_init + period capacitor_init) (1 / 10000),
                 GetValue ''Inductor/Il'' (Dbl 1)])
          (Publish ''Vc'' (Dbl (advance_capacitor (last (voltage capacitor_init)) 1
             (period capacitor_init) (c_value capacitor_init)))) = None
      \<and> voltage capacitor_init \<noteq> [] \<and> c_value capacitor_init \<noteq> 0"
    by (simp add: stub_sub_def capacitor_init_def)
  from euler_step [THEN conjunct2, THEN conjunct1, THEN mp, OF pre]
  obtain s' where run: "capacitor_body (stub_sub 1 0) capacitor_init [] =
      (Inr s', [] @ [RequestTime (grantedtime capacitor_init + period capacitor_init) (1 / 10000),
                     GetValue ''Inductor/Il'' (Dbl 1),
                     Publish ''Vc'' (Dbl (advance_capacitor (last (voltage capacitor_init)) 1
                        (period capacitor_init) (c_value capacitor_init)))])"
    by blast
  have cpre: "voltage capacitor_init \<noteq> [] \<and> c_value capacitor_init \<noteq> 0"
    by (simp add: capacitor_init_def)
  from euler_step [THEN conjunct1, THEN mp, OF conjI [OF run cpre]]
  have v: "voltage s' = voltage capacitor_init @
           [advance_capacitor (last (voltage capacitor_init)) 1 (period capacitor_init)
              (c_value capacitor_init)]"
    by (auto simp: stub_sub_def)
  have e: "advance_capacitor (last (voltage capacitor_init)) 1 (period capacitor_init)
              (c_value capacitor_init) = 0 + (- 1 / 0.159) * 1 * (100 / 10 ^ 6)"
    by (simp add: advance_capacitor_def capacitor_init_def)
  have t: "grantedtime capacitor_init + period capacitor_init = 1 / 10000"
    by (simp add: capacitor_init_def)
  have d: "double_in (stub_sub 1 0) [RequestTime (1 / 10000) (1 / 10000)] ''Inductor/Il'' = Inr 1"
    by (simp add: stub_sub_def)
  from v e have l: "last (voltage s') = 0 + (- 1 / 0.159) * 1 * (100 / 10 ^ 6)"
    by simp
  from run have r: "capacitor_body (stub_sub 1 0) capacitor_init [] =
      (Inr s', [RequestTime (1 / 10000) (1 / 10000), GetValue ''Inductor/Il'' (Dbl 1),
               Publish ''Vc'' (Dbl (0 + (- 1 / 0.159) * 1 * (100 / 10 ^ 6)))])"
    unfolding e t by simp
  show "\<exists>s' tr'. capacitor_body (stub_sub 1 0) capacitor_init [] = (Inr s', tr')
      \<and> voltage capacitor_init \<noteq> [] \<and> c_value capacitor_init \<noteq> 0
      \<and> double_in (stub_sub 1 0) [RequestTime (1 / 10000) (1 / 10000)] ''Inductor/Il'' = Inr 1
      \<and> voltage s' = voltage capacitor_init @
           [advance_capacitor (last (voltage capacitor_init)) 1 (period capacitor_init)
              (c_value capacitor_init)]
      \<and> last (voltage s') = 0 + (- 1 / 0.159) * 1 * (100 / 10 ^ 6)
      \<and> tr' = [RequestTime (1 / 10000) (1 / 10000), GetValue ''Inductor/Il'' (Dbl 1),
               Publish ''Vc'' (Dbl (0 + (- 1 / 0.159) * 1 * (100 / 10 ^ 6)))]"
    apply (rule exI [of _ s'], rule exI, intro conjI)
          apply (rule r)
         apply (rule cpre [THEN conjunct1])
        apply (rule cpre [THEN conjunct2])
       apply (rule d)
      apply (rule v)
     apply (rule l)
    apply (rule refl)
    done
next
  have pre: "grant (stub_sub 1 0) [] (grantedtime inductor_init + period inductor_init)
        = Inr (1 / 10000)
      \<and> double_in (stub_sub 1 0)
          ([] @ [RequestTime (grantedtime inductor_init + period inductor_init) (1 / 10000)])
          ''Capacitor/Vc'' = Inr 1
      \<and> control (stub_sub 1 0)
          ([] @ [RequestTime (grantedtime inductor_init + period inductor_init) (1 / 10000),
                 GetValue ''Capacitor/Vc'' (Dbl 1)])
          (Publish ''Il'' (Dbl (advance_inductor (last (current inductor_init)) 1
             (period inductor_init) (l_value inductor_init)))) = None
      \<and> current inductor_init \<noteq> [] \<and> l_value inductor_init \<noteq> 0"
    by (simp add: stub_sub_def inductor_init_def)
  from euler_step [THEN conjunct2, THEN conjunct2, THEN conjunct2, THEN mp, OF pre]
  obtain i' where run: "inductor_body (stub_sub 1 0) inductor_init [] =
      (Inr i', [] @ [RequestTime (grantedtime inductor_init + period inductor_init) (1 / 10000),
                     GetValue ''Capacitor/Vc'' (Dbl 1),
                     Publish ''Il'' (Dbl (advance_inductor (last (current inductor_init)) 1
                        (period inductor_init) (l_value inductor_init)))])"
    by blast
  have ipre: "current inductor_init \<noteq> [] \<and> l_value inductor_init \<noteq> 0"
    by (simp add: inductor_init_def)
  from euler_step [THEN conjunct2, THEN conjunct2, THEN conjunct1, THEN mp, OF conjI [OF run ipre]]
  have v: "current i' = current inductor_init @
           [advance_inductor (last (current inductor_init)) 1 (period inductor_init)
              (l_value inductor_init)]"
    by (auto simp: stub_sub_def)
  have e: "advance_inductor (last (current inductor_init)) 1 (period inductor_init)
              (l_value inductor_init) = 1 + (1 / 0.159) * 1 * (100 / 10 ^ 6)"
    by (simp add: advance_inductor_def inductor_init_def)
  have t: "grantedtime inductor_init + period inductor_init = 1 / 10000"
    by (simp add: inductor_init_def)
  have d: "double_in (stub_sub 1 0) [RequestTime (1 / 10000) (1 / 10000)] ''Capacitor/Vc'' = Inr 1"
    by (simp add: stub_sub_def)
  from v e have l: "last (current i') = 1 + (1 / 0.159) * 1 * (100 / 10 ^ 6)"
    by simp
  from run have r: "inductor_body (stub_sub 1 0) inductor_init [] =
      (Inr i', [RequestTime (1 / 10000) (1 / 10000), GetValue ''Capacitor/Vc'' (Dbl 1),
               Publish ''Il'' (Dbl (1 + (1 / 0.159) * 1 * (100 / 10 ^ 6)))])"
    unfolding e t by simp
  show "\<exists>i' ti'. inductor_body (stub_sub 1 0) inductor_init [] = (Inr i', ti')
      \<and> current inductor_init \<noteq> [] \<and> l_value inductor_init \<noteq> 0
      \<and> double_in (stub_sub 1 0) [RequestTime (1 / 10000) (1 / 10000)] ''Capacitor/Vc'' = Inr 1
      \<and> current i' = current inductor_init @
           [advance_inductor (last (current inductor_init)) 1 (period inductor_init)
              (l_value inductor_init)]
      \<and> last (current i') = 1 + (1 / 0.159) * 1 * (100 / 10 ^ 6)
      \<and> ti' = [RequestTime (1 / 10000) (1 / 10000), GetValue ''Capacitor/Vc'' (Dbl 1),
               Publish ''Il'' (Dbl (1 + (1 / 0.159) * 1 * (100 / 10 ^ 6)))]"
    apply (rule exI [of _ i'], rule exI, intro conjI)
          apply (rule r)
         apply (rule ipre [THEN conjunct1])
        apply (rule ipre [THEN conjunct2])
       apply (rule d)
      apply (rule v)
     apply (rule l)
    apply (rule refl)
    done
qed

section \<open>The first step of the LC tank\<close>

text \<open>
  C3. The capacitor federate starts at voltage 0 with \<open>C = 0.159\<close> and the inductor
  federate at current 1 with \<open>L = 0.159\<close>, both with period \<open>100e-6\<close>. After the first
  pass through the loop in which the capacitor federate reads the inductor current 1,
  its voltage is \<open>0 + (-1/0.159) * 1.0 * 100e-6\<close>, the value of the reference
  computation \<open>advance\<close> (so within \<open>1e-9\<close> of it) and about \<open>-6.29e-4\<close>; after the
  first pass in which the inductor federate reads the capacitor voltage 0, its current
  is still 1.
\<close>

theorem lc_tank_first_step:
  "(capacitor_body sub capacitor_init tr = (Inr s', tr') \<and> reads (drop (length tr) tr') = [1] \<longrightarrow>
      last (voltage s') = advance_capacitor 0 1 (100 / 10 ^ 6) 0.159
      \<and> \<bar>last (voltage s') - (0 + (- 1 / 0.159) * 1.0 * (100 / 10 ^ 6))\<bar> \<le> 1 / 10 ^ 9
      \<and> \<bar>last (voltage s') - (- 6.29 / 10 ^ 4)\<bar> < 1 / 10 ^ 6)
   \<and> (inductor_body sub inductor_init ti = (Inr i', ti') \<and> reads (drop (length ti) ti') = [0] \<longrightarrow>
      last (current i') = 1)"
proof (intro conjI impI)
  assume a: "capacitor_body sub capacitor_init tr = (Inr s', tr') \<and> reads (drop (length tr) tr') = [1]"
  then obtain g x where tr': "tr' = tr @ [RequestTime (grantedtime capacitor_init + period capacitor_init) g,
        GetValue ''Inductor/Il'' (Dbl x),
        Publish ''Vc'' (Dbl (last (voltage capacitor_init) + (- 1 / c_value capacitor_init) * x * period capacitor_init))]"
    and v: "last (voltage s') = last (voltage capacitor_init) + (- 1 / c_value capacitor_init) * x * period capacitor_init"
    using capacitor_body_Inr [of sub capacitor_init tr s' tr'] by auto
  from a tr' have "x = 1" by simp
  with v have v1: "last (voltage s') = - (1 / 1590)"
    by (simp add: capacitor_init_def)
  show "last (voltage s') = advance_capacitor 0 1 (100 / 10 ^ 6) 0.159"
    by (simp add: v1 advance_capacitor_def)
  show "\<bar>last (voltage s') - (0 + (- 1 / 0.159) * 1.0 * (100 / 10 ^ 6))\<bar> \<le> 1 / 10 ^ 9"
    by (simp add: v1)
  show "\<bar>last (voltage s') - (- 6.29 / 10 ^ 4)\<bar> < 1 / 10 ^ 6"
    by (simp add: v1)
next
  assume a: "inductor_body sub inductor_init ti = (Inr i', ti') \<and> reads (drop (length ti) ti') = [0]"
  then obtain g x where tr': "ti' = ti @ [RequestTime (grantedtime inductor_init + period inductor_init) g,
        GetValue ''Capacitor/Vc'' (Dbl x),
        Publish ''Il'' (Dbl (last (current inductor_init) + (1 / l_value inductor_init) * x * period inductor_init))]"
    and v: "last (current i') = last (current inductor_init) + (1 / l_value inductor_init) * x * period inductor_init"
    using inductor_body_Inr [of sub inductor_init ti i' ti'] by auto
  from a tr' have "x = 0" by simp
  with v show "last (current i') = 1"
    by (simp add: inductor_init_def)
qed

theorem lc_tank_first_step_witness:
  "\<exists>s' tr' i' ti'. capacitor_body (stub_sub 1 0) capacitor_init [] = (Inr s', tr')
      \<and> reads (drop (length ([]::event list)) tr') = [1]
      \<and> inductor_body (stub_sub 0 0) inductor_init [] = (Inr i', ti')
      \<and> reads (drop (length ([]::event list)) ti') = [0]
      \<and> last (voltage s') = - (1 / 1590) \<and> last (current i') = 1"
proof -
  obtain s' tr' where c: "capacitor_body (stub_sub 1 0) capacitor_init [] = (Inr s', tr')"
    and ctr: "reads (drop (length ([]::event list)) tr') = [1]"
    by (rule that [OF capacitor_stub_step]) simp
  obtain i' ti' where i: "inductor_body (stub_sub 0 0) inductor_init [] = (Inr i', ti')"
    and itr: "reads (drop (length ([]::event list)) ti') = [0]"
    by (rule that [OF inductor_stub_step]) simp
  from lc_tank_first_step [THEN conjunct1, rule_format, OF conjI [OF c ctr]]
  have "last (voltage s') = - (1 / 1590)"
    by (simp add: advance_capacitor_def)
  moreover from lc_tank_first_step [THEN conjunct2, rule_format, OF conjI [OF i itr]]
  have "last (current i') = 1" .
  ultimately show ?thesis
    using c i ctr itr by blast
qed

section \<open>The solver adapter\<close>

text \<open>
  C4, as the code has it. In one pass through the loop of the single-phase solver
  adapter (pf-cosim) that raises nothing, the complex power \<open>z\<close> that the substrate
  delivered on the subscription is divided by the fixed factor 1000000 before it is
  handed to the solver, and the voltage \<open>v\<close> that the solver returned for it is
  multiplied by the fixed base voltage 69000 before it is published. When the
  substrate delivers the power \<open>5000000+0j\<close> the solver receives \<open>5+0j\<close>, and when the
  solver returns \<open>1.02+0j\<close> for it the published value is \<open>1.02 * 69000\<close>. In one
  pass of the three-phase adapter (2bus-13bus) each of the three powers delivered is
  divided by the fixed factor 100000000 before its solver call. The voltage returned
  for phase A is multiplied by the fixed base voltage 2400 before it is published; the
  voltages returned for phases B and C are multiplied by \<open>r120\<close> and by \<open>r120\<close> twice
  before they are multiplied by 2400 and published.
\<close>

theorem solver_adapter_scaling:
  "(pf_body sub app s tr = (Inr s', tr') \<longrightarrow>
      (\<exists>g z v. grant sub tr (grantedtime s + period s) = Inr g
         \<and> complex_in sub (tr @ [RequestTime (grantedtime s + period s) g])
              ''gpk_gld_right_fed/sa'' = Inr z
         \<and> app (tr @ [RequestTime (grantedtime s + period s) g,
                       GetValue ''gpk_gld_right_fed/sa'' (Cplx z)])
              ''app'' (voltage_pf s) (z / 1000000) = Inr v
         \<and> tr' = tr @ [RequestTime (grantedtime s + period s) g,
                       GetValue ''gpk_gld_right_fed/sa'' (Cplx z),
                       Execute ''app'' (voltage_pf s) (z / 1000000) v,
                       Publish ''Vc'' (Cplx (v * 69000))]
         \<and> voltage_pf s' = v))
   \<and> (grant sub tr (grantedtime s + period s) = Inr g
      \<and> complex_in sub (tr @ [RequestTime (grantedtime s + period s) g])
           ''gpk_gld_right_fed/sa'' = Inr (Complex 5000000 0)
      \<and> app (tr @ [RequestTime (grantedtime s + period s) g,
                    GetValue ''gpk_gld_right_fed/sa'' (Cplx (Complex 5000000 0))])
           ''app'' (voltage_pf s) (Complex 5 0) = Inr (Complex 1.02 0)
      \<and> control sub (tr @ [RequestTime (grantedtime s + period s) g,
                            GetValue ''gpk_gld_right_fed/sa'' (Cplx (Complex 5000000 0)),
                            Execute ''app'' (voltage_pf s) (Complex 5 0) (Complex 1.02 0)])
           (Publish ''Vc'' (Cplx (Complex (1.02 * 69000) 0))) = None \<longrightarrow>
      pf_body sub app s tr =
        (Inr (s\<lparr>grantedtime := g, Sa := Complex 5 0, voltage_pf := Complex 1.02 0\<rparr>),
         tr @ [RequestTime (grantedtime s + period s) g,
               GetValue ''gpk_gld_right_fed/sa'' (Cplx (Complex 5000000 0)),
               Execute ''app'' (voltage_pf s) (Complex 5 0) (Complex 1.02 0),
               Publish ''Vc'' (Cplx (Complex (1.02 * 69000) 0))]))
   \<and> (bus13_body sub app b tb = (Inr b', tb') \<longrightarrow>
      (\<exists>g za zb zc va vb vc.
         grant sub tb (grantedtime b + period b) = Inr g
       \<and> complex_in sub (tb @ [RequestTime (grantedtime b + period b) g])
            ''gld_hlc_conn/Sa'' = Inr za
       \<and> complex_in sub (tb @ [RequestTime (grantedtime b + period b) g,
                                GetValue ''gld_hlc_conn/Sa'' (Cplx za)])
            ''gld_hlc_conn/Sb'' = Inr zb
       \<and> complex_in sub (tb @ [RequestTime (grantedtime b + period b) g,
                                GetValue ''gld_hlc_conn/Sa'' (Cplx za),
                                GetValue ''gld_hlc_conn/Sb'' (Cplx zb)])
            ''gld_hlc_conn/Sc'' = Inr zc
       \<and> app (tb @ [RequestTime (grantedtime b + period b) g,
                     GetValue ''gld_hlc_conn/Sa'' (Cplx za),
                     GetValue ''gld_hlc_conn/Sb'' (Cplx zb),
                     GetValue ''gld_hlc_conn/Sc'' (Cplx zc)])
            ''app_A'' (Va b) (za / 100000000) = Inr va
       \<and> app (tb @ [RequestTime (grantedtime b + period b) g,
                     GetValue ''gld_hlc_conn/Sa'' (Cplx za),
                     GetValue ''gld_hlc_conn/Sb'' (Cplx zb),
                     GetValue ''gld_hlc_conn/Sc'' (Cplx zc),
                     Execute ''app_A'' (Va b) (za / 100000000) va])
            ''app_B'' (Vb b) (zb / 100000000) = Inr vb
       \<and> app (tb @ [RequestTime (grantedtime b + period b) g,
                     GetValue ''gld_hlc_conn/Sa'' (Cplx za),
                     GetValue ''gld_hlc_conn/Sb'' (Cplx zb),
                     GetValue ''gld_hlc_conn/Sc'' (Cplx zc),
                     Execute ''app_A'' (Va b) (za / 100000000) va,
                     Execute ''app_B'' (Vb b) (zb / 100000000) vb])
            ''app_C'' (Vc b) (zc / 100000000) = Inr vc
       \<and> tb' = tb @ [RequestTime (grantedtime b + period b) g,
                     GetValue ''gld_hlc_conn/Sa'' (Cplx za),
                     GetValue ''gld_hlc_conn/Sb'' (Cplx zb),
                     GetValue ''gld_hlc_conn/Sc'' (Cplx zc),
                     Execute ''app_A'' (Va b) (za / 100000000) va,
                     Execute ''app_B'' (Vb b) (zb / 100000000) vb,
                     Execute ''app_C'' (Vc b) (zc / 100000000) vc,
                     Publish ''Va'' (Cplx (va * 2400)),
                     Publish ''Vb'' (Cplx (vb * r120 b * 2400)),
                     Publish ''Vc'' (Cplx (vc * r120 b * r120 b * 2400))]))"
proof -
  have 1: "pf_body sub app s tr = (Inr s', tr') \<longrightarrow>
      (\<exists>g z v. grant sub tr (grantedtime s + period s) = Inr g
         \<and> complex_in sub (tr @ [RequestTime (grantedtime s + period s) g])
              ''gpk_gld_right_fed/sa'' = Inr z
         \<and> app (tr @ [RequestTime (grantedtime s + period s) g,
                       GetValue ''gpk_gld_right_fed/sa'' (Cplx z)])
              ''app'' (voltage_pf s) (z / 1000000) = Inr v
         \<and> tr' = tr @ [RequestTime (grantedtime s + period s) g,
                       GetValue ''gpk_gld_right_fed/sa'' (Cplx z),
                       Execute ''app'' (voltage_pf s) (z / 1000000) v,
                       Publish ''Vc'' (Cplx (v * 69000))]
         \<and> voltage_pf s' = v)"
  proof
    assume "pf_body sub app s tr = (Inr s', tr')"
    from pf_body_calls [OF this] obtain g z v where
      g: "grant sub tr (grantedtime s + period s) = Inr g"
      and z: "complex_in sub (tr @ [RequestTime (grantedtime s + period s) g])
              ''gpk_gld_right_fed/sa'' = Inr z"
      and v: "app (tr @ [RequestTime (grantedtime s + period s) g,
                       GetValue ''gpk_gld_right_fed/sa'' (Cplx z)])
              ''app'' (voltage_pf s) (z / 1000000) = Inr v"
      and s': "s' = s\<lparr>grantedtime := g, Sa := z / 1000000, voltage_pf := v\<rparr>"
      and tr': "tr' = tr @ [RequestTime (grantedtime s + period s) g,
                       GetValue ''gpk_gld_right_fed/sa'' (Cplx z),
                       Execute ''app'' (voltage_pf s) (z / 1000000) v,
                       Publish ''Vc'' (Cplx (v * 69000))]"
      by blast
    from s' have "voltage_pf s' = v" by simp
    with g z v tr' show "\<exists>g z v. grant sub tr (grantedtime s + period s) = Inr g
         \<and> complex_in sub (tr @ [RequestTime (grantedtime s + period s) g])
              ''gpk_gld_right_fed/sa'' = Inr z
         \<and> app (tr @ [RequestTime (grantedtime s + period s) g,
                       GetValue ''gpk_gld_right_fed/sa'' (Cplx z)])
              ''app'' (voltage_pf s) (z / 1000000) = Inr v
         \<and> tr' = tr @ [RequestTime (grantedtime s + period s) g,
                       GetValue ''gpk_gld_right_fed/sa'' (Cplx z),
                       Execute ''app'' (voltage_pf s) (z / 1000000) v,
                       Publish ''Vc'' (Cplx (v * 69000))]
         \<and> voltage_pf s' = v"
      by blast
  qed
  have d: "Complex 5000000 0 / 1000000 = Complex 5 0"
    by (simp add: complex_eq_iff)
  have m: "Complex 1.02 0 * 69000 = Complex (1.02 * 69000) 0"
    by (simp add: complex_eq_iff)
  have 2: "grant sub tr (grantedtime s + period s) = Inr g
      \<and> complex_in sub (tr @ [RequestTime (grantedtime s + period s) g])
           ''gpk_gld_right_fed/sa'' = Inr (Complex 5000000 0)
      \<and> app (tr @ [RequestTime (grantedtime s + period s) g,
                    GetValue ''gpk_gld_right_fed/sa'' (Cplx (Complex 5000000 0))])
           ''app'' (voltage_pf s) (Complex 5 0) = Inr (Complex 1.02 0)
      \<and> control sub (tr @ [RequestTime (grantedtime s + period s) g,
                            GetValue ''gpk_gld_right_fed/sa'' (Cplx (Complex 5000000 0)),
                            Execute ''app'' (voltage_pf s) (Complex 5 0) (Complex 1.02 0)])
           (Publish ''Vc'' (Cplx (Complex (1.02 * 69000) 0))) = None \<longrightarrow>
      pf_body sub app s tr =
        (Inr (s\<lparr>grantedtime := g, Sa := Complex 5 0, voltage_pf := Complex 1.02 0\<rparr>),
         tr @ [RequestTime (grantedtime s + period s) g,
               GetValue ''gpk_gld_right_fed/sa'' (Cplx (Complex 5000000 0)),
               Execute ''app'' (voltage_pf s) (Complex 5 0) (Complex 1.02 0),
               Publish ''Vc'' (Cplx (Complex (1.02 * 69000) 0))])"
  proof
    assume a: "grant sub tr (grantedtime s + period s) = Inr g
      \<and> complex_in sub (tr @ [RequestTime (grantedtime s + period s) g])
           ''gpk_gld_right_fed/sa'' = Inr (Complex 5000000 0)
      \<and> app (tr @ [RequestTime (grantedtime s + period s) g,
                    GetValue ''gpk_gld_right_fed/sa'' (Cplx (Complex 5000000 0))])
           ''app'' (voltage_pf s) (Complex 5 0) = Inr (Complex 1.02 0)
      \<and> control sub (tr @ [RequestTime (grantedtime s + period s) g,
                            GetValue ''gpk_gld_right_fed/sa'' (Cplx (Complex 5000000 0)),
                            Execute ''app'' (voltage_pf s) (Complex 5 0) (Complex 1.02 0)])
           (Publish ''Vc'' (Cplx (Complex (1.02 * 69000) 0))) = None"
    note g = a [THEN conjunct1]
    note z = a [THEN conjunct2, THEN conjunct1]
    note v = a [THEN conjunct2, THEN conjunct2, THEN conjunct1, folded d]
    note c = a [THEN conjunct2, THEN conjunct2, THEN conjunct2, folded d m]
    from pf_body_ok [where sub = sub and app = app and tr = tr and s = s and g = g
        and z = "Complex 5000000 0" and v = "Complex 1.02 0", OF g z v c]
    show "pf_body sub app s tr =
        (Inr (s\<lparr>grantedtime := g, Sa := Complex 5 0, voltage_pf := Complex 1.02 0\<rparr>),
         tr @ [RequestTime (grantedtime s + period s) g,
               GetValue ''gpk_gld_right_fed/sa'' (Cplx (Complex 5000000 0)),
               Execute ''app'' (voltage_pf s) (Complex 5 0) (Complex 1.02 0),
               Publish ''Vc'' (Cplx (Complex (1.02 * 69000) 0))])"
      unfolding d m .
  qed
  have 3: "bus13_body sub app b tb = (Inr b', tb') \<longrightarrow>
      (\<exists>g za zb zc va vb vc.
         grant sub tb (grantedtime b + period b) = Inr g
       \<and> complex_in sub (tb @ [RequestTime (grantedtime b + period b) g])
            ''gld_hlc_conn/Sa'' = Inr za
       \<and> complex_in sub (tb @ [RequestTime (grantedtime b + period b) g,
                                GetValue ''gld_hlc_conn/Sa'' (Cplx za)])
            ''gld_hlc_conn/Sb'' = Inr zb
       \<and> complex_in sub (tb @ [RequestTime (grantedtime b + period b) g,
                                GetValue ''gld_hlc_conn/Sa'' (Cplx za),
                                GetValue ''gld_hlc_conn/Sb'' (Cplx zb)])
            ''gld_hlc_conn/Sc'' = Inr zc
       \<and> app (tb @ [RequestTime (grantedtime b + period b) g,
                     GetValue ''gld_hlc_conn/Sa'' (Cplx za),
                     GetValue ''gld_hlc_conn/Sb'' (Cplx zb),
                     GetValue ''gld_hlc_conn/Sc'' (Cplx zc)])
            ''app_A'' (Va b) (za / 100000000) = Inr va
       \<and> app (tb @ [RequestTime (grantedtime b + period b) g,
                     GetValue ''gld_hlc_conn/Sa'' (Cplx za),
                     GetValue ''gld_hlc_conn/Sb'' (Cplx zb),
                     GetValue ''gld_hlc_conn/Sc'' (Cplx zc),
                     Execute ''app_A'' (Va b) (za / 100000000) va])
            ''app_B'' (Vb b) (zb / 100000000) = Inr vb
       \<and> app (tb @ [RequestTime (grantedtime b + period b) g,
                     GetValue ''gld_hlc_conn/Sa'' (Cplx za),
                     GetValue ''gld_hlc_conn/Sb'' (Cplx zb),
                     GetValue ''gld_hlc_conn/Sc'' (Cplx zc),
                     Execute ''app_A'' (Va b) (za / 100000000) va,
                     Execute ''app_B'' (Vb b) (zb / 100000000) vb])
            ''app_C'' (Vc b) (zc / 100000000) = Inr vc
       \<and> tb' = tb @ [RequestTime (grantedtime b + period b) g,
                     GetValue ''gld_hlc_conn/Sa'' (Cplx za),
                     GetValue ''gld_hlc_conn/Sb'' (Cplx zb),
                     GetValue ''gld_hlc_conn/Sc'' (Cplx zc),
                     Execute ''app_A'' (Va b) (za / 100000000) va,
                     Execute ''app_B'' (Vb b) (zb / 100000000) vb,
                     Execute ''app_C'' (Vc b) (zc / 100000000) vc,
                     Publish ''Va'' (Cplx (va * 2400)),
                     Publish ''Vb'' (Cplx (vb * r120 b * 2400)),
                     Publish ''Vc'' (Cplx (vc * r120 b * r120 b * 2400))])"
    by (rule impI) (erule bus13_body_calls)
  show ?thesis
    by (rule conjI [OF 1 conjI [OF 2 3]])
qed

theorem solver_adapter_scaling_witness:
  "(\<exists>s' tr'.
      pf_body (stub_sub 0 (Complex 5000000 0)) (const_solver (Complex 1.02 0)) pf_init []
        = (Inr s', tr')
    \<and> tr' = [RequestTime 1 1, GetValue ''gpk_gld_right_fed/sa'' (Cplx (Complex 5000000 0)),
             Execute ''app'' (Complex 1 0) (Complex 5 0) (Complex 1.02 0),
             Publish ''Vc'' (Cplx (Complex (1.02 * 69000) 0))]
    \<and> voltage_pf s' = Complex 1.02 0)
   \<and> (\<exists>b' tb'.
      bus13_body phase_sub echo_solver bus13_init [] = (Inr b', tb')
    \<and> tb' = [RequestTime 1 1,
             GetValue ''gld_hlc_conn/Sa'' (Cplx (Complex 100000000 0)),
             GetValue ''gld_hlc_conn/Sb'' (Cplx (Complex 200000000 0)),
             GetValue ''gld_hlc_conn/Sc'' (Cplx (Complex 300000000 0)),
             Execute ''app_A'' (Va bus13_init) (Complex 1 0) (Complex 1 0),
             Execute ''app_B'' (Vb bus13_init) (Complex 2 0) (Complex 2 0),
             Execute ''app_C'' (Vc bus13_init) (Complex 3 0) (Complex 3 0),
             Publish ''Va'' (Cplx (Complex 1 0 * 2400)),
             Publish ''Vb'' (Cplx (Complex 2 0 * r120 bus13_init * 2400)),
             Publish ''Vc'' (Cplx (Complex 3 0 * r120 bus13_init * r120 bus13_init * 2400))])"
proof (rule conjI)
  let ?sub = "stub_sub 0 (Complex 5000000 0)"
  let ?app = "const_solver (Complex 1.02 0)"
  have pre: "grant ?sub [] (grantedtime pf_init + period pf_init) = Inr 1
      \<and> complex_in ?sub ([] @ [RequestTime (grantedtime pf_init + period pf_init) 1])
           ''gpk_gld_right_fed/sa'' = Inr (Complex 5000000 0)
      \<and> ?app ([] @ [RequestTime (grantedtime pf_init + period pf_init) 1,
                    GetValue ''gpk_gld_right_fed/sa'' (Cplx (Complex 5000000 0))])
           ''app'' (voltage_pf pf_init) (Complex 5 0) = Inr (Complex 1.02 0)
      \<and> control ?sub ([] @ [RequestTime (grantedtime pf_init + period pf_init) 1,
                            GetValue ''gpk_gld_right_fed/sa'' (Cplx (Complex 5000000 0)),
                            Execute ''app'' (voltage_pf pf_init) (Complex 5 0) (Complex 1.02 0)])
           (Publish ''Vc'' (Cplx (Complex (1.02 * 69000) 0))) = None"
    by (simp add: stub_sub_def const_solver_def pf_init_def)
  note run = solver_adapter_scaling [where sub = "stub_sub 0 (Complex 5000000 0)"
      and app = "const_solver (Complex 1.02 0)" and s = pf_init and tr = "[]" and g = 1,
      THEN conjunct2, THEN conjunct1, THEN mp, OF pre]
  from solver_adapter_scaling [THEN conjunct1, THEN mp, OF run]
  have v: "voltage_pf (pf_init\<lparr>grantedtime := 1, Sa := Complex 5 0,
      voltage_pf := Complex 1.02 0\<rparr>) = Complex 1.02 0"
    by (auto simp: const_solver_def)
  have t: "[] @ [RequestTime (grantedtime pf_init + period pf_init) 1,
               GetValue ''gpk_gld_right_fed/sa'' (Cplx (Complex 5000000 0)),
               Execute ''app'' (voltage_pf pf_init) (Complex 5 0) (Complex 1.02 0),
               Publish ''Vc'' (Cplx (Complex (1.02 * 69000) 0))]
      = [RequestTime 1 1, GetValue ''gpk_gld_right_fed/sa'' (Cplx (Complex 5000000 0)),
         Execute ''app'' (Complex 1 0) (Complex 5 0) (Complex 1.02 0),
         Publish ''Vc'' (Cplx (Complex (1.02 * 69000) 0))]"
    by (simp add: pf_init_def)
  show "\<exists>s' tr'. pf_body ?sub ?app pf_init [] = (Inr s', tr')
    \<and> tr' = [RequestTime 1 1, GetValue ''gpk_gld_right_fed/sa'' (Cplx (Complex 5000000 0)),
             Execute ''app'' (Complex 1 0) (Complex 5 0) (Complex 1.02 0),
             Publish ''Vc'' (Cplx (Complex (1.02 * 69000) 0))]
    \<and> voltage_pf s' = Complex 1.02 0"
    apply (rule exI, rule exI, intro conjI)
      apply (rule run)
     apply (rule t)
    apply (rule v)
    done
next
  obtain b' tb' where run: "bus13_body phase_sub echo_solver bus13_init [] = (Inr b', tb')"
    by (rule that [OF bus13_phase_step])
  from solver_adapter_scaling [THEN conjunct2, THEN conjunct2, THEN mp, OF run]
  obtain g za zb zc va vb vc where
    g: "grant phase_sub [] (grantedtime bus13_init + period bus13_init) = Inr g"
    and za: "complex_in phase_sub ([] @ [RequestTime (grantedtime bus13_init + period bus13_init) g])
            ''gld_hlc_conn/Sa'' = Inr za"
    and zb: "complex_in phase_sub ([] @ [RequestTime (grantedtime bus13_init + period bus13_init) g,
                                GetValue ''gld_hlc_conn/Sa'' (Cplx za)])
            ''gld_hlc_conn/Sb'' = Inr zb"
    and zc: "complex_in phase_sub ([] @ [RequestTime (grantedtime bus13_init + period bus13_init) g,
                                GetValue ''gld_hlc_conn/Sa'' (Cplx za),
                                GetValue ''gld_hlc_conn/Sb'' (Cplx zb)])
            ''gld_hlc_conn/Sc'' = Inr zc"
    and va: "echo_solver ([] @ [RequestTime (grantedtime bus13_init + period bus13_init) g,
                     GetValue ''gld_hlc_conn/Sa'' (Cplx za),
                     GetValue ''gld_hlc_conn/Sb'' (Cplx zb),
                     GetValue ''gld_hlc_conn/Sc'' (Cplx zc)])
            ''app_A'' (Va bus13_init) (za / 100000000) = Inr va"
    and vb: "echo_solver ([] @ [RequestTime (grantedtime bus13_init + period bus13_init) g,
                     GetValue ''gld_hlc_conn/Sa'' (Cplx za),
                     GetValue ''gld_hlc_conn/Sb'' (Cplx zb),
                     GetValue ''gld_hlc_conn/Sc'' (Cplx zc),
                     Execute ''app_A'' (Va bus13_init) (za / 100000000) va])
            ''app_B'' (Vb bus13_init) (zb / 100000000) = Inr vb"
    and vc: "echo_solver ([] @ [RequestTime (grantedtime bus13_init + period bus13_init) g,
                     GetValue ''gld_hlc_conn/Sa'' (Cplx za),
                     GetValue ''gld_hlc_conn/Sb'' (Cplx zb),
                     GetValue ''gld_hlc_conn/Sc'' (Cplx zc),
                     Execute ''app_A'' (Va bus13_init) (za / 100000000) va,
                     Execute ''app_B'' (Vb bus13_init) (zb / 100000000) vb])
            ''app_C'' (Vc bus13_init) (zc / 100000000) = Inr vc"
    and tb': "tb' = [] @ [RequestTime (grantedtime bus13_init + period bus13_init) g,
                     GetValue ''gld_hlc_conn/Sa'' (Cplx za),
                     GetValue ''gld_hlc_conn/Sb'' (Cplx zb),
                     GetValue ''gld_hlc_conn/Sc'' (Cplx zc),
                     Execute ''app_A'' (Va bus13_init) (za / 100000000) va,
                     Execute ''app_B'' (Vb bus13_init) (zb / 100000000) vb,
                     Execute ''app_C'' (Vc bus13_init) (zc / 100000000) vc,
                     Publish ''Va'' (Cplx (va * 2400)),
                     Publish ''Vb'' (Cplx (vb * r120 bus13_init * 2400)),
                     Publish ''Vc'' (Cplx (vc * r120 bus13_init * r120 bus13_init * 2400))]"
    by (elim exE conjE)
  from g have g1: "g = 1" by (simp add: phase_sub_def bus13_init_def)
  from za have za1: "za = Complex 100000000 0" by (simp add: phase_sub_def complex_eq_iff)
  from zb have zb1: "zb = Complex 200000000 0" by (simp add: phase_sub_def complex_eq_iff)
  from zc have zc1: "zc = Complex 300000000 0" by (simp add: phase_sub_def complex_eq_iff)
  from va za1 have va1: "va = Complex 1 0" by (simp add: echo_solver_def complex_eq_iff)
  from vb zb1 have vb1: "vb = Complex 2 0" by (simp add: echo_solver_def complex_eq_iff)
  from vc zc1 have vc1: "vc = Complex 3 0" by (simp add: echo_solver_def complex_eq_iff)
  have d: "Complex 100000000 0 / 100000000 = Complex 1 0"
    "Complex 200000000 0 / 100000000 = Complex 2 0"
    "Complex 300000000 0 / 100000000 = Complex 3 0"
    by (simp_all add: complex_eq_iff)
  have t: "grantedtime bus13_init + period bus13_init = 1" by (simp add: bus13_init_def)
  from tb' have tb1: "tb' = [RequestTime 1 1,
             GetValue ''gld_hlc_conn/Sa'' (Cplx (Complex 100000000 0)),
             GetValue ''gld_hlc_conn/Sb'' (Cplx (Complex 200000000 0)),
             GetValue ''gld_hlc_conn/Sc'' (Cplx (Complex 300000000 0)),
             Execute ''app_A'' (Va bus13_init) (Complex 1 0) (Complex 1 0),
             Execute ''app_B'' (Vb bus13_init) (Complex 2 0) (Complex 2 0),
             Execute ''app_C'' (Vc bus13_init) (Complex 3 0) (Complex 3 0),
             Publish ''Va'' (Cplx (Complex 1 0 * 2400)),
             Publish ''Vb'' (Cplx (Complex 2 0 * r120 bus13_init * 2400)),
             Publish ''Vc'' (Cplx (Complex 3 0 * r120 bus13_init * r120 bus13_init * 2400))]"
    unfolding g1 za1 zb1 zc1 va1 vb1 vc1 d t by (simp only: append_Nil)
  show "\<exists>b' tb'.
      bus13_body phase_sub echo_solver bus13_init [] = (Inr b', tb')
    \<and> tb' = [RequestTime 1 1,
             GetValue ''gld_hlc_conn/Sa'' (Cplx (Complex 100000000 0)),
             GetValue ''gld_hlc_conn/Sb'' (Cplx (Complex 200000000 0)),
             GetValue ''gld_hlc_conn/Sc'' (Cplx (Complex 300000000 0)),
             Execute ''app_A'' (Va bus13_init) (Complex 1 0) (Complex 1 0),
             Execute ''app_B'' (Vb bus13_init) (Complex 2 0) (Complex 2 0),
             Execute ''app_C'' (Vc bus13_init) (Complex 3 0) (Complex 3 0),
             Publish ''Va'' (Cplx (Complex 1 0 * 2400)),
             Publish ''Vb'' (Cplx (Complex 2 0 * r120 bus13_init * 2400)),
             Publish ''Vc'' (Cplx (Complex 3 0 * r120 bus13_init * r120 bus13_init * 2400))]"
    apply (rule exI [of _ b'], rule exI [of _ tb'], rule conjI)
     apply (rule run)
    apply (rule tb1)
    done
qed

text \<open>
  C4 as stated fails for phases B and C of the three-phase adapter: the voltage that
  the solver returned is not what is multiplied by the base voltage. With a substrate
  that delivers the powers \<open>1e8\<close>, \<open>2e8\<close> and \<open>3e8\<close> and a solver that returns the power
  it is given, the solver returns 2 for phase B and 3 for phase C, and the published
  phase-B and phase-C voltages are not \<open>2 * 2400\<close> and \<open>3 * 2400\<close>.
\<close>

theorem solver_adapter_scaling_counterexample:
  "bus13_body phase_sub echo_solver bus13_init [] =
     (Inr (bus13_init\<lparr>grantedtime := 1, Sa := Complex 1 0, Sb := Complex 2 0, Sc := Complex 3 0,
             Va := Complex 1 0, Vb := Complex (- 1) (- 1.73205),
             Vc := Complex (- (2399996643 / 1600000000)) 2.598075\<rparr>),
      [RequestTime 1 1,
       GetValue ''gld_hlc_conn/Sa'' (Cplx (Complex 100000000 0)),
       GetValue ''gld_hlc_conn/Sb'' (Cplx (Complex 200000000 0)),
       GetValue ''gld_hlc_conn/Sc'' (Cplx (Complex 300000000 0)),
       Execute ''app_A'' (Complex 1 0) (Complex 1 0) (Complex 1 0),
       Execute ''app_B'' (Complex (- 0.5) (- 0.866025)) (Complex 2 0) (Complex 2 0),
       Execute ''app_C'' (Complex (- 0.5) 0.866025) (Complex 3 0) (Complex 3 0),
       Publish ''Va'' (Cplx (Complex 2400 0)),
       Publish ''Vb'' (Cplx (Complex (- 2400) (- 4156.92))),
       Publish ''Vc'' (Cplx (Complex (- (7199989929 / 2000000)) 6235.38))])
   \<and> Complex (- 2400) (- 4156.92) \<noteq> Complex 2 0 * 2400
   \<and> Complex (- (7199989929 / 2000000)) 6235.38 \<noteq> Complex 3 0 * 2400"
proof (intro conjI)
  show "Complex (- 2400) (- 4156.92) \<noteq> Complex 2 0 * 2400"
    by (simp add: complex_eq_iff)
  show "Complex (- (7199989929 / 2000000)) 6235.38 \<noteq> Complex 3 0 * 2400"
    by (simp add: complex_eq_iff)
qed (rule bus13_phase_step)

section \<open>The phase rotation of the three-phase adapter\<close>




section \<open>The order of calls\<close>

lemma capacitor_body_phase:
  assumes "capacitor_body sub s tr = (r, tr')" and "run_phase Outside tr = Some p"
    and "p = Outside \<or> p = Publishing"
  shows "\<exists>q. run_phase Outside tr' = Some q \<and> (\<forall>s'. r = Inr s' \<longrightarrow> q = Publishing)"
  using assms
  by (auto simp: capacitor_body_def act_defs Let_def run_phase_append
      split: sum.splits option.splits)

lemma inductor_body_phase:
  assumes "inductor_body sub s tr = (r, tr')" and "run_phase Outside tr = Some p"
    and "p = Outside \<or> p = Publishing"
  shows "\<exists>q. run_phase Outside tr' = Some q \<and> (\<forall>s'. r = Inr s' \<longrightarrow> q = Publishing)"
  using assms
  by (auto simp: inductor_body_def act_defs Let_def run_phase_append
      split: sum.splits option.splits)

lemma pf_body_phase:
  assumes "pf_body sub app s tr = (r, tr')" and "run_phase Outside tr = Some p"
    and "p = Outside \<or> p = Publishing"
  shows "\<exists>q. run_phase Outside tr' = Some q \<and> (\<forall>s'. r = Inr s' \<longrightarrow> q = Publishing)"
  using assms
  by (auto simp: pf_body_def act_defs Let_def run_phase_append
      split: sum.splits option.splits)

lemma bus13_body_phase:
  assumes "bus13_body sub app s tr = (r, tr')" and "run_phase Outside tr = Some p"
    and "p = Outside \<or> p = Publishing"
  shows "\<exists>q. run_phase Outside tr' = Some q \<and> (\<forall>s'. r = Inr s' \<longrightarrow> q = Publishing)"
  using assms
  by (auto simp: bus13_body_def act_defs Let_def run_phase_append
      split: sum.splits option.splits)

lemma gridpack_step_phase:
  assumes "gridpack_step sub t tr = (r, tr')" and "run_phase Outside tr = Some p"
    and "p = Outside \<or> p = Publishing"
  shows "\<exists>q. run_phase Outside tr' = Some q \<and> (\<forall>s'. r = Inr s' \<longrightarrow> q = Publishing)"
  using assms
  by (auto simp: gridpack_step_def act_defs Let_def run_phase_append
      split: sum.splits option.splits)

lemma loop_phase:
  assumes body: "\<And>s tr r tr' p. b s tr = (r, tr') \<Longrightarrow> run_phase Outside tr = Some p \<Longrightarrow>
      p = Outside \<or> p = Publishing \<Longrightarrow>
      \<exists>q. run_phase Outside tr' = Some q \<and> (\<forall>s'. r = Inr s' \<longrightarrow> q = Publishing)"
    and run: "while_fuel n c b s tr = Some (r, tr')"
    and init: "run_phase Outside tr = Some Outside"
  shows "\<exists>q. run_phase Outside tr' = Some q"
proof -
  let ?I = "\<lambda>(s1::'a) tr1. run_phase Outside tr1 = Some Outside
      \<or> run_phase Outside tr1 = Some Publishing"
  have step: "?I s2 tr2" if "?I s1 tr1" "b s1 tr1 = (Inr s2, tr2)" for s1 tr1 s2 tr2
    using that body [of s1 tr1 "Inr s2" tr2] by auto
  have i: "?I s tr" using init by simp
  show ?thesis
  proof (cases r)
    case (Inr s')
    from while_fuel_Inr [where I = ?I, OF run [unfolded Inr] i] step
    have "?I s' tr'" by blast
    then show ?thesis by auto
  next
    case (Inl e)
    from while_fuel_Inl [where I = ?I, OF run [unfolded Inl] i] step
    obtain s1 tr1 where "?I s1 tr1" "b s1 tr1 = (Inl e, tr')" by blast
    with body [of s1 tr1 "Inl e" tr'] show ?thesis by auto
  qed
qed

lemma main_causal:
  assumes main: "(case pre [] of
        (Inl e, tr) \<Rightarrow> Some (Uncaught e, tr)
      | (Inr u, tr) \<Rightarrow>
          (case loop tr of
             None \<Rightarrow> None
           | Some (Inl e, tr') \<Rightarrow> Some (Uncaught e, tr')
           | Some (Inr s, tr') \<Rightarrow>
               (case call sub Finalize tr' of
                  (Inl e, tr'') \<Rightarrow> Some (Uncaught e, tr'')
                | (Inr v, tr'') \<Rightarrow> Some (Returned 0, tr'')))) = Some (out, tr)"
    and pre: "\<And>r0 tr0. pre [] = (r0, tr0) \<Longrightarrow> run_phase Outside tr0 = Some Outside"
    and loop: "\<And>tr0 r1 tr1. run_phase Outside tr0 = Some Outside \<Longrightarrow> loop tr0 = Some (r1, tr1)
        \<Longrightarrow> \<exists>q. run_phase Outside tr1 = Some q"
  shows "causal tr"
proof -
  obtain r0 tr0 where p: "pre [] = (r0, tr0)" by (cases "pre []")
  note ph0 = pre [OF p]
  show ?thesis
  proof (cases r0)
    case (Inl e)
    with main p ph0 show ?thesis by (simp add: causal_def)
  next
    case (Inr u)
    show ?thesis
    proof (cases "loop tr0")
      case None
      with main p Inr show ?thesis by simp
    next
      case (Some a)
      obtain r1 tr1 where a: "a = (r1, tr1)" by (cases a)
      from loop [OF ph0 Some [unfolded a]] obtain q where q: "run_phase Outside tr1 = Some q"
        by blast
      show ?thesis
      proof (cases r1)
        case (Inl e)
        with main p Inr Some a q show ?thesis by (simp add: causal_def)
      next
        case r1: (Inr s1)
        with main p Inr Some a q show ?thesis
          by (auto simp: causal_def call_def run_phase_append split: option.splits)
      qed
    qed
  qed
qed

lemma capacitor_main_causal: "capacitor_main n sub = Some (out, tr) \<Longrightarrow> causal tr"
proof (rule main_causal [where loop = "capacitor_loop n sub capacitor_init" and sub = sub],
    unfold capacitor_main_def, assumption)
  fix r0 tr0
  assume "bnd (call sub (Create ''Capacitor'')) (\<lambda>_.
           bnd (call sub (RegisterPublication ''Vc'')) (\<lambda>_.
           bnd (call sub (RegisterSubscription ''Inductor/Il'')) (\<lambda>_.
           bnd (call sub EnterExecutingMode) (\<lambda>_.
           publish sub ''Vc'' (Dbl (last (voltage capacitor_init))))))) [] = (r0, tr0)"
  then show "run_phase Outside tr0 = Some Outside"
    by (auto simp: act_defs split: option.splits)
next
  fix tr0 r1 tr1
  assume ph: "run_phase Outside tr0 = Some Outside"
    and run: "capacitor_loop n sub capacitor_init tr0 = Some (r1, tr1)"
  show "\<exists>q. run_phase Outside tr1 = Some q"
    by (rule loop_phase [where b = "capacitor_body sub",
          OF capacitor_body_phase run [unfolded capacitor_loop_def] ph])
qed

lemma inductor_main_causal: "inductor_main n sub = Some (out, tr) \<Longrightarrow> causal tr"
proof (rule main_causal [where loop = "inductor_loop n sub inductor_init" and sub = sub],
    unfold inductor_main_def, assumption)
  fix r0 tr0
  assume "bnd (call sub (Create ''Inductor'')) (\<lambda>_.
           bnd (call sub (RegisterPublication ''Il'')) (\<lambda>_.
           bnd (call sub (RegisterSubscription ''Capacitor/Vc'')) (\<lambda>_.
           bnd (call sub EnterExecutingMode) (\<lambda>_.
           publish sub ''Il'' (Dbl (last (current inductor_init))))))) [] = (r0, tr0)"
  then show "run_phase Outside tr0 = Some Outside"
    by (auto simp: act_defs split: option.splits)
next
  fix tr0 r1 tr1
  assume ph: "run_phase Outside tr0 = Some Outside"
    and run: "inductor_loop n sub inductor_init tr0 = Some (r1, tr1)"
  show "\<exists>q. run_phase Outside tr1 = Some q"
    by (rule loop_phase [where b = "inductor_body sub",
          OF inductor_body_phase run [unfolded inductor_loop_def] ph])
qed

lemma pf_main_causal: "pf_main n sub app = Some (out, tr) \<Longrightarrow> causal tr"
proof (rule main_causal [where loop = "pf_loop n sub app pf_init" and sub = sub],
    unfold pf_main_def, assumption)
  fix r0 tr0
  assume "bnd (call sub (Create ''gpk-left-fed'')) (\<lambda>_.
           bnd (call sub (RegisterPublication ''Vc'')) (\<lambda>_.
           bnd (call sub (RegisterSubscription ''gpk_gld_right_fed/sa'')) (\<lambda>_.
           bnd (call sub EnterExecutingMode) (\<lambda>_.
           publish sub ''Vc'' (Cplx (voltage_pf pf_init * 69000)))))) [] = (r0, tr0)"
  then show "run_phase Outside tr0 = Some Outside"
    by (auto simp: act_defs split: option.splits)
next
  fix tr0 r1 tr1
  assume ph: "run_phase Outside tr0 = Some Outside"
    and run: "pf_loop n sub app pf_init tr0 = Some (r1, tr1)"
  show "\<exists>q. run_phase Outside tr1 = Some q"
    by (rule loop_phase [where b = "pf_body sub app",
          OF pf_body_phase run [unfolded pf_loop_def] ph])
qed

lemma bus13_main_causal: "bus13_main n sub app = Some (out, tr) \<Longrightarrow> causal tr"
proof (rule main_causal [where loop = "bus13_loop n sub app bus13_init" and sub = sub],
    unfold bus13_main_def, assumption)
  fix r0 tr0
  assume "bnd (call sub (Create ''gridpack'')) (\<lambda>_.
           bnd (call sub (RegisterPublication ''Va'')) (\<lambda>_.
           bnd (call sub (RegisterPublication ''Vb'')) (\<lambda>_.
           bnd (call sub (RegisterPublication ''Vc'')) (\<lambda>_.
           bnd (call sub (RegisterSubscription ''gld_hlc_conn/Sa'')) (\<lambda>_.
           bnd (call sub (RegisterSubscription ''gld_hlc_conn/Sb'')) (\<lambda>_.
           bnd (call sub (RegisterSubscription ''gld_hlc_conn/Sc'')) (\<lambda>_.
           bnd (call sub EnterExecutingMode) (\<lambda>_.
           bnd (publish sub ''Va'' (Cplx (Va bus13_init * 2401.78))) (\<lambda>_.
           bnd (publish sub ''Vb'' (Cplx (Vb bus13_init * 2401.78))) (\<lambda>_.
           publish sub ''Vc'' (Cplx (Vc bus13_init * 2401.78)))))))))))) [] = (r0, tr0)"
  then show "run_phase Outside tr0 = Some Outside"
    by (auto simp: act_defs split: option.splits)
next
  fix tr0 r1 tr1
  assume ph: "run_phase Outside tr0 = Some Outside"
    and run: "bus13_loop n sub app bus13_init tr0 = Some (r1, tr1)"
  show "\<exists>q. run_phase Outside tr1 = Some q"
    by (rule loop_phase [where b = "bus13_body sub app",
          OF bus13_body_phase run [unfolded bus13_loop_def] ph])
qed

lemma gridpack_for_phase:
  "gridpack_for sub t tr = (r, tr') \<Longrightarrow> run_phase Outside tr = Some p \<Longrightarrow>
   p = Outside \<or> p = Publishing \<Longrightarrow>
   \<exists>q. run_phase Outside tr' = Some q \<and> (r = Inr () \<longrightarrow> q = Outside \<or> q = Publishing)"
proof (induction sub t tr arbitrary: p rule: gridpack_for.induct)
  case (1 sub t tr)
  show ?case
  proof (cases "t < 10")
    case False
    with "1.prems" show ?thesis by (simp add: gridpack_for.simps [of sub t tr])
  next
    case True
    obtain r1 tr1 where st: "gridpack_step sub t tr = (r1, tr1)"
      by (cases "gridpack_step sub t tr")
    from gridpack_step_phase [OF st "1.prems"(2,3)] obtain q where
      q: "run_phase Outside tr1 = Some q" "\<forall>s'. r1 = Inr s' \<longrightarrow> q = Publishing"
      by blast
    show ?thesis
    proof (cases r1)
      case (Inl e)
      with True st "1.prems"(1) q show ?thesis
        by (simp add: gridpack_for.simps [of sub t tr])
    next
      case (Inr u)
      with True st "1.prems"(1) have rec: "gridpack_for sub (t + 1) tr1 = (r, tr')"
        by (simp add: gridpack_for.simps [of sub t tr])
      from q Inr have "run_phase Outside tr1 = Some Publishing" by simp
      from "1.IH" [OF True st [symmetric] _ rec this] Inr show ?thesis
        by simp
    qed
  qed
qed

lemma gridpack_main_causal: "causal (snd (gridpack_main sub))"
proof -
  obtain r tr where t: "gridpack_try sub [] = (r, tr)" by (cases "gridpack_try sub []")
  have "\<exists>q. run_phase Outside tr = Some q"
    using t
    by (auto simp: gridpack_try_def act_defs run_phase_append
        split: option.splits sum.splits prod.splits dest!: gridpack_for_phase)
  moreover have "snd (gridpack_main sub) = tr"
    using t by (simp add: gridpack_main_def split: sum.splits exn.splits)
  ultimately show ?thesis by (simp add: causal_def)
qed

lemma causal_rejects:
  "\<not> causal [GetValue k v]"
  "\<not> causal [RequestTime t g, Publish k v]"
  "\<not> causal [RequestTime t g, GetValue k v, Publish k' v', GetValue k v]"
  "\<not> causal [RequestTime t g, Execute a z z' z'']"
  by (simp_all add: causal_def)

text \<open>
  C6. In every run of every federate, whether \<open>main\<close> returns or an exception ends
  it, the calls that returned are in causal order: in each pass through the simulation
  loop the subscriptions are read only after the time grant of that pass and before
  any publication of that pass, and no pass publishes before it has read. This holds
  for the capacitor and inductor federates, for both solver adapters (where the solver
  runs between the reads and the publications) and for the simple-cosim federate.
\<close>

theorem reads_after_grant_before_publish:
  "(capacitor_main n sub = Some (out, tr) \<longrightarrow> causal tr)
   \<and> (inductor_main n sub = Some (out, tr) \<longrightarrow> causal tr)
   \<and> (pf_main n sub app = Some (out, tr) \<longrightarrow> causal tr)
   \<and> (bus13_main n sub app = Some (out, tr) \<longrightarrow> causal tr)
   \<and> causal (snd (gridpack_main sub))"
  using capacitor_main_causal inductor_main_causal pf_main_causal bus13_main_causal
    gridpack_main_causal
  by blast

theorem reads_after_grant_before_publish_witness:
  "\<exists>o1 t1 o2 t2 o3 t3 o4 t4.
     capacitor_main 2 (faulty_sub (HelicsException ''peer left'')) = Some (o1, t1) \<and> causal t1
   \<and> inductor_main 2 (faulty_sub (HelicsException ''peer left'')) = Some (o2, t2) \<and> causal t2
   \<and> pf_main 10 (stub_sub 0 (Complex 5000000 0)) (const_solver (Complex 1.02 0)) = Some (o3, t3)
   \<and> causal t3
   \<and> bus13_main 10 (stub_sub 0 (Complex 100000000 0)) (const_solver 1) = Some (o4, t4)
   \<and> causal t4"
proof -
  from lc_faulty_mains(1) obtain o1 t1 where
    r1: "capacitor_main 2 (faulty_sub (HelicsException ''peer left'')) = Some (o1, t1)"
    by (cases "capacitor_main 2 (faulty_sub (HelicsException ''peer left''))") auto
  from lc_faulty_mains(2) obtain o2 t2 where
    r2: "inductor_main 2 (faulty_sub (HelicsException ''peer left'')) = Some (o2, t2)"
    by (cases "inductor_main 2 (faulty_sub (HelicsException ''peer left''))") auto
  from gpk_stub_mains(1) obtain o3 t3 where
    r3: "pf_main 10 (stub_sub 0 (Complex 5000000 0)) (const_solver (Complex 1.02 0)) = Some (o3, t3)"
    by (cases "pf_main 10 (stub_sub 0 (Complex 5000000 0)) (const_solver (Complex 1.02 0))") auto
  from gpk_stub_mains(2) obtain o4 t4 where
    r4: "bus13_main 10 (stub_sub 0 (Complex 100000000 0)) (const_solver 1) = Some (o4, t4)"
    by (cases "bus13_main 10 (stub_sub 0 (Complex 100000000 0)) (const_solver 1)") auto
  note rap = reads_after_grant_before_publish
  from rap [THEN conjunct1, rule_format, OF r1]
    rap [THEN conjunct2, THEN conjunct1, rule_format, OF r2]
    rap [THEN conjunct2, THEN conjunct2, THEN conjunct1, rule_format, OF r3]
    rap [THEN conjunct2, THEN conjunct2, THEN conjunct2, THEN conjunct1, rule_format, OF r4]
    r1 r2 r3 r4
  show ?thesis by blast
qed

section \<open>The simulation clock\<close>

lemma clock_run:
  fixes b :: "'a clock_scheme \<Rightarrow> 'a clock_scheme act"
  assumes body: "\<And>s1 tr1 s2 tr2. b s1 tr1 = (Inr s2, tr2) \<Longrightarrow>
      \<exists>es. tr2 = tr1 @ es \<and> requests es = [(grantedtime s1 + period s1, grantedtime s2)]
        \<and> period s2 = period s1 \<and> total_interval s2 = total_interval s1"
    and run: "while_fuel n (\<lambda>s. grantedtime s < total_interval s) b s tr = Some (Inr s', tr')"
  shows "grantedtime s' = last (grantedtime s # grants (drop (length tr) tr'))
     \<and> map fst (requests (drop (length tr) tr'))
         = map (\<lambda>c. c + period s) (butlast (grantedtime s # grants (drop (length tr) tr')))
     \<and> (\<forall>c \<in> set (butlast (grantedtime s # grants (drop (length tr) tr'))).
           c < total_interval s)
     \<and> total_interval s \<le> grantedtime s'
     \<and> ((\<forall>(c, g) \<in> set (zip (butlast (grantedtime s # grants (drop (length tr) tr')))
                              (grants (drop (length tr) tr'))). c \<le> g) \<longrightarrow>
          sorted (grantedtime s # grants (drop (length tr) tr')))"
proof -
  from clock_loop [of b, OF body run] obtain es where tr': "tr' = tr @ es"
    and ch: "map fst (requests es) = map (\<lambda>c. c + period s) (butlast (grantedtime s # grants es))"
    and fin: "grantedtime s' = last (grantedtime s # grants es)"
    and below: "\<forall>c \<in> set (butlast (grantedtime s # grants es)). c < total_interval s"
    and ge: "total_interval s \<le> grantedtime s'"
    by blast
  from tr' have es: "drop (length tr) tr' = es" by simp
  have mono: "(\<forall>(c, g) \<in> set (zip (butlast (grantedtime s # grants es)) (grants es)). c \<le> g)
      \<longrightarrow> sorted (grantedtime s # grants es)"
    by (rule impI) (erule sorted_chain)
  show ?thesis
    unfolding es
    by (rule conjI [OF fin conjI [OF ch conjI [OF below conjI [OF ge mono]]]])
qed

text \<open>
  C7, as the code has it. In one pass through the loop body of the capacitor federate,
  or of the single-phase solver adapter, that raises nothing, the clock \<open>grantedtime\<close>
  becomes the time that the substrate granted to the request for the clock plus
  \<open>period\<close>, and \<open>period\<close> and the horizon \<open>total_interval\<close> stay as they are. So in a
  run of the loop that ends normally the clock takes the granted times one after the
  other and nothing else: the final time is the last grant (the start time when there
  was no pass), each request was made for the clock plus \<open>period\<close>, and every time that
  the clock had before the last one was below the horizon. The final time is at least
  the horizon; nothing keeps it from being later. When each grant is no earlier than
  the time the clock had at the request, the clock never decreases.
\<close>

theorem clock_advances_by_grants:
  "(capacitor_body sub s tr = (Inr s1, tr1) \<longrightarrow>
      (\<exists>g. grant sub tr (grantedtime s + period s) = Inr g \<and> grantedtime s1 = g
         \<and> period s1 = period s \<and> total_interval s1 = total_interval s))
   \<and> (capacitor_loop n sub s tr = Some (Inr s', tr') \<longrightarrow>
        grantedtime s' = last (grantedtime s # grants (drop (length tr) tr'))
      \<and> map fst (requests (drop (length tr) tr'))
          = map (\<lambda>c. c + period s) (butlast (grantedtime s # grants (drop (length tr) tr')))
      \<and> (\<forall>c \<in> set (butlast (grantedtime s # grants (drop (length tr) tr'))).
            c < total_interval s)
      \<and> total_interval s \<le> grantedtime s'
      \<and> ((\<forall>(c, g) \<in> set (zip (butlast (grantedtime s # grants (drop (length tr) tr')))
                               (grants (drop (length tr) tr'))). c \<le> g) \<longrightarrow>
           sorted (grantedtime s # grants (drop (length tr) tr'))))
   \<and> (pf_body sub app p tp = (Inr p1, tp1) \<longrightarrow>
      (\<exists>g. grant sub tp (grantedtime p + period p) = Inr g \<and> grantedtime p1 = g
         \<and> period p1 = period p \<and> total_interval p1 = total_interval p))
   \<and> (pf_loop n sub app p tp = Some (Inr p', tp') \<longrightarrow>
        grantedtime p' = last (grantedtime p # grants (drop (length tp) tp'))
      \<and> map fst (requests (drop (length tp) tp'))
          = map (\<lambda>c. c + period p) (butlast (grantedtime p # grants (drop (length tp) tp')))
      \<and> (\<forall>c \<in> set (butlast (grantedtime p # grants (drop (length tp) tp'))).
            c < total_interval p)
      \<and> total_interval p \<le> grantedtime p'
      \<and> ((\<forall>(c, g) \<in> set (zip (butlast (grantedtime p # grants (drop (length tp) tp')))
                               (grants (drop (length tp) tp'))). c \<le> g) \<longrightarrow>
           sorted (grantedtime p # grants (drop (length tp) tp'))))"
proof -
  have 1: "capacitor_body sub s tr = (Inr s1, tr1) \<longrightarrow>
      (\<exists>g. grant sub tr (grantedtime s + period s) = Inr g \<and> grantedtime s1 = g
         \<and> period s1 = period s \<and> total_interval s1 = total_interval s)"
  proof
    assume "capacitor_body sub s tr = (Inr s1, tr1)"
    from capacitor_body_Inr [OF this]
    show "\<exists>g. grant sub tr (grantedtime s + period s) = Inr g \<and> grantedtime s1 = g
         \<and> period s1 = period s \<and> total_interval s1 = total_interval s"
      by fastforce
  qed
  have cbody: "\<exists>es. tr2 = tr1 @ es \<and> requests es = [(grantedtime s1 + period s1, grantedtime s2)]
        \<and> period s2 = period s1 \<and> total_interval s2 = total_interval s1"
    if "capacitor_body sub s1 tr1 = (Inr s2, tr2)" for s1 tr1 s2 tr2
    using capacitor_body_Inr [OF that] by fastforce
  have 2: "capacitor_loop n sub s tr = Some (Inr s', tr') \<longrightarrow>
        grantedtime s' = last (grantedtime s # grants (drop (length tr) tr'))
      \<and> map fst (requests (drop (length tr) tr'))
          = map (\<lambda>c. c + period s) (butlast (grantedtime s # grants (drop (length tr) tr')))
      \<and> (\<forall>c \<in> set (butlast (grantedtime s # grants (drop (length tr) tr'))).
            c < total_interval s)
      \<and> total_interval s \<le> grantedtime s'
      \<and> ((\<forall>(c, g) \<in> set (zip (butlast (grantedtime s # grants (drop (length tr) tr')))
                               (grants (drop (length tr) tr'))). c \<le> g) \<longrightarrow>
           sorted (grantedtime s # grants (drop (length tr) tr')))"
  proof
    assume "capacitor_loop n sub s tr = Some (Inr s', tr')"
    then have run: "while_fuel n (\<lambda>s. grantedtime s < total_interval s) (capacitor_body sub) s tr
        = Some (Inr s', tr')"
      by (simp only: capacitor_loop_def)
    show "grantedtime s' = last (grantedtime s # grants (drop (length tr) tr'))
      \<and> map fst (requests (drop (length tr) tr'))
          = map (\<lambda>c. c + period s) (butlast (grantedtime s # grants (drop (length tr) tr')))
      \<and> (\<forall>c \<in> set (butlast (grantedtime s # grants (drop (length tr) tr'))).
            c < total_interval s)
      \<and> total_interval s \<le> grantedtime s'
      \<and> ((\<forall>(c, g) \<in> set (zip (butlast (grantedtime s # grants (drop (length tr) tr')))
                               (grants (drop (length tr) tr'))). c \<le> g) \<longrightarrow>
           sorted (grantedtime s # grants (drop (length tr) tr')))"
      by (rule clock_run [of "capacitor_body sub", OF cbody run])
  qed
  have 3: "pf_body sub app p tp = (Inr p1, tp1) \<longrightarrow>
      (\<exists>g. grant sub tp (grantedtime p + period p) = Inr g \<and> grantedtime p1 = g
         \<and> period p1 = period p \<and> total_interval p1 = total_interval p)"
  proof
    assume "pf_body sub app p tp = (Inr p1, tp1)"
    from pf_body_calls [OF this]
    show "\<exists>g. grant sub tp (grantedtime p + period p) = Inr g \<and> grantedtime p1 = g
         \<and> period p1 = period p \<and> total_interval p1 = total_interval p"
      by fastforce
  qed
  have pbody: "\<exists>es. tr2 = tr1 @ es \<and> requests es = [(grantedtime s1 + period s1, grantedtime s2)]
        \<and> period s2 = period s1 \<and> total_interval s2 = total_interval s1"
    if "pf_body sub app s1 tr1 = (Inr s2, tr2)" for s1 tr1 s2 tr2
    using pf_body_Inr [OF that] by fastforce
  have 4: "pf_loop n sub app p tp = Some (Inr p', tp') \<longrightarrow>
        grantedtime p' = last (grantedtime p # grants (drop (length tp) tp'))
      \<and> map fst (requests (drop (length tp) tp'))
          = map (\<lambda>c. c + period p) (butlast (grantedtime p # grants (drop (length tp) tp')))
      \<and> (\<forall>c \<in> set (butlast (grantedtime p # grants (drop (length tp) tp'))).
            c < total_interval p)
      \<and> total_interval p \<le> grantedtime p'
      \<and> ((\<forall>(c, g) \<in> set (zip (butlast (grantedtime p # grants (drop (length tp) tp')))
                               (grants (drop (length tp) tp'))). c \<le> g) \<longrightarrow>
           sorted (grantedtime p # grants (drop (length tp) tp')))"
  proof
    assume "pf_loop n sub app p tp = Some (Inr p', tp')"
    then have run: "while_fuel n (\<lambda>s. grantedtime s < total_interval s) (pf_body sub app) p tp
        = Some (Inr p', tp')"
      by (simp only: pf_loop_def)
    show "grantedtime p' = last (grantedtime p # grants (drop (length tp) tp'))
      \<and> map fst (requests (drop (length tp) tp'))
          = map (\<lambda>c. c + period p) (butlast (grantedtime p # grants (drop (length tp) tp')))
      \<and> (\<forall>c \<in> set (butlast (grantedtime p # grants (drop (length tp) tp'))).
            c < total_interval p)
      \<and> total_interval p \<le> grantedtime p'
      \<and> ((\<forall>(c, g) \<in> set (zip (butlast (grantedtime p # grants (drop (length tp) tp')))
                               (grants (drop (length tp) tp'))). c \<le> g) \<longrightarrow>
           sorted (grantedtime p # grants (drop (length tp) tp')))"
      by (rule clock_run [of "pf_body sub app", OF pbody run])
  qed
  show ?thesis
    by (rule conjI [OF 1 conjI [OF 2 conjI [OF 3 4]]])
qed

theorem clock_advances_by_grants_witness:
  "\<exists>s1 tr1 s' tr' p1 tp1 p' tp'.
     capacitor_body (early_sub (1 / 20000) 1) capacitor_init [] = (Inr s1, tr1)
   \<and> grant (early_sub (1 / 20000) 1) [] (1 / 10000) = Inr (1 / 20000)
   \<and> grantedtime s1 = 1 / 20000
   \<and> capacitor_loop 2 (scripted_sub [0, 1 / 10000] 1 0)
        (capacitor_init\<lparr>total_interval := 1 / 10000\<rparr>) [] = Some (Inr s', tr')
   \<and> requests tr' = [(1 / 10000, 0), (1 / 10000, 1 / 10000)]
   \<and> grantedtime s' = 1 / 10000
   \<and> total_interval (capacitor_init\<lparr>total_interval := 1 / 10000\<rparr>) \<le> grantedtime s'
   \<and> sorted (grantedtime (capacitor_init\<lparr>total_interval := 1 / 10000\<rparr>) # grants tr')
   \<and> pf_body late_sub (const_solver 1) pf_init [] = (Inr p1, tp1)
   \<and> grant late_sub [] 1 = Inr (1 / 2)
   \<and> grantedtime p1 = 1 / 2
   \<and> pf_loop 11 late_sub (const_solver 1) pf_init [] = Some (Inr p', tp')
   \<and> requests tp' =
       [(1, 1 / 2), (3 / 2, 3 / 2), (5 / 2, 5 / 2), (7 / 2, 7 / 2), (9 / 2, 9 / 2),
        (11 / 2, 11 / 2), (13 / 2, 13 / 2), (15 / 2, 15 / 2), (17 / 2, 17 / 2),
        (19 / 2, 19 / 2), (21 / 2, 21 / 2)]
   \<and> grantedtime p' = 21 / 2
   \<and> total_interval pf_init \<le> grantedtime p'
   \<and> sorted (grantedtime pf_init # grants tp')"
proof -
  let ?c = "capacitor_init\<lparr>total_interval := 1 / 10000\<rparr>"
  obtain s1 tr1 where c1: "capacitor_body (early_sub (1 / 20000) 1) capacitor_init [] = (Inr s1, tr1)"
    by (rule that [OF capacitor_short_step])
  obtain p1 tp1 where p1: "pf_body late_sub (const_solver 1) pf_init [] = (Inr p1, tp1)"
    by (rule that [OF pf_late_step])
  from capacitor_script_run obtain s' tr' where
    c2: "capacitor_loop 2 (scripted_sub [0, 1 / 10000] 1 0) ?c [] = Some (Inr s', tr')"
    and ctr: "requests tr' = [(1 / 10000, 0), (1 / 10000, 1 / 10000)]"
    by blast
  from pf_late_loop obtain p' tp' where
    p2: "pf_loop 11 late_sub (const_solver 1) pf_init [] = Some (Inr p', tp')"
    and ptr: "requests tp' =
       [(1, 1 / 2), (3 / 2, 3 / 2), (5 / 2, 5 / 2), (7 / 2, 7 / 2), (9 / 2, 9 / 2),
        (11 / 2, 11 / 2), (13 / 2, 13 / 2), (15 / 2, 15 / 2), (17 / 2, 17 / 2),
        (19 / 2, 19 / 2), (21 / 2, 21 / 2)]"
    by blast
  note cag = clock_advances_by_grants
  have cg: "grant (early_sub (1 / 20000) 1) [] (1 / 10000) = Inr (1 / 20000)"
    by (simp add: early_sub_def)
  have pg: "grant late_sub [] 1 = Inr (1 / 2)"
    by (simp add: late_sub_def)
  from cag [THEN conjunct1, THEN mp, OF c1] cg
  have r1: "grantedtime s1 = 1 / 20000"
    by (auto simp: capacitor_init_def)
  note l2 = cag [THEN conjunct2, THEN conjunct1, THEN mp, OF c2]
  have cgr: "grants tr' = [0, 1 / 10000]"
    by (simp add: grants_def ctr)
  from l2 [THEN conjunct1] have r2: "grantedtime s' = 1 / 10000"
    by (simp add: cgr)
  from l2 [THEN conjunct2, THEN conjunct2, THEN conjunct2, THEN conjunct1]
  have r3: "total_interval ?c \<le> grantedtime s'" .
  have cm: "\<forall>(c, g) \<in> set (zip (butlast (grantedtime ?c # grants (drop (length ([]::event list)) tr')))
        (grants (drop (length ([]::event list)) tr'))). c \<le> g"
    by (simp add: cgr capacitor_init_def)
  from l2 [THEN conjunct2, THEN conjunct2, THEN conjunct2, THEN conjunct2, THEN mp, OF cm]
  have r4: "sorted (grantedtime ?c # grants tr')" by simp
  from cag [THEN conjunct2, THEN conjunct2, THEN conjunct1, THEN mp, OF p1] pg
  have r5: "grantedtime p1 = 1 / 2"
    by (auto simp: pf_init_def)
  note l4 = cag [THEN conjunct2, THEN conjunct2, THEN conjunct2, THEN mp, OF p2]
  have pgr: "grants tp' =
      [1 / 2, 3 / 2, 5 / 2, 7 / 2, 9 / 2, 11 / 2, 13 / 2, 15 / 2, 17 / 2, 19 / 2, 21 / 2]"
    by (simp add: grants_def ptr)
  from l4 [THEN conjunct1] have r6: "grantedtime p' = 21 / 2"
    by (simp add: pgr)
  from l4 [THEN conjunct2, THEN conjunct2, THEN conjunct2, THEN conjunct1]
  have r7: "total_interval pf_init \<le> grantedtime p'" .
  have pm: "\<forall>(c, g) \<in> set (zip (butlast (grantedtime pf_init # grants (drop (length ([]::event list)) tp')))
        (grants (drop (length ([]::event list)) tp'))). c \<le> g"
    by (simp add: pgr pf_init_def)
  from l4 [THEN conjunct2, THEN conjunct2, THEN conjunct2, THEN conjunct2, THEN mp, OF pm]
  have r8: "sorted (grantedtime pf_init # grants tp')" by simp
  show ?thesis
    apply (rule exI [of _ s1], rule exI [of _ tr1], rule exI [of _ s'], rule exI [of _ tr'])
    apply (rule exI [of _ p1], rule exI [of _ tp1], rule exI [of _ p'], rule exI [of _ tp'])
    apply (intro conjI)
                   apply (rule c1)
                  apply (rule cg)
                 apply (rule r1)
                apply (rule c2)
               apply (rule ctr)
              apply (rule r2)
             apply (rule r3)
            apply (rule r4)
           apply (rule p1)
          apply (rule pg)
         apply (rule r5)
        apply (rule p2)
       apply (rule ptr)
      apply (rule r6)
     apply (rule r7)
    apply (rule r8)
    done
qed

text \<open>
  C7 as stated fails: the final time can exceed the horizon. In the single-phase solver
  adapter (period 1, horizon 10), when the first grant is half a second short and
  every later grant is the time requested, each grant is later than the one before and
  no later than the request, and the loop ends at time 10.5.
\<close>

theorem clock_advances_by_grants_counterexample:
  "map_option (map_prod (map_sum id grantedtime) requests)
     (pf_loop 11 late_sub (const_solver 1) pf_init []) =
   Some (Inr (21 / 2),
     [(1, 1 / 2), (3 / 2, 3 / 2), (5 / 2, 5 / 2), (7 / 2, 7 / 2), (9 / 2, 9 / 2),
      (11 / 2, 11 / 2), (13 / 2, 13 / 2), (15 / 2, 15 / 2), (17 / 2, 17 / 2),
      (19 / 2, 19 / 2), (21 / 2, 21 / 2)])
   \<and> total_interval pf_init < 21 / 2"
proof (rule conjI)
  show "total_interval pf_init < 21 / 2" by (simp add: pf_init_def)
qed (rule pf_late_run)

section \<open>A step without progress\<close>

text \<open>
  C8, as the code has it. A pass of the capacitor federate in which the substrate
  grants the time the federate already has, so that no time has elapsed, is carried out
  like any other and is not an error: when the substrate delivers the inductor current
  \<open>x\<close> and accepts the publication, the body returns with the clock unchanged, and the
  voltage it appends and publishes is the previous one plus \<open>(-1/C) * x * period\<close>, the
  increment of a full nominal period. Conversely, every pass that returns with the
  clock unchanged has appended this value for the current the substrate delivered. The
  value appended need not be the previous voltage.
\<close>

theorem zero_progress_step:
  "(grant sub tr (grantedtime s + period s) = Inr (grantedtime s)
      \<and> double_in sub (tr @ [RequestTime (grantedtime s + period s) (grantedtime s)])
           ''Inductor/Il'' = Inr x
      \<and> control sub (tr @ [RequestTime (grantedtime s + period s) (grantedtime s),
                            GetValue ''Inductor/Il'' (Dbl x)])
           (Publish ''Vc'' (Dbl (advance_capacitor (last (voltage s)) x (period s) (c_value s))))
          = None
      \<and> voltage s \<noteq> [] \<longrightarrow>
      (\<exists>s1. capacitor_body sub s tr =
           (Inr s1, tr @ [RequestTime (grantedtime s + period s) (grantedtime s),
                          GetValue ''Inductor/Il'' (Dbl x),
                          Publish ''Vc''
                            (Dbl (advance_capacitor (last (voltage s)) x (period s) (c_value s)))])
         \<and> grantedtime s1 = grantedtime s
         \<and> voltage s1
             = voltage s @ [advance_capacitor (last (voltage s)) x (period s) (c_value s)]))
   \<and> (capacitor_body sub s tr = (Inr s', tr') \<and> grantedtime s' = grantedtime s
      \<and> voltage s \<noteq> [] \<longrightarrow>
      (\<exists>x. grant sub tr (grantedtime s + period s) = Inr (grantedtime s)
         \<and> double_in sub (tr @ [RequestTime (grantedtime s + period s) (grantedtime s)])
              ''Inductor/Il'' = Inr x
         \<and> last (voltage s') = advance_capacitor (last (voltage s)) x (period s) (c_value s)))"
proof -
  have 1: "grant sub tr (grantedtime s + period s) = Inr (grantedtime s)
      \<and> double_in sub (tr @ [RequestTime (grantedtime s + period s) (grantedtime s)])
           ''Inductor/Il'' = Inr x
      \<and> control sub (tr @ [RequestTime (grantedtime s + period s) (grantedtime s),
                            GetValue ''Inductor/Il'' (Dbl x)])
           (Publish ''Vc'' (Dbl (advance_capacitor (last (voltage s)) x (period s) (c_value s))))
          = None
      \<and> voltage s \<noteq> [] \<longrightarrow>
      (\<exists>s1. capacitor_body sub s tr =
           (Inr s1, tr @ [RequestTime (grantedtime s + period s) (grantedtime s),
                          GetValue ''Inductor/Il'' (Dbl x),
                          Publish ''Vc''
                            (Dbl (advance_capacitor (last (voltage s)) x (period s) (c_value s)))])
         \<and> grantedtime s1 = grantedtime s
         \<and> voltage s1
             = voltage s @ [advance_capacitor (last (voltage s)) x (period s) (c_value s)])"
  proof
    assume a: "grant sub tr (grantedtime s + period s) = Inr (grantedtime s)
      \<and> double_in sub (tr @ [RequestTime (grantedtime s + period s) (grantedtime s)])
           ''Inductor/Il'' = Inr x
      \<and> control sub (tr @ [RequestTime (grantedtime s + period s) (grantedtime s),
                            GetValue ''Inductor/Il'' (Dbl x)])
           (Publish ''Vc'' (Dbl (advance_capacitor (last (voltage s)) x (period s) (c_value s))))
          = None
      \<and> voltage s \<noteq> []"
    from a have c: "control sub (tr @ [RequestTime (grantedtime s + period s) (grantedtime s),
                            GetValue ''Inductor/Il'' (Dbl x)])
           (Publish ''Vc'' (Dbl (last (voltage s) + (- 1 / c_value s) * x * period s))) = None"
      by (simp add: advance_capacitor_def)
    from capacitor_body_ok [OF a [THEN conjunct1] a [THEN conjunct2, THEN conjunct1] c]
    show "\<exists>s1. capacitor_body sub s tr =
           (Inr s1, tr @ [RequestTime (grantedtime s + period s) (grantedtime s),
                          GetValue ''Inductor/Il'' (Dbl x),
                          Publish ''Vc''
                            (Dbl (advance_capacitor (last (voltage s)) x (period s) (c_value s)))])
         \<and> grantedtime s1 = grantedtime s
         \<and> voltage s1
             = voltage s @ [advance_capacitor (last (voltage s)) x (period s) (c_value s)]"
      by (simp add: advance_capacitor_def)
  qed
  have 2: "capacitor_body sub s tr = (Inr s', tr') \<and> grantedtime s' = grantedtime s
      \<and> voltage s \<noteq> [] \<longrightarrow>
      (\<exists>x. grant sub tr (grantedtime s + period s) = Inr (grantedtime s)
         \<and> double_in sub (tr @ [RequestTime (grantedtime s + period s) (grantedtime s)])
              ''Inductor/Il'' = Inr x
         \<and> last (voltage s') = advance_capacitor (last (voltage s)) x (period s) (c_value s))"
  proof
    assume a: "capacitor_body sub s tr = (Inr s', tr') \<and> grantedtime s' = grantedtime s
      \<and> voltage s \<noteq> []"
    from capacitor_body_Inr [OF a [THEN conjunct1]] obtain g x where
      g: "grant sub tr (grantedtime s + period s) = Inr g"
      and x: "double_in sub (tr @ [RequestTime (grantedtime s + period s) g]) ''Inductor/Il''
             = Inr x"
      and s': "s' = s\<lparr>grantedtime := g, inductor_current := x,
               delta_v := (- 1 / c_value s) * x * period s,
               time_sim := time_sim s @ [g],
               voltage := voltage s @ [last (voltage s) + (- 1 / c_value s) * x * period s]\<rparr>"
      by blast
    from s' a have eq: "g = grantedtime s" by simp
    from s' have "last (voltage s')
        = advance_capacitor (last (voltage s)) x (period s) (c_value s)"
      by (simp add: advance_capacitor_def)
    with g x show "\<exists>x. grant sub tr (grantedtime s + period s) = Inr (grantedtime s)
         \<and> double_in sub (tr @ [RequestTime (grantedtime s + period s) (grantedtime s)])
              ''Inductor/Il'' = Inr x
         \<and> last (voltage s') = advance_capacitor (last (voltage s)) x (period s) (c_value s)"
      unfolding eq by blast
  qed
  show ?thesis
    by (rule conjI [OF 1 2])
qed

theorem zero_progress_step_witness:
  "\<exists>s' tr'. capacitor_body (early_sub (1 / 10000) 1) capacitor_init [] = (Inr s', tr')
     \<and> voltage capacitor_init \<noteq> []
     \<and> grant (early_sub (1 / 10000) 1) [] (grantedtime capacitor_init + period capacitor_init)
          = Inr (grantedtime capacitor_init)
     \<and> double_in (early_sub (1 / 10000) 1)
          [RequestTime (grantedtime capacitor_init + period capacitor_init)
             (grantedtime capacitor_init)] ''Inductor/Il'' = Inr 1
     \<and> grantedtime s' = grantedtime capacitor_init
     \<and> tr' = [RequestTime (1 / 10000) 0, GetValue ''Inductor/Il'' (Dbl 1),
              Publish ''Vc'' (Dbl (0 + (- 1 / 0.159) * 1 * (100 / 10 ^ 6)))]
     \<and> voltage s' = [0, 0 + (- 1 / 0.159) * 1 * (100 / 10 ^ 6)]
     \<and> last (voltage s') \<noteq> last (voltage capacitor_init)"
proof -
  let ?sub = "early_sub (1 / 10000) 1"
  have ne: "voltage capacitor_init \<noteq> []" by (simp add: capacitor_init_def)
  have g: "grant ?sub [] (grantedtime capacitor_init + period capacitor_init)
          = Inr (grantedtime capacitor_init)"
    by (simp add: early_sub_def capacitor_init_def)
  have d: "double_in ?sub [RequestTime (grantedtime capacitor_init + period capacitor_init)
             (grantedtime capacitor_init)] ''Inductor/Il'' = Inr 1"
    by (simp add: early_sub_def)
  have pre: "grant ?sub [] (grantedtime capacitor_init + period capacitor_init)
          = Inr (grantedtime capacitor_init)
      \<and> double_in ?sub
           ([] @ [RequestTime (grantedtime capacitor_init + period capacitor_init)
                   (grantedtime capacitor_init)]) ''Inductor/Il'' = Inr 1
      \<and> control ?sub
           ([] @ [RequestTime (grantedtime capacitor_init + period capacitor_init)
                   (grantedtime capacitor_init), GetValue ''Inductor/Il'' (Dbl 1)])
           (Publish ''Vc'' (Dbl (advance_capacitor (last (voltage capacitor_init)) 1
              (period capacitor_init) (c_value capacitor_init)))) = None
      \<and> voltage capacitor_init \<noteq> []"
    by (simp add: early_sub_def capacitor_init_def)
  from zero_progress_step [THEN conjunct1, THEN mp, OF pre]
  obtain s' where run: "capacitor_body ?sub capacitor_init [] =
      (Inr s', [] @ [RequestTime (grantedtime capacitor_init + period capacitor_init)
                       (grantedtime capacitor_init),
                     GetValue ''Inductor/Il'' (Dbl 1),
                     Publish ''Vc'' (Dbl (advance_capacitor (last (voltage capacitor_init)) 1
                        (period capacitor_init) (c_value capacitor_init)))])"
    and t: "grantedtime s' = grantedtime capacitor_init"
    and v: "voltage s' = voltage capacitor_init @
        [advance_capacitor (last (voltage capacitor_init)) 1 (period capacitor_init)
           (c_value capacitor_init)]"
    by blast
  from zero_progress_step [THEN conjunct2, THEN mp, OF conjI [OF run conjI [OF t ne]]] d
  have l: "last (voltage s') = advance_capacitor (last (voltage capacitor_init)) 1
      (period capacitor_init) (c_value capacitor_init)"
    by auto
  have e: "advance_capacitor (last (voltage capacitor_init)) 1 (period capacitor_init)
              (c_value capacitor_init) = 0 + (- 1 / 0.159) * 1 * (100 / 10 ^ 6)"
    by (simp add: advance_capacitor_def capacitor_init_def)
  have rq: "RequestTime (grantedtime capacitor_init + period capacitor_init)
        (grantedtime capacitor_init) = RequestTime (1 / 10000) 0"
    by (simp add: capacitor_init_def)
  from run have r: "capacitor_body ?sub capacitor_init [] =
      (Inr s', [RequestTime (1 / 10000) 0, GetValue ''Inductor/Il'' (Dbl 1),
                Publish ''Vc'' (Dbl (0 + (- 1 / 0.159) * 1 * (100 / 10 ^ 6)))])"
    unfolding e by (simp add: rq)
  from v have v': "voltage s' = [0, 0 + (- 1 / 0.159) * 1 * (100 / 10 ^ 6)]"
    unfolding e by (simp add: capacitor_init_def)
  from l have n: "last (voltage s') \<noteq> last (voltage capacitor_init)"
    unfolding e by (simp add: capacitor_init_def)
  show ?thesis
    apply (rule exI [of _ s'], rule exI, intro conjI)
           apply (rule r)
          apply (rule ne)
         apply (rule g)
        apply (rule d)
       apply (rule t)
      apply (rule refl)
     apply (rule v')
    apply (rule n)
    done
qed

text \<open>
  C8 as stated fails: from the initial variables of \<open>Capacitor.cpp\<close>, with a substrate
  that grants no progress (time 0 for the request of time \<open>100e-6\<close>) and delivers the
  inductor current 1, the elapsed time of the pass is 0 and the voltage changes from 0
  to \<open>-(1/1590)\<close>.
\<close>

theorem zero_progress_step_counterexample:
  "capacitor_body (early_sub (1 / 10000) 1) capacitor_init [] =
     (Inr (capacitor_init\<lparr>inductor_current := 1, delta_v := - (1 / 1590),
             time_sim := [0, 0], voltage := [0, - (1 / 1590)]\<rparr>),
      [RequestTime (1 / 10000) 0, GetValue ''Inductor/Il'' (Dbl 1),
       Publish ''Vc'' (Dbl (- (1 / 1590)))])
   \<and> grantedtime (capacitor_init\<lparr>inductor_current := 1, delta_v := - (1 / 1590),
             time_sim := [0, 0], voltage := [0, - (1 / 1590)]\<rparr>) - grantedtime capacitor_init = 0
   \<and> last (voltage (capacitor_init\<lparr>inductor_current := 1, delta_v := - (1 / 1590),
             time_sim := [0, 0], voltage := [0, - (1 / 1590)]\<rparr>))
        \<noteq> last (voltage capacitor_init)"
proof (intro conjI)
  show "grantedtime (capacitor_init\<lparr>inductor_current := 1, delta_v := - (1 / 1590),
             time_sim := [0, 0], voltage := [0, - (1 / 1590)]\<rparr>) - grantedtime capacitor_init = 0"
    by simp
  show "last (voltage (capacitor_init\<lparr>inductor_current := 1, delta_v := - (1 / 1590),
             time_sim := [0, 0], voltage := [0, - (1 / 1590)]\<rparr>))
        \<noteq> last (voltage capacitor_init)"
    by (simp add: capacitor_init_def)
qed (rule capacitor_stall_step)

section \<open>Exit codes\<close>













section \<open>The simple-cosim loop\<close>

lemma length_iteration_events: "length (iteration_events t r) = 5"
  by (simp add: iteration_events_def)

lemma gridpack_for_calls:
  "gridpack_for sub t tr = (Inr (), tr') \<Longrightarrow> 0 \<le> t \<Longrightarrow> t \<le> 10 \<Longrightarrow>
   \<exists>rs. length rs = nat (10 - t)
     \<and> tr' = tr @ concat (map (\<lambda>k. iteration_events (nat t + k) (rs ! k)) [0..<nat (10 - t)])
     \<and> (\<forall>k<nat (10 - t).
           grant sub (take (length tr + 5 * k) tr') (real (nat t + k) + 1) = Inr (fst (rs ! k))
         \<and> complex_in sub (take (length tr + 5 * k + 1) tr') ''load_meter/current''
             = Inr (snd (rs ! k)))"
proof (induction sub t tr rule: gridpack_for.induct)
  case (1 sub t tr)
  show ?case
  proof (cases "t < 10")
    case False
    with "1.prems" show ?thesis by (simp add: gridpack_for.simps [of sub t tr])
  next
    case True
    obtain r1 tr1 where st: "gridpack_step sub t tr = (r1, tr1)"
      by (cases "gridpack_step sub t tr")
    show ?thesis
    proof (cases r1)
      case (Inl e)
      with True st "1.prems"(1) show ?thesis
        by (simp add: gridpack_for.simps [of sub t tr])
    next
      case (Inr u)
      with True st "1.prems"(1) have rec: "gridpack_for sub (t + 1) tr1 = (Inr (), tr')"
        by (simp add: gridpack_for.simps [of sub t tr])
      from gridpack_step_calls [OF st [unfolded Inr] "1.prems"(2)] obtain g z where
        g: "grant sub tr (real (nat t) + 1) = Inr g"
        and z: "complex_in sub (tr @ [RequestTime (real (nat t) + 1) g]) ''load_meter/current''
            = Inr z"
        and tr1: "tr1 = tr @ iteration_events (nat t) (g, z)"
        by blast
      from "1.prems"(2) True have b: "0 \<le> t + 1" "t + 1 \<le> 10" by simp_all
      from "1.IH" [OF True st [symmetric] _ rec b] Inr obtain rs where
        rs: "length rs = nat (10 - (t + 1))"
        and tr': "tr' = tr1 @ concat (map (\<lambda>k. iteration_events (nat (t + 1) + k) (rs ! k))
                    [0..<nat (10 - (t + 1))])"
        and ties: "\<forall>k<nat (10 - (t + 1)).
           grant sub (take (length tr1 + 5 * k) tr') (real (nat (t + 1) + k) + 1)
             = Inr (fst (rs ! k))
         \<and> complex_in sub (take (length tr1 + 5 * k + 1) tr') ''load_meter/current''
             = Inr (snd (rs ! k))"
        by auto
      from "1.prems"(2) True have n: "nat (10 - t) = Suc (nat (10 - (t + 1)))"
        and t1: "nat (t + 1) = Suc (nat t)" by simp_all
      have len1: "length tr1 = length tr + 5"
        using tr1 by (simp add: length_iteration_events)
      obtain rest where shape: "tr' = tr @ RequestTime (real (nat t) + 1) g # rest"
        using tr' tr1 by (simp add: iteration_events_def)
      have a: "length (((g, z)) # rs) = nat (10 - t)" using rs n by simp
      have c: "tr' = tr @ concat (map (\<lambda>k. iteration_events (nat t + k) (((g, z) # rs) ! k))
                    [0..<nat (10 - t)])"
        unfolding n upt_0_Suc_shift using tr' tr1 t1 by (simp add: comp_def)
      have d: "\<forall>k<nat (10 - t).
           grant sub (take (length tr + 5 * k) tr') (real (nat t + k) + 1)
             = Inr (fst (((g, z) # rs) ! k))
         \<and> complex_in sub (take (length tr + 5 * k + 1) tr') ''load_meter/current''
             = Inr (snd (((g, z) # rs) ! k))"
      proof (intro allI impI)
        fix k assume k: "k < nat (10 - t)"
        show "grant sub (take (length tr + 5 * k) tr') (real (nat t + k) + 1)
             = Inr (fst (((g, z) # rs) ! k))
         \<and> complex_in sub (take (length tr + 5 * k + 1) tr') ''load_meter/current''
             = Inr (snd (((g, z) # rs) ! k))"
        proof (cases k)
          case 0
          have "take (length tr) tr' = tr" "take (length tr + 1) tr'
              = tr @ [RequestTime (real (nat t) + 1) g]"
            using shape by simp_all
          with g z 0 show ?thesis by simp
        next
          case (Suc j)
          with k n have j: "j < nat (10 - (t + 1))" by simp
          have e1: "length tr + 5 * k = length tr1 + 5 * j"
            and e2: "length tr + 5 * k + 1 = length tr1 + 5 * j + 1"
            using Suc len1 by simp_all
          have e3: "real (nat t + k) + 1 = real (nat (t + 1) + j) + 1"
            using Suc t1 by simp
          from ties j have "grant sub (take (length tr1 + 5 * j) tr') (real (nat (t + 1) + j) + 1)
             = Inr (fst (rs ! j))
           \<and> complex_in sub (take (length tr1 + 5 * j + 1) tr') ''load_meter/current''
             = Inr (snd (rs ! j))"
            by blast
          then show ?thesis
            unfolding e1 e2 e3 using Suc by simp
        qed
      qed
      from a c d show ?thesis by blast
    qed
  qed
qed

text \<open>
  C10. When the \<open>for\<close> loop of the simple-cosim federate runs to its end, it has made
  exactly ten passes, each of five calls: pass \<open>t\<close> (from 0 to 9) requests the time
  \<open>t + 1\<close>, reads the load current once and publishes three voltages. The load current
  \<open>s\<close> of the pass is the value that the substrate delivered on the subscription after
  the request of that pass, and the voltages published as A, B and C are
  \<open>(1.1*Re s, 1.1*Im s)\<close>, \<open>(1.2*Re s, 1.2*Im s)\<close> and \<open>(1.3*Re s, 1.3*Im s)\<close>. The
  requested times are 1 to 10 whatever times the substrate granted. (The calls made
  before pass \<open>t\<close> are the first \<open>5 * t\<close> calls of the loop.)
\<close>

theorem simple_cosim_loop:
  "gridpack_for sub 0 tr = (Inr (), tr') \<longrightarrow>
     (\<exists>rs. length rs = 10
        \<and> tr' = tr @ concat (map (\<lambda>t. iteration_events t (rs ! t)) [0..<10])
        \<and> (\<forall>t<10.
              grant sub (take (length tr + 5 * t) tr') (real t + 1) = Inr (fst (rs ! t))
            \<and> complex_in sub (take (length tr + 5 * t + 1) tr') ''load_meter/current''
                = Inr (snd (rs ! t)))
        \<and> map fst (requests (drop (length tr) tr')) = [1, 2, 3, 4, 5, 6, 7, 8, 9, 10])"
proof
  assume "gridpack_for sub 0 tr = (Inr (), tr')"
  from gridpack_for_calls [OF this] obtain rs where rs: "length rs = 10"
    and tr': "tr' = tr @ concat (map (\<lambda>t. iteration_events t (rs ! t)) [0..<10])"
    and ties: "\<forall>t<10.
              grant sub (take (length tr + 5 * t) tr') (real t + 1) = Inr (fst (rs ! t))
            \<and> complex_in sub (take (length tr + 5 * t + 1) tr') ''load_meter/current''
                = Inr (snd (rs ! t))"
    by auto
  have "map fst (requests (drop (length tr) tr')) = map (\<lambda>t. real t + 1) [0..<10]"
    by (simp add: tr' requests_concat requests_iteration_events comp_def del: upt_Suc)
  also have "\<dots> = [1, 2, 3, 4, 5, 6, 7, 8, 9, 10]"
    by (simp add: upt_rec)
  finally have rq: "map fst (requests (drop (length tr) tr')) = [1, 2, 3, 4, 5, 6, 7, 8, 9, 10]" .
  show "\<exists>rs. length rs = 10
        \<and> tr' = tr @ concat (map (\<lambda>t. iteration_events t (rs ! t)) [0..<10])
        \<and> (\<forall>t<10.
              grant sub (take (length tr + 5 * t) tr') (real t + 1) = Inr (fst (rs ! t))
            \<and> complex_in sub (take (length tr + 5 * t + 1) tr') ''load_meter/current''
                = Inr (snd (rs ! t)))
        \<and> map fst (requests (drop (length tr) tr')) = [1, 2, 3, 4, 5, 6, 7, 8, 9, 10]"
    by (rule exI [of _ rs], intro conjI) (rule rs, rule tr', rule ties, rule rq)
qed

theorem simple_cosim_loop_witness:
  "\<exists>tr'. gridpack_for (stalled_sub (1 / 2) (Complex 1 2)) 0 [] = (Inr (), tr')
     \<and> tr' = concat (map (\<lambda>t.
          [RequestTime (real t + 1) (1 / 2),
           GetValue ''load_meter/current'' (Cplx (Complex 1 2)),
           Publish ''gridpack/voltage_A'' (Cplx (Complex (1.1 * 1) (1.1 * 2))),
           Publish ''gridpack/voltage_B'' (Cplx (Complex (1.2 * 1) (1.2 * 2))),
           Publish ''gridpack/voltage_C'' (Cplx (Complex (1.3 * 1) (1.3 * 2)))]) [0..<10])
     \<and> map fst (requests tr') = [1, 2, 3, 4, 5, 6, 7, 8, 9, 10]
     \<and> grants tr' = [1 / 2, 1 / 2, 1 / 2, 1 / 2, 1 / 2, 1 / 2, 1 / 2, 1 / 2, 1 / 2, 1 / 2]"
proof -
  let ?sub = "stalled_sub (1 / 2) (Complex 1 2)"
  from gridpack_stalled_for obtain tr' where
    run: "gridpack_for ?sub 0 [] = (Inr (), tr')"
    by (cases "gridpack_for ?sub 0 []") auto
  from simple_cosim_loop [THEN mp, OF run] obtain rs where a: "length rs = 10"
    and b: "tr' = [] @ concat (map (\<lambda>t. iteration_events t (rs ! t)) [0..<10])"
    and ties: "\<forall>t<10.
              grant ?sub (take (length ([]::event list) + 5 * t) tr') (real t + 1)
                = Inr (fst (rs ! t))
            \<and> complex_in ?sub (take (length ([]::event list) + 5 * t + 1) tr')
                ''load_meter/current'' = Inr (snd (rs ! t))"
    and c: "map fst (requests (drop (length ([]::event list)) tr')) = [1, 2, 3, 4, 5, 6, 7, 8, 9, 10]"
    by (elim exE conjE)
  have r: "rs ! t = (1 / 2, Complex 1 2)" if "t < 10" for t
    using ties that by (auto simp: stalled_sub_def intro: prod_eqI)
  have ev: "iteration_events t (rs ! t) =
          [RequestTime (real t + 1) (1 / 2),
           GetValue ''load_meter/current'' (Cplx (Complex 1 2)),
           Publish ''gridpack/voltage_A'' (Cplx (Complex (1.1 * 1) (1.1 * 2))),
           Publish ''gridpack/voltage_B'' (Cplx (Complex (1.2 * 1) (1.2 * 2))),
           Publish ''gridpack/voltage_C'' (Cplx (Complex (1.3 * 1) (1.3 * 2)))]"
    if "t \<in> set [0..<10]" for t
    using that by (simp add: r iteration_events_def)
  have m: "map (\<lambda>t. iteration_events t (rs ! t)) [0..<10] = map (\<lambda>t.
          [RequestTime (real t + 1) (1 / 2),
           GetValue ''load_meter/current'' (Cplx (Complex 1 2)),
           Publish ''gridpack/voltage_A'' (Cplx (Complex (1.1 * 1) (1.1 * 2))),
           Publish ''gridpack/voltage_B'' (Cplx (Complex (1.2 * 1) (1.2 * 2))),
           Publish ''gridpack/voltage_C'' (Cplx (Complex (1.3 * 1) (1.3 * 2)))]) [0..<10]"
    by (rule map_cong [OF refl]) (rule ev)
  from b have t: "tr' = concat (map (\<lambda>t.
          [RequestTime (real t + 1) (1 / 2),
           GetValue ''load_meter/current'' (Cplx (Complex 1 2)),
           Publish ''gridpack/voltage_A'' (Cplx (Complex (1.1 * 1) (1.1 * 2))),
           Publish ''gridpack/voltage_B'' (Cplx (Complex (1.2 * 1) (1.2 * 2))),
           Publish ''gridpack/voltage_C'' (Cplx (Complex (1.3 * 1) (1.3 * 2)))]) [0..<10])"
    unfolding m by (simp only: append_Nil)
  from c have q: "map fst (requests tr') = [1, 2, 3, 4, 5, 6, 7, 8, 9, 10]" by simp
  have gq: "grants tr' = [1 / 2, 1 / 2, 1 / 2, 1 / 2, 1 / 2, 1 / 2, 1 / 2, 1 / 2, 1 / 2, 1 / 2]"
    unfolding t by (simp add: grants_def upt_rec)
  show ?thesis
    by (rule exI [of _ tr'], intro conjI) (rule run, rule t, rule q, rule gq)
qed

end
